(* ===== verification/Prelude.thy ===== *)
theory Prelude
  imports Main "HOL-Library.Word" "HOL-Library.AList" "HOL-Library.Multiset"
begin

text \<open>
  Shared vocabulary of the development: the widths of Go's integers, Go maps as association
  lists with an unspecified iteration order, fallible results as sums, and the contracts
  that several components rely on. The locale \<open>defaulting\<close> is the contract of every
  "replace an unusable setting by a default" of the configuration code; \<open>panic_free\<close> and
  \<open>latched\<close> are contracts of objects with calls, \<open>invariant\<close> is induction over the steps of a
  relation; the locale
  \<open>registry\<close> is the contract of the maps \<open>producers\<close>, \<open>consumers\<close>,
  \<open>subscriptions\<close> and \<open>stats\<close>, and is interpreted below on the map model itself.
\<close>

named_theorems go_map_simps \<open>lookup, update, deletion and key sets of Go maps\<close>
named_theorems conf_simps \<open>configuration records under normalization\<close>
named_theorems effect_simps \<open>the calls an operation appends and the state it leaves\<close>

section \<open>Integers\<close>

type_synonym int32 = "32 word"
type_synonym int64 = "64 word"
type_synonym uint32 = "32 word"
type_synonym uint64 = "64 word"

text \<open>
  \<open>time.Duration\<close> is an \<open>int64\<close> count of nanoseconds. \<open>int\<close> and \<open>uint\<close> are the 64-bit
  types of the platforms the client supports. A Go conversion from \<open>int32\<close> to \<open>int\<close> or to
  \<open>uint\<close> sign-extends; \<open>uint32(x)\<close> of an \<open>int32\<close> keeps the bits.
\<close>

type_synonym duration = int64

abbreviation nanosecond :: duration where "nanosecond \<equiv> 1"
abbreviation millisecond :: duration where "millisecond \<equiv> 1000000"
abbreviation second :: duration where "second \<equiv> 1000000000"
abbreviation minute :: duration where "minute \<equiv> 60000000000"

definition int_of_int32 :: "int32 \<Rightarrow> int64" where
  "int_of_int32 x = signed x"

definition uint_of_int32 :: "int32 \<Rightarrow> uint64" where
  "uint_of_int32 x = signed x"

definition uint32_of_int32 :: "int32 \<Rightarrow> uint32" where
  "uint32_of_int32 x = x"

lemma sint_int_of_int32 [simp]: "sint (int_of_int32 x) = sint x"
  by (simp add: int_of_int32_def sint_up_scast is_up)

lemma sint_uint_of_int32 [simp]: "sint (uint_of_int32 x) = sint x"
  by (simp add: uint_of_int32_def sint_up_scast is_up)

lemma uint_eq_sint_word: "uint (w :: 'a::len word) = sint w mod 2 ^ LENGTH('a)"
  by (metis take_bit_eq_mod uint_sint)

lemma mod_of_negative:
  fixes a m :: int
  assumes "- m \<le> a" and "a < 0"
  shows "a mod m = m + a"
proof -
  have "a mod m = (m + a) mod m" by simp
  also have "\<dots> = m + a" using assms by (intro mod_pos_pos_trivial) auto
  finally show ?thesis .
qed

lemma uint_of_int32_exact: "0 \<le> sint x \<Longrightarrow> uint (uint_of_int32 x) = sint x"
  using sint_ge [of x] sint_lt [of x] by (simp add: uint_eq_sint_word)

lemma uint_of_int32_negative:
  "sint x < 0 \<Longrightarrow> uint (uint_of_int32 x) = 2 ^ 64 + sint x"
  using sint_ge [of x] sint_lt [of x] by (simp add: uint_eq_sint_word mod_of_negative)

lemma uint32_of_int32_exact: "0 \<le> sint x \<Longrightarrow> uint (uint32_of_int32 x) = sint x"
  using sint_ge [of x] sint_lt [of x] by (simp add: uint_eq_sint_word uint32_of_int32_def)

lemma uint32_of_int32_negative:
  "sint x < 0 \<Longrightarrow> uint (uint32_of_int32 x) = 2 ^ 32 + sint x"
  using sint_ge [of x] sint_lt [of x] by (simp add: uint_eq_sint_word mod_of_negative uint32_of_int32_def)

section \<open>Fallible results\<close>

text \<open>
  A Go function that returns a value and an \<open>error\<close> is a function into \<open>'e + 'a\<close>;
  \<open>bindE\<close> is the sequence \<open>x, err := f(); if err != nil { return err }; ...\<close>.
\<close>

definition bindE :: "'e + 'a \<Rightarrow> ('a \<Rightarrow> 'e + 'b) \<Rightarrow> 'e + 'b" where
  "bindE m f = (case m of Inl e \<Rightarrow> Inl e | Inr x \<Rightarrow> f x)"

lemma bindE_simps [simp]: "bindE (Inl e) f = Inl e" "bindE (Inr x) f = f x"
  by (simp_all add: bindE_def)

lemma bindE_Inr_iff: "bindE m f = Inr y \<longleftrightarrow> (\<exists>x. m = Inr x \<and> f x = Inr y)"
  by (cases m) auto

lemma bindE_Inl_iff:
  "bindE m f = Inl e \<longleftrightarrow> m = Inl e \<or> (\<exists>x. m = Inr x \<and> f x = Inl e)"
  by (cases m) auto

definition is_ok :: "'e + 'a \<Rightarrow> bool" where
  "is_ok r = (case r of Inl _ \<Rightarrow> False | Inr _ \<Rightarrow> True)"

lemma is_ok_simps [simp]: "\<not> is_ok (Inl e)" "is_ok (Inr x)"
  by (simp_all add: is_ok_def)

lemma is_ok_iff: "is_ok r \<longleftrightarrow> (\<exists>x. r = Inr x)"
  by (cases r) auto

lemma is_ok_bindE: "is_ok (bindE m f) \<longleftrightarrow> (\<exists>x. m = Inr x \<and> is_ok (f x))"
  by (cases m) auto

text \<open>
  A loop \<open>for i, x := range xs\<close> whose body may return an error and otherwise rewrites the
  element. The first error ends the loop.
\<close>

fun for_each :: "(nat \<Rightarrow> 'a \<Rightarrow> 'e + 'b) \<Rightarrow> nat \<Rightarrow> 'a list \<Rightarrow> 'e + 'b list" where
  "for_each f i [] = Inr []"
| "for_each f i (x # xs) =
     bindE (f i x) (\<lambda>y. bindE (for_each f (Suc i) xs) (\<lambda>ys. Inr (y # ys)))"

lemma for_each_ok:
  assumes "\<And>j x. is_ok (f j x) \<longleftrightarrow> P x"
  shows "is_ok (for_each f i xs) \<longleftrightarrow> (\<forall>x\<in>set xs. P x)"
proof (induction xs arbitrary: i)
  case (Cons x xs)
  have "is_ok (for_each f i (x # xs)) \<longleftrightarrow> is_ok (f i x) \<and> is_ok (for_each f (Suc i) xs)"
    by (auto simp: is_ok_iff bindE_Inr_iff)
  then show ?case by (simp add: Cons.IH assms)
qed simp

lemma for_each_Inr:
  assumes "for_each f i xs = Inr ys" and "\<And>j x y. f j x = Inr y \<Longrightarrow> R x y"
  shows "list_all2 R xs ys"
  using assms(1)
  by (induction xs arbitrary: i ys) (auto simp: bindE_Inr_iff assms(2))

lemma for_each_id: "(\<And>j x. x \<in> set xs \<Longrightarrow> f j x = Inr x) \<Longrightarrow> for_each f i xs = Inr xs"
  by (induction xs arbitrary: i) auto

lemma for_each_first_error:
  assumes "for_each f i xs = Inl e"
  shows "\<exists>k < length xs. f (i + k) (xs ! k) = Inl e \<and> (\<forall>j<k. is_ok (f (i + j) (xs ! j)))"
  using assms
proof (induction xs arbitrary: i)
  case (Cons x xs)
  show ?case
  proof (cases "f i x")
    case (Inl e')
    with Cons.prems show ?thesis by (intro exI [of _ 0]) auto
  next
    case (Inr y)
    with Cons.prems have "for_each f (Suc i) xs = Inl e" by (auto simp: bindE_Inl_iff)
    from Cons.IH [OF this] obtain k where k: "k < length xs" "f (Suc i + k) (xs ! k) = Inl e"
      "\<forall>j<k. is_ok (f (Suc i + j) (xs ! j))" by blast
    with Inr show ?thesis
      by (intro exI [of _ "Suc k"]) (auto simp: less_Suc_eq_0_disj)
  qed
qed simp

section \<open>Invariants of step relations\<close>

locale invariant =
  fixes step :: "'s \<Rightarrow> 's \<Rightarrow> bool" and inv :: "'s \<Rightarrow> bool"
  assumes step_inv: "step s t \<Longrightarrow> inv s \<Longrightarrow> inv t"
begin

lemma steps_inv: "step\<^sup>*\<^sup>* s t \<Longrightarrow> inv s \<Longrightarrow> inv t"
  by (induction rule: rtranclp_induct) (auto intro: step_inv)

end

section \<open>Objects that must not panic\<close>

text \<open>
  An operation that can panic returns \<open>Inl\<close> of the panic. \<open>run_ops\<close> performs a sequence of
  calls on an object; the locale \<open>panic_free\<close> is the contract of an object with an invariant
  under which no call panics and every call keeps the invariant.
\<close>

datatype go_panic =
    CloseOfClosedChannel
  | NonPositiveTickerInterval
  | NilPointerDereference
  | RegistrationFailed string
  | BadTypeAssertion

definition close_chan :: "bool \<Rightarrow> go_panic + bool" where
  \<comment> \<open>a channel that is only ever closed is represented by whether it is closed\<close>
  "close_chan closed = (if closed then Inl CloseOfClosedChannel else Inr True)"

fun run_ops :: "('c \<Rightarrow> 'op \<Rightarrow> 'p + 'c) \<Rightarrow> 'c \<Rightarrow> 'op list \<Rightarrow> 'p + 'c" where
  "run_ops step c [] = Inr c"
| "run_ops step c (x # xs) = bindE (step c x) (\<lambda>c'. run_ops step c' xs)"

lemma run_ops_append: "run_ops step c (xs @ ys) = bindE (run_ops step c xs) (\<lambda>c'. run_ops step c' ys)"
proof (induction xs arbitrary: c)
  case (Cons x xs)
  then show ?case by (cases "step c x") simp_all
qed simp

locale panic_free =
  fixes step :: "'c \<Rightarrow> 'op \<Rightarrow> 'p + 'c" and inv :: "'c \<Rightarrow> bool"
  assumes step_ok: "inv c \<Longrightarrow> \<exists>c'. step c x = Inr c' \<and> inv c'"
begin

lemma run_ok: "inv c \<Longrightarrow> \<exists>c'. run_ops step c xs = Inr c' \<and> inv c'"
proof (induction xs arbitrary: c)
  case (Cons x xs)
  from step_ok [OF Cons.prems] obtain c' where "step c x = Inr c'" "inv c'" by blast
  with Cons.IH show ?case by auto
qed simp

lemma run_inv: "inv c \<Longrightarrow> run_ops step c xs = Inr c' \<Longrightarrow> inv c'"
  using run_ok [of c xs] by auto

lemma run_frame:
  assumes "inv c" and "run_ops step c xs = Inr c'"
    and "\<And>c x c'. inv c \<Longrightarrow> step c x = Inr c' \<Longrightarrow> f c' = f c"
  shows "f c' = f c"
  using assms(1,2)
proof (induction xs arbitrary: c)
  case (Cons x xs)
  from step_ok [OF Cons.prems(1)] obtain d where d: "step c x = Inr d" "inv d" by blast
  with Cons.prems(2) have "run_ops step d xs = Inr c'" by simp
  with Cons.IH d(2) have "f c' = f d" by blast
  also from Cons.prems(1) d(1) have "f d = f c" by (rule assms(3))
  finally show ?case .
qed simp

end

text \<open>An object one observation of which is decided by the last call alone.\<close>

locale latched = panic_free +
  fixes obs :: "'a \<Rightarrow> 'v" and sets :: "'b \<Rightarrow> 'v"
  assumes step_sets: "inv c \<Longrightarrow> step c x = Inr c' \<Longrightarrow> obs c' = sets x"
begin

lemma run_latched:
  assumes "inv c" and "xs \<noteq> []" and "run_ops step c xs = Inr c'"
  shows "obs c' = sets (last xs)"
proof -
  from assms(2) obtain ys y where xs: "xs = ys @ [y]" by (metis append_butlast_last_id)
  from run_ok [OF assms(1), of ys] obtain d where d: "run_ops step c ys = Inr d" "inv d" by blast
  with assms(3) xs have "step d y = Inr c'"
    by (auto simp: run_ops_append bindE_Inr_iff)
  with d(2) have "obs c' = sets y" by (rule step_sets)
  with xs show ?thesis by simp
qed

end

section \<open>Replacing unusable settings\<close>

definition or_default :: "('a \<Rightarrow> bool) \<Rightarrow> 'a \<Rightarrow> 'a \<Rightarrow> 'a" where
  "or_default bad d x = (if bad x then d else x)"

lemma or_default_keep: "\<not> bad x \<Longrightarrow> or_default bad d x = x"
  by (simp add: or_default_def)

locale defaulting =
  fixes bad :: "'a \<Rightarrow> bool" and dflt :: 'a
  assumes dflt_usable: "\<not> bad dflt"
begin

lemma usable: "\<not> bad (or_default bad dflt x)"
  by (simp add: or_default_def dflt_usable)

lemma idem: "or_default bad dflt (or_default bad dflt x) = or_default bad dflt x"
  by (simp add: or_default_def)

lemma keeps: "\<not> bad x \<Longrightarrow> or_default bad dflt x = x"
  by (simp add: or_default_def)

lemma fixed_iff: "or_default bad dflt x = x \<longleftrightarrow> \<not> bad x"
  by (metis keeps usable)

end

text \<open>The two usability tests of the source that need no library: \<open>x <= 0\<close> on an
  \<open>int32\<close> and \<open>s == ""\<close> on a string.\<close>

definition nonpos32 :: "int32 \<Rightarrow> bool" where
  "nonpos32 x \<longleftrightarrow> sint x \<le> 0"

definition blank :: "string \<Rightarrow> bool" where
  "blank s \<longleftrightarrow> s = ''''"

interpretation dflt_one: defaulting nonpos32 1
  by unfold_locales (simp add: nonpos32_def)

interpretation dflt_three: defaulting nonpos32 3
  by unfold_locales (simp add: nonpos32_def)

interpretation dflt_thousand: defaulting nonpos32 1000
  by unfold_locales (simp add: nonpos32_def)

section \<open>Go maps\<close>

text \<open>
  A Go map is a list of entries. \<open>go_get\<close> is \<open>v, ok := m[k]\<close>, \<open>go_put\<close> is
  \<open>m[k] = v\<close>, \<open>go_del\<close> is \<open>delete(m, k)\<close> and \<open>go_wf\<close> says that a key occurs once.
  The language leaves the iteration order of \<open>range m\<close> open and may choose a new one every
  time. \<open>go_range\<close> takes a proposed order of the keys and follows it when it is a
  permutation of them, so every order is reached by some proposal and no proposal skips or
  repeats an entry.
\<close>

type_synonym 'v go_map = "(string \<times> 'v) list"

definition go_get :: "'v go_map \<Rightarrow> string \<Rightarrow> 'v option" where
  "go_get m k = map_of m k"

definition go_put :: "string \<Rightarrow> 'v \<Rightarrow> 'v go_map \<Rightarrow> 'v go_map" where
  "go_put k v m = AList.update k v m"

definition go_del :: "string \<Rightarrow> 'v go_map \<Rightarrow> 'v go_map" where
  "go_del k m = AList.delete k m"

definition go_keys :: "'v go_map \<Rightarrow> string list" where
  "go_keys m = map fst m"

definition go_wf :: "'v go_map \<Rightarrow> bool" where
  "go_wf m \<longleftrightarrow> distinct (go_keys m)"

definition go_range :: "string list \<Rightarrow> 'v go_map \<Rightarrow> (string \<times> 'v) list" where
  "go_range ks m =
     (if mset ks = mset (go_keys m)
      then List.map_filter (\<lambda>k. map_option (Pair k) (go_get m k)) ks
      else m)"

text \<open>The contract of a map of named resources.\<close>

locale registry =
  fixes empty :: 'm
    and get :: "'m \<Rightarrow> 'k \<Rightarrow> 'v option"
    and put :: "'k \<Rightarrow> 'v \<Rightarrow> 'm \<Rightarrow> 'm"
    and del :: "'k \<Rightarrow> 'm \<Rightarrow> 'm"
    and wf :: "'m \<Rightarrow> bool"
  assumes wf_empty: "wf empty"
    and wf_put: "wf m \<Longrightarrow> wf (put k v m)"
    and wf_del: "wf m \<Longrightarrow> wf (del k m)"
    and get_empty: "get empty k = None"
    and get_put: "get (put k v m) k' = (if k' = k then Some v else get m k')"
    and get_del: "get (del k m) k' = (if k' = k then None else get m k')"
begin

lemma get_put_same: "get (put k v m) k = Some v"
  by (simp add: get_put)

lemma get_put_other: "k' \<noteq> k \<Longrightarrow> get (put k v m) k' = get m k'"
  by (simp add: get_put)

lemma get_del_same: "get (del k m) k = None"
  by (simp add: get_del)

lemma get_del_other: "k' \<noteq> k \<Longrightarrow> get (del k m) k' = get m k'"
  by (simp add: get_del)

text \<open>Registering a batch: the last entry of a name wins, other names are untouched.\<close>

lemma get_put_all:
  "get (foldl (\<lambda>m (k, v). put k v m) m kvs) k =
     (case map_of (rev kvs) k of Some v \<Rightarrow> Some v | None \<Rightarrow> get m k)"
proof (induction kvs arbitrary: m)
  case Nil
  then show ?case by simp
next
  case (Cons kv kvs)
  obtain k' v' where kv: "kv = (k', v')" by fastforce
  show ?case
    by (simp add: kv Cons.IH get_put map_add_def split: option.splits)
qed

lemma get_put_all_distinct:
  assumes "distinct (map fst kvs)" and "(k, v) \<in> set kvs"
  shows "get (foldl (\<lambda>m (k, v). put k v m) m kvs) k = Some v"
proof -
  have "map_of (rev kvs) k = Some v"
    using assms by (intro map_of_is_SomeI) (simp_all flip: rev_map)
  then show ?thesis by (simp add: get_put_all)
qed

lemma wf_put_all: "wf m \<Longrightarrow> wf (foldl (\<lambda>m (k, v). put k v m) m kvs)"
  by (induction kvs arbitrary: m) (auto simp: wf_put)

lemma wf_del_all: "wf m \<Longrightarrow> wf (foldl (\<lambda>m k. del k m) m ks)"
  by (induction ks arbitrary: m) (auto simp: wf_del)

lemma get_del_all: "get (foldl (\<lambda>m k. del k m) m ks) k = (if k \<in> set ks then None else get m k)"
  by (induction ks arbitrary: m) (auto simp: get_del)

end

interpretation gm: registry "[]" go_get go_put go_del go_wf
  by unfold_locales
    (auto simp: go_get_def go_put_def go_del_def go_wf_def go_keys_def
       update_conv' delete_conv' distinct_update distinct_delete)

lemmas go_get_put [go_map_simps, simp] = gm.get_put
  and go_get_del [go_map_simps, simp] = gm.get_del
  and go_get_empty [go_map_simps, simp] = gm.get_empty
  and go_wf_intros [go_map_simps, intro, simp] = gm.wf_empty gm.wf_put gm.wf_del

lemmas go_wf_put_all = gm.wf_put_all
  and go_wf_del_all = gm.wf_del_all
  and go_get_del_all = gm.get_del_all

lemma go_get_in_set: "go_wf m \<Longrightarrow> go_get m k = Some v \<longleftrightarrow> (k, v) \<in> set m"
  by (simp add: go_get_def go_wf_def go_keys_def)

lemma go_get_None_iff: "go_get m k = None \<longleftrightarrow> k \<notin> set (go_keys m)"
  by (simp add: go_get_def go_keys_def map_of_eq_None_iff)

lemma set_go_keys_put [simp]: "set (go_keys (go_put k v m)) = insert k (set (go_keys m))"
  by (simp add: go_keys_def go_put_def dom_update)

lemma set_go_keys_del [simp]: "set (go_keys (go_del k m)) = set (go_keys m) - {k}"
  by (simp add: go_keys_def go_del_def delete_keys)

lemma go_put_not_empty [simp]: "go_put k v m \<noteq> []"
  by (simp add: go_put_def)

text \<open>Iteration visits every entry once, whatever order is proposed.\<close>

lemma set_map_filter: "set (List.map_filter f xs) = {y. \<exists>x\<in>set xs. f x = Some y}"
  by (induction xs) (auto simp: List.map_filter_simps split: option.splits)

lemma set_go_range [simp]:
  assumes "go_wf m"
  shows "set (go_range ks m) = set m"
proof (cases "mset ks = mset (go_keys m)")
  case True
  then have "set ks = set (go_keys m)" by (metis set_mset_mset)
  with assms show ?thesis
    by (auto simp: go_range_def True set_map_filter go_get_in_set go_keys_def image_iff)
      (metis fst_conv)
next
  case False
  then show ?thesis by (auto simp: go_range_def)
qed

lemma map_fst_map_filter:
  "(\<And>k. k \<in> set ks \<Longrightarrow> go_get m k \<noteq> None) \<Longrightarrow>
     map fst (List.map_filter (\<lambda>k. map_option (Pair k) (go_get m k)) ks) = ks"
  by (induction ks) (auto simp: List.map_filter_simps split: option.splits)

lemma mset_go_range_keys: "mset (map fst (go_range ks m)) = mset (go_keys m)"
proof (cases "mset ks = mset (go_keys m)")
  case True
  then have "set ks = set (go_keys m)" by (metis set_mset_mset)
  then have "map fst (List.map_filter (\<lambda>k. map_option (Pair k) (go_get m k)) ks) = ks"
    by (intro map_fst_map_filter) (auto simp: go_get_None_iff)
  with True show ?thesis by (simp add: go_range_def)
next
  case False
  then show ?thesis by (auto simp: go_range_def go_keys_def)
qed

lemma go_range_empty [simp]: "go_range ks [] = []"
  by (auto simp: go_range_def go_keys_def List.map_filter_simps)

lemma go_range_Nil_iff [simp]: "go_range ks m = [] \<longleftrightarrow> m = []"
  by (metis go_keys_def go_range_empty length_0_conv length_map mset_go_range_keys size_mset)

lemma distinct_go_range: "go_wf m \<Longrightarrow> distinct (go_range ks m)"
  by (metis distinct_map go_wf_def mset_eq_imp_distinct_iff mset_go_range_keys)

text \<open>Every key of the map can come first.\<close>

lemma go_range_starts_with:
  assumes "go_wf m" and "go_get m k = Some v"
  shows "\<exists>ks. \<exists>rest. go_range ks m = (k, v) # rest"
proof -
  from assms have k: "k \<in> set (go_keys m)" by (metis go_get_None_iff option.distinct(1))
  let ?ks = "k # remove1 k (go_keys m)"
  from k have "mset ?ks = mset (go_keys m)" by simp
  with assms(2) show ?thesis
    by (intro exI [of _ ?ks]) (simp add: go_range_def List.map_filter_simps)
qed

end
