(* ===== verification/Durations.thy ===== *)
theory Durations
  imports Prelude
begin

text \<open>
  The protobuf well-known type \<open>google.protobuf.Duration\<close>, which the configuration uses for
  every time span, and the two functions of the package \<open>durationpb\<close> that the plugin calls:
  the method \<open>AsDuration\<close> and the constructor \<open>New\<close>. The package is third-party code, so
  both are parameters, the fields of a record that every definition using them takes as an
  argument. The locale \<open>durationpb\<close> states what the plugin relies on: a message made from a
  \<open>time.Duration\<close> reads back as that duration, and a nil message reads as 0.
\<close>

section \<open>The message and the library\<close>

record Duration =
  Seconds :: int64
  Nanos :: int32

record durationpb_lib =
  AsDuration :: "Duration option \<Rightarrow> duration"
  New :: "duration \<Rightarrow> Duration"

locale durationpb =
  fixes L :: durationpb_lib
  assumes as_new: "AsDuration L (Some (New L d)) = d"
    and as_nil: "AsDuration L None = 0"

text \<open>\<open>x == nil || x.AsDuration() <= 0\<close>, the usability test of every time span.\<close>

definition unset_dur :: "durationpb_lib \<Rightarrow> Duration option \<Rightarrow> bool" where
  "unset_dur L x \<longleftrightarrow> x = None \<or> sint (AsDuration L x) \<le> 0"

context durationpb begin

lemma unset_dur_None: "unset_dur L None"
  by (simp add: unset_dur_def)

lemma unset_dur_New: "unset_dur L (Some (New L d)) \<longleftrightarrow> sint d \<le> 0"
  by (simp add: unset_dur_def as_new)

lemma set_dur_pos: "\<not> unset_dur L x \<Longrightarrow> 0 < sint (AsDuration L x)"
  by (simp add: unset_dur_def)

lemma defaulting_dur: "0 < sint d \<Longrightarrow> defaulting (unset_dur L) (Some (New L d))"
  by unfold_locales (simp add: unset_dur_New)

lemmas dflt_dur_usable = defaulting.usable [OF defaulting_dur]
  and dflt_dur_fixed = defaulting.fixed_iff [OF defaulting_dur]

end

section \<open>An instance\<close>

text \<open>
  The documented behaviour in full, so that the contract is known to be satisfiable and the
  witnesses can compute: \<open>New\<close> splits a span into whole seconds and the remaining
  nanoseconds, both with the sign of the span; \<open>AsDuration\<close> recombines them and returns the
  nearest \<open>time.Duration\<close> when the message exceeds its range.
\<close>

definition quot_int :: "int \<Rightarrow> int \<Rightarrow> int" where
  "quot_int a b = sgn a * (\<bar>a\<bar> div b)"

definition rem_int :: "int \<Rightarrow> int \<Rightarrow> int" where
  "rem_int a b = sgn a * (\<bar>a\<bar> mod b)"

definition clamp64 :: "int \<Rightarrow> int64" where
  "clamp64 n = word_of_int (max (- (2 ^ 63)) (min (2 ^ 63 - 1) n))"

definition durationpb_doc :: durationpb_lib where
  "durationpb_doc =
     \<lparr>AsDuration = (\<lambda>x. case x of None \<Rightarrow> 0
        | Some m \<Rightarrow> clamp64 (sint (Seconds m) * 1000000000 + sint (Nanos m))),
      New = (\<lambda>d. \<lparr>Seconds = word_of_int (quot_int (sint d) 1000000000),
                   Nanos = word_of_int (rem_int (sint d) 1000000000)\<rparr>)\<rparr>"

lemma sint_of_int64: "- (2 ^ 63) \<le> n \<Longrightarrow> n < 2 ^ 63 \<Longrightarrow> sint (word_of_int n :: int64) = n"
  by (simp add: sint_sbintrunc' signed_take_bit_int_eq_self)

lemma sint_of_int32: "- (2 ^ 31) \<le> n \<Longrightarrow> n < 2 ^ 31 \<Longrightarrow> sint (word_of_int n :: int32) = n"
  by (simp add: sint_sbintrunc' signed_take_bit_int_eq_self)

lemma quot_rem_int: "quot_int a b * b + rem_int a b = a"
proof -
  have "quot_int a b * b + rem_int a b = sgn a * (\<bar>a\<bar> div b * b + \<bar>a\<bar> mod b)"
    by (simp only: quot_int_def rem_int_def distrib_left mult.assoc)
  also have "\<dots> = a" by (simp only: div_mult_mod_eq sgn_mult_abs)
  finally show ?thesis .
qed

lemma abs_rem_int: "0 < b \<Longrightarrow> \<bar>rem_int a b\<bar> < b"
  by (cases "a = 0") (simp_all add: rem_int_def abs_mult)

interpretation doc: durationpb durationpb_doc
proof unfold_locales
  fix d :: duration
  let ?q = "quot_int (sint d) 1000000000" and ?r = "rem_int (sint d) 1000000000"
  have d: "- (2 ^ 63) \<le> sint d" "sint d < 2 ^ 63"
    using sint_ge [of d] sint_lt [of d] by simp_all
  have "\<bar>?r\<bar> < 1000000000" by (rule abs_rem_int) simp
  then have r: "- 1000000000 < ?r" "?r < 1000000000" by linarith+
  have qr: "?q * 1000000000 + ?r = sint d" by (rule quot_rem_int)
  have q: "- (2 ^ 63) \<le> ?q" "?q < 2 ^ 63"
    using qr r d by simp_all
  have "AsDuration durationpb_doc (Some (New durationpb_doc d)) = clamp64 (?q * 1000000000 + ?r)"
    using r q by (simp add: durationpb_doc_def sint_of_int64 sint_of_int32)
  also have "\<dots> = d" using d by (simp add: qr clamp64_def)
  finally show "AsDuration durationpb_doc (Some (New durationpb_doc d)) = d" .
qed (simp add: durationpb_doc_def)

end
