(* ===== verification/GoFloat.thy ===== *)
theory GoFloat
  imports Durations "HOL-Library.Log_Nat"
begin

text \<open>
  The part of Go's floating point that the retry back-off uses: \<open>float32\<close> configuration values
  widened to \<open>float64\<close>, \<open>float64(x)\<close> of an \<open>int64\<close>, multiplication rounded to nearest even,
  and the conversion back to \<open>int64\<close>. A finite value is a mantissa and a binary exponent. The
  sign of a zero is not represented: no operation here can observe it. The language leaves
  the conversion of a NaN, an infinity or an out-of-range value to an integer to the
  implementation, so that conversion takes the implementation's choice as a parameter.
\<close>

section \<open>Values and comparisons\<close>

datatype gofloat = NaN | Inf bool | Fin int int \<comment> \<open>\<open>Inf True\<close> is minus infinity; \<open>Fin m e\<close> is \<open>m * 2^e\<close>\<close>

fun flt_le_0 :: "gofloat \<Rightarrow> bool" where
  "flt_le_0 NaN = False"
| "flt_le_0 (Inf neg) = neg"
| "flt_le_0 (Fin m e) = (m \<le> 0)"

fun flt_lt_0 :: "gofloat \<Rightarrow> bool" where
  "flt_lt_0 NaN = False"
| "flt_lt_0 (Inf neg) = neg"
| "flt_lt_0 (Fin m e) = (m < 0)"

section \<open>Rounding to 53 bits\<close>

text \<open>Overflow to infinity at \<open>2^1024\<close>, gradual underflow below \<open>2^-1022\<close>.\<close>

definition pack64 :: "int \<Rightarrow> int \<Rightarrow> gofloat" where
  "pack64 m e = (if m \<noteq> 0 \<and> bitlen \<bar>m\<bar> + e > 1024 then Inf (m < 0) else Fin m e)"

definition excess64 :: "int \<Rightarrow> int \<Rightarrow> int" where
  "excess64 m e = max (bitlen \<bar>m\<bar> - 53) (- 1074 - e)"

definition round_half_even :: "nat \<Rightarrow> nat \<Rightarrow> nat" where
  "round_half_even a k =
     (let q = a div 2 ^ k; r = 2 * (a mod 2 ^ k)
      in if r > 2 ^ k \<or> (r = 2 ^ k \<and> odd q) then q + 1 else q)"

definition round64 :: "int \<Rightarrow> int \<Rightarrow> gofloat" where
  "round64 m e =
     (let k = excess64 m e
      in if k \<le> 0 then pack64 m e
         else pack64 (sgn m * int (round_half_even (nat \<bar>m\<bar>) (nat k))) (e + k))"

fun mul64 :: "gofloat \<Rightarrow> gofloat \<Rightarrow> gofloat" where
  "mul64 NaN y = NaN"
| "mul64 x NaN = NaN"
| "mul64 (Inf a) (Inf b) = Inf (a \<noteq> b)"
| "mul64 (Inf a) (Fin m e) = (if m = 0 then NaN else Inf (a \<noteq> (m < 0)))"
| "mul64 (Fin m e) (Inf b) = (if m = 0 then NaN else Inf ((m < 0) \<noteq> b))"
| "mul64 (Fin m e) (Fin m' e') = round64 (m * m') (e + e')"

definition float64_of_int64 :: "int64 \<Rightarrow> gofloat" where
  "float64_of_int64 d = round64 (sint d) 0"

definition trunc_fin :: "int \<Rightarrow> int \<Rightarrow> int" where
  "trunc_fin m e = (if 0 \<le> e then m * 2 ^ nat e else sgn m * (\<bar>m\<bar> div 2 ^ nat (- e)))"

definition in_int64 :: "int \<Rightarrow> bool" where
  "in_int64 n \<longleftrightarrow> - (2 ^ 63) \<le> n \<and> n < 2 ^ 63"

definition int64_of_float64 :: "(gofloat \<Rightarrow> int64) \<Rightarrow> gofloat \<Rightarrow> int64" where
  "int64_of_float64 impl x =
     (case x of
        Fin m e \<Rightarrow> if in_int64 (trunc_fin m e) then word_of_int (trunc_fin m e) else impl x
      | _ \<Rightarrow> impl x)"

section \<open>Exactness\<close>

text \<open>Integers of at most 53 bits are represented exactly, and products that stay within 53
  bits are exact.\<close>

lemma bitlen_le_53: "\<bar>m\<bar> < 2 ^ 53 \<Longrightarrow> bitlen \<bar>m\<bar> \<le> 53"
  by (simp add: bitlen_le_iff_power)

lemma round64_exact: "\<bar>m\<bar> < 2 ^ 53 \<Longrightarrow> 0 \<le> e \<Longrightarrow> e \<le> 900 \<Longrightarrow> round64 m e = Fin m e"
  using bitlen_le_53 [of m] by (simp add: round64_def excess64_def pack64_def)

lemma float64_of_int64_exact: "\<bar>sint d\<bar> < 2 ^ 53 \<Longrightarrow> float64_of_int64 d = Fin (sint d) 0"
  by (simp add: float64_of_int64_def round64_exact)

lemma int64_of_float64_int: "in_int64 n \<Longrightarrow> int64_of_float64 impl (Fin n 0) = word_of_int n"
  by (simp add: int64_of_float64_def trunc_fin_def)

text \<open>A whole-number factor scales a duration exactly while the product has 53 bits.\<close>

lemma scale_exact:
  assumes "\<bar>sint d\<bar> < 2 ^ 53" and "\<bar>sint d * k\<bar> < 2 ^ 53"
  shows "int64_of_float64 impl (mul64 (float64_of_int64 d) (Fin k 0)) = word_of_int (sint d * k)"
proof -
  have "in_int64 (sint d * k)"
    using assms(2) by (auto simp: in_int64_def)
  then show ?thesis
    using assms by (simp add: float64_of_int64_exact round64_exact int64_of_float64_int)
qed

section \<open>Bounds of rounding\<close>

text \<open>Rounding a non-negative value at most doubles it, so products of moderate size neither
  overflow nor leave the range of \<open>int64\<close>.\<close>

definition flt_val :: "int \<Rightarrow> int \<Rightarrow> real" where
  "flt_val m e = of_int m * 2 powi e"

lemma round_half_even_le: "round_half_even a k * 2 ^ k \<le> 2 * a"
proof -
  let ?q = "a div 2 ^ k" and ?r = "a mod 2 ^ k"
  have a: "a = ?q * 2 ^ k + ?r" by (rule div_mult_mod_eq [symmetric])
  show ?thesis
  proof (cases "2 ^ k \<le> 2 * ?r")
    case True
    have "round_half_even a k * 2 ^ k \<le> (?q + 1) * 2 ^ k"
      by (intro mult_right_mono) (simp_all add: round_half_even_def Let_def)
    also have "\<dots> = ?q * 2 ^ k + 2 ^ k" by simp
    finally show ?thesis using True a by linarith
  next
    case False
    then have "round_half_even a k = ?q" by (simp add: round_half_even_def Let_def)
    then have "round_half_even a k * 2 ^ k = ?q * 2 ^ k" by (simp only:)
    with a show ?thesis by linarith
  qed
qed

lemma bitlen_flt_val:
  assumes "0 < m" and "1024 < bitlen m + e"
  shows "2 powi 1024 \<le> flt_val m e"
proof -
  have "1 \<le> bitlen m" using assms(1) bitlen_ge_iff_power [of 1 m] by simp
  then have n: "(2::real) powi (bitlen m - 1) = real_of_int (2 ^ nat (bitlen m - 1))"
    by (simp add: power_int_def)
  have "(2::real) powi 1024 \<le> 2 powi (bitlen m - 1 + e)"
    using assms(2) by (intro power_int_increasing) auto
  also have "\<dots> = 2 powi (bitlen m - 1) * 2 powi e" by (intro power_int_add) simp
  also have "\<dots> \<le> of_int m * 2 powi e"
    using bitlen_bounds [OF assms(1)] unfolding n
    by (intro mult_right_mono of_int_le_iff [THEN iffD2]) auto
  finally show ?thesis by (simp only: flt_val_def)
qed

lemma pack64_finite: "0 \<le> m \<Longrightarrow> flt_val m e < 2 powi 1024 \<Longrightarrow> pack64 m e = Fin m e"
proof -
  assume "0 \<le> m" and "flt_val m e < 2 powi 1024"
  then have "\<not> (m \<noteq> 0 \<and> 1024 < bitlen m + e)"
    using bitlen_flt_val [of m e] by (auto simp only: not_less [symmetric] order.order_iff_strict)
  with \<open>0 \<le> m\<close> show ?thesis by (auto simp: pack64_def)
qed

lemma below_overflow: "x < 2 ^ 64 \<Longrightarrow> x < (2::real) powi 1024"
proof -
  assume "x < 2 ^ 64"
  also have "(2::real) ^ 64 = 2 powi 64" by (simp only: power_int_numeral)
  also have "\<dots> \<le> 2 powi 1024" by (intro power_int_increasing) simp_all
  finally show ?thesis .
qed

lemma round64_bound:
  assumes "0 \<le> m" and "2 * flt_val m e < 2 powi 1024"
  shows "\<exists>m' e'. round64 m e = Fin m' e' \<and> 0 \<le> m' \<and> flt_val m' e' \<le> 2 * flt_val m e"
proof -
  have pos: "0 \<le> flt_val m e" using assms(1) by (simp add: flt_val_def)
  show ?thesis
  proof (cases "excess64 m e \<le> 0")
    case True
    have "flt_val m e < 2 powi 1024" using pos assms(2) by linarith
    with assms(1) have "pack64 m e = Fin m e" by (intro pack64_finite)
    with True assms(1) pos show ?thesis by (simp add: round64_def)
  next
    case False
    let ?k = "excess64 m e"
    define m' where "m' = sgn m * int (round_half_even (nat m) (nat ?k))"
    have m': "0 \<le> m'" using assms(1) by (simp add: m'_def sgn_if)
    define q where "q = round_half_even (nat m) (nat ?k)"
    have "m' * 2 ^ nat ?k \<le> int q * 2 ^ nat ?k"
      using assms(1) by (intro mult_right_mono) (simp_all add: m'_def q_def sgn_if)
    also have "\<dots> = int (q * 2 ^ nat ?k)" by simp
    also have "\<dots> \<le> int (2 * nat m)" unfolding q_def of_nat_le_iff by (rule round_half_even_le)
    also have "\<dots> = 2 * m" using assms(1) by simp
    finally have "m' * 2 ^ nat ?k \<le> 2 * m" .
    then have "real_of_int (m' * 2 ^ nat ?k) \<le> real_of_int (2 * m)" by (simp only: of_int_le_iff)
    then have "real_of_int m' * 2 ^ nat ?k * 2 powi e \<le> real_of_int (2 * m) * 2 powi e"
      by (intro mult_right_mono) simp_all
    moreover have "(2::real) powi (e + ?k) = 2 ^ nat ?k * 2 powi e"
    proof -
      have "(2::real) powi ?k = 2 ^ nat ?k" using False by (simp add: power_int_def)
      then show ?thesis by (simp add: power_int_add)
    qed
    ultimately have le: "flt_val m' (e + ?k) \<le> 2 * flt_val m e"
      by (simp add: flt_val_def mult.assoc)
    then have "flt_val m' (e + ?k) < 2 powi 1024" using assms(2) by (rule le_less_trans)
    with m' have "pack64 m' (e + ?k) = Fin m' (e + ?k)" by (rule pack64_finite)
    with False assms(1) le m' show ?thesis by (simp add: round64_def Let_def m'_def)
  qed
qed

lemma trunc_fin_bounds:
  assumes "0 \<le> m"
  shows "0 \<le> trunc_fin m e" "real_of_int (trunc_fin m e) \<le> flt_val m e"
proof -
  show "0 \<le> trunc_fin m e" using assms by (simp add: trunc_fin_def sgn_if pos_imp_zdiv_nonneg_iff)
  show "real_of_int (trunc_fin m e) \<le> flt_val m e"
  proof (cases "0 \<le> e")
    case True
    then show ?thesis by (simp add: trunc_fin_def flt_val_def power_int_def)
  next
    case False
    have "trunc_fin m e = m div 2 ^ nat (- e)" using assms False by (simp add: trunc_fin_def sgn_if)
    moreover have "real_of_int (m div 2 ^ nat (- e)) \<le> real_of_int m / real_of_int (2 ^ nat (- e))"
      by (rule real_of_int_div4)
    ultimately show ?thesis using False by (simp add: flt_val_def power_int_def field_simps)
  qed
qed

lemma int64_of_float64_nonneg:
  assumes "0 \<le> m" and "flt_val m e < 2 ^ 63"
  shows "0 \<le> sint (int64_of_float64 impl (Fin m e)) \<and>
    int64_of_float64 impl (Fin m e) = word_of_int (trunc_fin m e)"
proof -
  have "real_of_int (trunc_fin m e) < 2 ^ 63" 
    using trunc_fin_bounds(2) [OF assms(1)] assms(2) by (rule le_less_trans)
  then have "real_of_int (trunc_fin m e) < real_of_int (2 ^ 63)" by simp
  then have "trunc_fin m e < 2 ^ 63" by (rule of_int_less_iff [THEN iffD1])
  with trunc_fin_bounds(1) [OF assms(1), of e]
  have t: "in_int64 (trunc_fin m e)" "0 \<le> trunc_fin m e" by (auto simp only: in_int64_def)
  then have "sint (word_of_int (trunc_fin m e) :: int64) = trunc_fin m e"
    unfolding in_int64_def by (intro sint_of_int64) auto
  with t show ?thesis by (simp only: int64_of_float64_def gofloat.case if_True)
qed

end
