(* ===== verification/Conf.thy ===== *)
theory Conf
  imports GoFloat
begin

text \<open>
  The configuration messages of \<open>conf/pulsar.pb.go\<close> as records, field by field, and the
  default configuration of \<open>defaultPulsarConfig\<close>. A pointer to a message is an \<open>option\<close>
  (\<open>None\<close> is nil), a repeated message field is a list of pointers, an \<open>int32\<close> keeps its width
  and a \<open>float32\<close> is a \<open>gofloat\<close>. The bookkeeping fields of the protobuf runtime (\<open>state\<close>,
  \<open>unknownFields\<close>, \<open>sizeCache\<close>) are left out. The field prefixes keep apart fields that share
  a name in different messages.
\<close>

section \<open>Messages\<close>

record OAuth2 =
  O_IssuerUrl :: string
  O_ClientId :: string
  O_ClientSecret :: string
  O_Audience :: string
  O_Scope :: string

record TLSAuth =
  TA_CertFile :: string
  TA_KeyFile :: string
  TA_CaFile :: string

record Auth =
  A_Type :: string
  A_Token :: string
  A_Oauth2 :: "OAuth2 option"
  A_TlsAuth :: "TLSAuth option"

record TLS =
  T_Enable :: bool
  T_AllowInsecureConnection :: bool
  T_TrustCertsFile :: string
  T_VerifyHostname :: bool

record Connection =
  CN_ConnectionTimeout :: "Duration option"
  CN_OperationTimeout :: "Duration option"
  CN_KeepAliveInterval :: "Duration option"
  CN_MaxConnectionsPerHost :: int32
  CN_ConnectionMaxLifetime :: "Duration option"
  CN_EnableConnectionPooling :: bool

record ProducerOptions =
  PO_ProducerName :: string
  PO_SendTimeout :: "Duration option"
  PO_MaxPendingMessages :: int32
  PO_MaxPendingMessagesAcrossPartitions :: int32
  PO_BlockIfQueueFull :: bool
  PO_BatchingEnabled :: bool
  PO_BatchingMaxPublishDelay :: "Duration option"
  PO_BatchingMaxMessages :: int32
  PO_BatchingMaxSize :: int32
  PO_CompressionType :: string
  PO_HashingScheme :: string
  PO_MessageRoutingMode :: string
  PO_EnableChunking :: bool
  PO_ChunkMaxSize :: int32

record Producer =
  P_Name :: string
  P_Enabled :: bool
  P_Topic :: string
  P_Options :: "ProducerOptions option"

record DeadLetterPolicy =
  D_MaxRedeliverCount :: int32
  D_DeadLetterTopic :: string
  D_InitialSubscriptionName :: string

record ConsumerOptions =
  CO_ConsumerName :: string
  CO_SubscriptionType :: string
  CO_SubscriptionInitialPosition :: string
  CO_SubscriptionMode :: string
  CO_ReceiverQueueSize :: int32
  CO_MaxTotalReceiverQueueSizeAcrossPartitions :: int32
  CO_ConsumerNamePrefix :: string
  CO_ReadCompacted :: bool
  CO_EnableRetryOnMessageFailure :: bool
  CO_DeadLetterPolicy :: "DeadLetterPolicy option"
  CO_RetryEnable :: bool
  CO_AckTimeout :: "Duration option"
  CO_NegativeAckDelay :: "Duration option"
  CO_PriorityLevel :: int32
  CO_CryptoFailureAction :: string
  CO_Properties :: "string go_map option"

record Consumer =
  C_Name :: string
  C_Enabled :: bool
  C_Topics :: "string list"
  C_SubscriptionName :: string
  C_Options :: "ConsumerOptions option"

record Retry =
  R_Enable :: bool
  R_MaxAttempts :: int32
  R_InitialDelay :: "Duration option"
  R_MaxDelay :: "Duration option"
  R_RetryDelayMultiplier :: gofloat
  R_JitterFactor :: gofloat

record Monitoring =
  M_EnableMetrics :: bool
  M_MetricsNamespace :: string
  M_EnableHealthCheck :: bool
  M_HealthCheckInterval :: "Duration option"
  M_EnableTracing :: bool

record Pulsar =
  ServiceUrl :: string
  AuthConf :: "Auth option"
  Tls :: "TLS option"
  ConnectionConf :: "Connection option"
  Producers :: "Producer option list"
  Consumers :: "Consumer option list"
  RetryConf :: "Retry option"
  MonitoringConf :: "Monitoring option"

section \<open>Zero values\<close>

text \<open>\<open>&conf.ProducerOptions{}\<close> and \<open>&conf.ConsumerOptions{}\<close>: every field is its zero value.\<close>

definition zero_ProducerOptions :: ProducerOptions where
  "zero_ProducerOptions =
     \<lparr>PO_ProducerName = '''', PO_SendTimeout = None, PO_MaxPendingMessages = 0,
      PO_MaxPendingMessagesAcrossPartitions = 0, PO_BlockIfQueueFull = False,
      PO_BatchingEnabled = False, PO_BatchingMaxPublishDelay = None,
      PO_BatchingMaxMessages = 0, PO_BatchingMaxSize = 0, PO_CompressionType = '''',
      PO_HashingScheme = '''', PO_MessageRoutingMode = '''', PO_EnableChunking = False,
      PO_ChunkMaxSize = 0\<rparr>"

definition zero_ConsumerOptions :: ConsumerOptions where
  "zero_ConsumerOptions =
     \<lparr>CO_ConsumerName = '''', CO_SubscriptionType = '''', CO_SubscriptionInitialPosition = '''',
      CO_SubscriptionMode = '''', CO_ReceiverQueueSize = 0,
      CO_MaxTotalReceiverQueueSizeAcrossPartitions = 0, CO_ConsumerNamePrefix = '''',
      CO_ReadCompacted = False, CO_EnableRetryOnMessageFailure = False,
      CO_DeadLetterPolicy = None, CO_RetryEnable = False, CO_AckTimeout = None,
      CO_NegativeAckDelay = None, CO_PriorityLevel = 0, CO_CryptoFailureAction = '''',
      CO_Properties = None\<rparr>"

section \<open>The default configuration\<close>

text \<open>The literal of \<open>defaultPulsarConfig\<close>, one definition per nested message.\<close>

definition default_Connection :: "durationpb_lib \<Rightarrow> Connection" where
  "default_Connection L =
     \<lparr>CN_ConnectionTimeout = Some (New L (30 * second)),
      CN_OperationTimeout = Some (New L (30 * second)),
      CN_KeepAliveInterval = Some (New L (30 * second)),
      CN_MaxConnectionsPerHost = 1,
      CN_ConnectionMaxLifetime = None,
      CN_EnableConnectionPooling = True\<rparr>"

definition default_Retry :: "durationpb_lib \<Rightarrow> Retry" where
  "default_Retry L =
     \<lparr>R_Enable = True,
      R_MaxAttempts = 3,
      R_InitialDelay = Some (New L (100 * millisecond)),
      R_MaxDelay = Some (New L (30 * second)),
      R_RetryDelayMultiplier = Fin 2 0,
      R_JitterFactor = Fin 13421773 (- 27)\<rparr>" \<comment> \<open>the \<open>float32\<close> nearest to 0.1\<close>

definition default_Monitoring :: "durationpb_lib \<Rightarrow> Monitoring" where
  "default_Monitoring L =
     \<lparr>M_EnableMetrics = True,
      M_MetricsNamespace = ''lynx_pulsar'',
      M_EnableHealthCheck = True,
      M_HealthCheckInterval = Some (New L (30 * second)),
      M_EnableTracing = False\<rparr>"

definition default_Producer :: "durationpb_lib \<Rightarrow> Producer" where
  "default_Producer L =
     \<lparr>P_Name = ''default-producer'',
      P_Enabled = True,
      P_Topic = ''default-topic'',
      P_Options = Some (zero_ProducerOptions
        \<lparr>PO_SendTimeout := Some (New L (30 * second)),
         PO_MaxPendingMessages := 1000,
         PO_BatchingEnabled := True,
         PO_BatchingMaxPublishDelay := Some (New L (10 * millisecond)),
         PO_BatchingMaxMessages := 1000,
         PO_CompressionType := ''none'',
         PO_HashingScheme := ''java_string_hash'',
         PO_MessageRoutingMode := ''round_robin''\<rparr>)\<rparr>"

definition default_Consumer :: "durationpb_lib \<Rightarrow> Consumer" where
  "default_Consumer L =
     \<lparr>C_Name = ''default-consumer'',
      C_Enabled = True,
      C_Topics = [''default-topic''],
      C_SubscriptionName = ''default-subscription'',
      C_Options = Some (zero_ConsumerOptions
        \<lparr>CO_SubscriptionType := ''exclusive'',
         CO_SubscriptionInitialPosition := ''latest'',
         CO_SubscriptionMode := ''durable'',
         CO_ReceiverQueueSize := 1000,
         CO_EnableRetryOnMessageFailure := True,
         CO_RetryEnable := True,
         CO_NegativeAckDelay := Some (New L (1 * minute)),
         CO_CryptoFailureAction := ''fail''\<rparr>)\<rparr>"

definition defaultPulsarConfig :: "durationpb_lib \<Rightarrow> Pulsar" where
  "defaultPulsarConfig L =
     \<lparr>ServiceUrl = ''pulsar://localhost:6650'',
      AuthConf = None,
      Tls = None,
      ConnectionConf = Some (default_Connection L),
      Producers = [Some (default_Producer L)],
      Consumers = [Some (default_Consumer L)],
      RetryConf = Some (default_Retry L),
      MonitoringConf = Some (default_Monitoring L)\<rparr>"

lemmas default_defs = defaultPulsarConfig_def default_Connection_def default_Retry_def
  default_Monitoring_def default_Producer_def default_Consumer_def
  zero_ProducerOptions_def zero_ConsumerOptions_def

section \<open>Protobuf messages in memory\<close>

text \<open>
  \<open>proto.Clone\<close> is a parameter of the functions that use it. Its documented contract is that
  it returns a deep copy, which for these immutable records is the message itself; \<open>None\<close> is a
  failed type assertion on its result.
\<close>

definition clonePulsarConfig :: "(Pulsar \<Rightarrow> Pulsar option) \<Rightarrow> Pulsar option \<Rightarrow> Pulsar option" where
  "clonePulsarConfig proto_clone cfg = (case cfg of None \<Rightarrow> None | Some c \<Rightarrow> proto_clone c)"

end
