(* ===== verification/NormalizeSpec.thy ===== *)
theory NormalizeSpec
  imports Normalize
begin

text \<open>
  Correctness of \<open>normalizePulsarConfig\<close> (theory \<open>Normalize\<close>): it accepts exactly the valid
  configurations, its result is normal, normal configurations are fixed points, the identity
  of every producer and consumer and the security sections survive, and a reported index is
  the first offending entry.
\<close>

text \<open>The defaults of the source are themselves usable.\<close>

interpretation dflt_url: defaulting blank "''pulsar://localhost:6650''"
  by unfold_locales (simp add: blank_def)

interpretation dflt_namespace: defaulting blank "''lynx_pulsar''"
  by unfold_locales (simp add: blank_def)

interpretation dflt_compression: defaulting blank "''none''"
  by unfold_locales (simp add: blank_def)

interpretation dflt_hashing: defaulting blank "''java_string_hash''"
  by unfold_locales (simp add: blank_def)

interpretation dflt_routing: defaulting blank "''round_robin''"
  by unfold_locales (simp add: blank_def)

interpretation dflt_subtype: defaulting blank "''exclusive''"
  by unfold_locales (simp add: blank_def)

interpretation dflt_position: defaulting blank "''latest''"
  by unfold_locales (simp add: blank_def)

interpretation dflt_mode: defaulting blank "''durable''"
  by unfold_locales (simp add: blank_def)

interpretation dflt_crypto: defaulting blank "''fail''"
  by unfold_locales (simp add: blank_def)

interpretation dflt_two: defaulting flt_le_0 "Fin 2 0"
  by unfold_locales simp

section \<open>Normal configurations\<close>

definition normal_Connection :: "durationpb_lib \<Rightarrow> Connection option \<Rightarrow> bool" where
  "normal_Connection L cn \<longleftrightarrow>
     (\<exists>c. cn = Some c \<and> \<not> unset_dur L (CN_ConnectionTimeout c) \<and>
       \<not> unset_dur L (CN_OperationTimeout c) \<and> \<not> unset_dur L (CN_KeepAliveInterval c) \<and>
       \<not> nonpos32 (CN_MaxConnectionsPerHost c))"

definition normal_Retry :: "durationpb_lib \<Rightarrow> Retry option \<Rightarrow> bool" where
  "normal_Retry L rt \<longleftrightarrow>
     (\<exists>r. rt = Some r \<and> \<not> nonpos32 (R_MaxAttempts r) \<and> \<not> unset_dur L (R_InitialDelay r) \<and>
       \<not> unset_dur L (R_MaxDelay r) \<and>
       sint (AsDuration L (R_InitialDelay r)) \<le> sint (AsDuration L (R_MaxDelay r)) \<and>
       \<not> flt_le_0 (R_RetryDelayMultiplier r) \<and> \<not> flt_lt_0 (R_JitterFactor r))"

definition normal_Monitoring :: "durationpb_lib \<Rightarrow> Monitoring option \<Rightarrow> bool" where
  "normal_Monitoring L mo \<longleftrightarrow>
     (\<exists>m. mo = Some m \<and> \<not> blank (M_MetricsNamespace m) \<and>
       \<not> unset_dur L (M_HealthCheckInterval m))"

definition normal_ProducerOptions :: "durationpb_lib \<Rightarrow> ProducerOptions \<Rightarrow> bool" where
  "normal_ProducerOptions L x \<longleftrightarrow>
     \<not> unset_dur L (PO_SendTimeout x) \<and> \<not> nonpos32 (PO_MaxPendingMessages x) \<and>
     \<not> unset_dur L (PO_BatchingMaxPublishDelay x) \<and> \<not> nonpos32 (PO_BatchingMaxMessages x) \<and>
     \<not> blank (PO_CompressionType x) \<and> \<not> blank (PO_HashingScheme x) \<and>
     \<not> blank (PO_MessageRoutingMode x)"

definition normal_ConsumerOptions :: "durationpb_lib \<Rightarrow> ConsumerOptions \<Rightarrow> bool" where
  "normal_ConsumerOptions L x \<longleftrightarrow>
     \<not> blank (CO_SubscriptionType x) \<and> \<not> blank (CO_SubscriptionInitialPosition x) \<and>
     \<not> blank (CO_SubscriptionMode x) \<and> \<not> nonpos32 (CO_ReceiverQueueSize x) \<and>
     \<not> unset_dur L (CO_NegativeAckDelay x) \<and> \<not> blank (CO_CryptoFailureAction x)"

definition normal_Producer :: "durationpb_lib \<Rightarrow> Producer option \<Rightarrow> bool" where
  "normal_Producer L po \<longleftrightarrow>
     valid_Producer po \<and>
     (\<exists>p x. po = Some p \<and> P_Options p = Some x \<and> normal_ProducerOptions L x)"

definition normal_Consumer :: "durationpb_lib \<Rightarrow> Consumer option \<Rightarrow> bool" where
  "normal_Consumer L co \<longleftrightarrow>
     valid_Consumer co \<and>
     (\<exists>c x. co = Some c \<and> C_Options c = Some x \<and> normal_ConsumerOptions L x)"

definition normal_config :: "durationpb_lib \<Rightarrow> Pulsar \<Rightarrow> bool" where
  "normal_config L c \<longleftrightarrow>
     ServiceUrl c \<noteq> '''' \<and> normal_Connection L (ConnectionConf c) \<and>
     normal_Retry L (RetryConf c) \<and> normal_Monitoring L (MonitoringConf c) \<and>
     (\<forall>p\<in>set (Producers c). normal_Producer L p) \<and>
     (\<forall>q\<in>set (Consumers c). normal_Consumer L q) \<and>
     valid_Auth (AuthConf c)"

lemmas normal_defs [conf_simps] = normal_Connection_def normal_Retry_def normal_Monitoring_def
  normal_ProducerOptions_def normal_ConsumerOptions_def normal_Producer_def normal_Consumer_def

section \<open>Acceptance\<close>

lemma check_Auth_valid [conf_simps]: "check_Auth au = None \<longleftrightarrow> valid_Auth au"
  by (auto simp: check_Auth_def valid_Auth_def split: option.splits)

lemma normalize_Retry_ok [conf_simps]: "is_ok (normalize_Retry L rt) \<longleftrightarrow> valid_Retry L rt"
  by (auto simp: normalize_Retry_def valid_Retry_def Let_def split: option.splits)

lemma normalize_Producer_ok [conf_simps]: "is_ok (normalize_Producer L i po) \<longleftrightarrow> valid_Producer po"
  by (auto simp: normalize_Producer_def valid_Producer_def split: option.splits)

lemma normalize_Consumer_ok [conf_simps]: "is_ok (normalize_Consumer L i co) \<longleftrightarrow> valid_Consumer co"
  by (auto simp: normalize_Consumer_def valid_Consumer_def split: option.splits)

lemma normalize_Producers_ok [conf_simps]:
  "is_ok (normalize_Producers L i ps) \<longleftrightarrow> (\<forall>p\<in>set ps. valid_Producer p)"
  unfolding normalize_Producers_def by (rule for_each_ok) (rule normalize_Producer_ok)

lemma normalize_Consumers_ok [conf_simps]:
  "is_ok (normalize_Consumers L i cs) \<longleftrightarrow> (\<forall>c\<in>set cs. valid_Consumer c)"
  unfolding normalize_Consumers_def by (rule for_each_ok) (rule normalize_Consumer_ok)

text \<open>The result, taken apart once for all proofs below.\<close>

lemma normalize_InrE:
  assumes "normalizePulsarConfig L (Some c) = Inr c'"
  obtains r ps cs where "normalize_Retry L (RetryConf c) = Inr r"
    and "normalize_Producers L 0 (Producers c) = Inr ps"
    and "normalize_Consumers L 0 (Consumers c) = Inr cs"
    and "valid_Auth (AuthConf c)"
    and "c' = c\<lparr>ServiceUrl := dflt_str ''pulsar://localhost:6650'' (ServiceUrl c),
           ConnectionConf := Some (normalize_Connection L (ConnectionConf c)),
           RetryConf := Some r,
           MonitoringConf := Some (normalize_Monitoring L (MonitoringConf c)),
           Producers := ps, Consumers := cs\<rparr>"
  using assms
  by (auto simp: normalizePulsarConfig_def Let_def bindE_Inr_iff check_Auth_valid
      split: option.splits)

lemma normalize_ok:
  "is_ok (normalizePulsarConfig L (Some c)) \<longleftrightarrow>
     is_ok (normalize_Retry L (RetryConf c)) \<and> is_ok (normalize_Producers L 0 (Producers c)) \<and>
     is_ok (normalize_Consumers L 0 (Consumers c)) \<and> valid_Auth (AuthConf c)"
  by (auto simp: normalizePulsarConfig_def Let_def is_ok_iff bindE_Inr_iff check_Auth_valid
      split: option.splits)

lemma normalize_accepts:
  "is_ok (normalizePulsarConfig L (Some c)) \<longleftrightarrow> valid_config L c"
  by (simp add: normalize_ok valid_config_def conf_simps)

text \<open>Claim C9: \<open>normalizePulsarConfig\<close> accepts a non-nil configuration exactly when it is valid:
  the retry delays are ordered and the jitter is not negative after defaulting, every
  producer and consumer entry is non-nil and, if enabled, has its required fields, and the
  selected authentication method has its credentials.\<close>

theorem normalize_accepts_valid:
  "is_ok (normalizePulsarConfig L (Some c)) \<longleftrightarrow> valid_config L c"
  by (rule normalize_accepts)

section \<open>The result is normal\<close>

context durationpb
begin

lemma normal_Connection_normalize: "normal_Connection L (Some (normalize_Connection L cn))"
  by (cases cn)
    (simp_all add: normal_Connection_def normalize_Connection_def default_Connection_def
       unset_dur_New dflt_dur_usable dflt_one.usable dflt_one.dflt_usable)

lemma normal_Monitoring_normalize: "normal_Monitoring L (Some (normalize_Monitoring L mo))"
  by (cases mo)
    (simp_all add: normal_Monitoring_def normalize_Monitoring_def default_Monitoring_def
       unset_dur_New dflt_dur_usable dflt_namespace.usable dflt_namespace.dflt_usable)

lemma normal_Retry_normalize:
  assumes "normalize_Retry L rt = Inr r"
  shows "normal_Retry L (Some r)"
proof (cases rt)
  case None
  with assms show ?thesis
    by (auto simp: normal_Retry_def normalize_Retry_def default_Retry_def unset_dur_New as_new
        dflt_three.dflt_usable)
next
  case (Some r0)
  with assms show ?thesis
    by (auto simp: normal_Retry_def normalize_Retry_def Let_def dflt_dur_usable dflt_three.usable dflt_two.usable split: if_splits)
qed

lemma normal_ProducerOptions_normalize:
  "normal_ProducerOptions L (normalize_ProducerOptions L po)"
  by (simp add: normal_ProducerOptions_def normalize_ProducerOptions_def Let_def
      dflt_dur_usable dflt_thousand.usable dflt_compression.usable
      dflt_hashing.usable dflt_routing.usable)

lemma normal_ConsumerOptions_normalize:
  "normal_ConsumerOptions L (normalize_ConsumerOptions L co)"
  by (simp add: normal_ConsumerOptions_def normalize_ConsumerOptions_def Let_def
      dflt_dur_usable dflt_thousand.usable dflt_subtype.usable dflt_position.usable
      dflt_mode.usable dflt_crypto.usable)

lemma normal_Producer_normalize: "normalize_Producer L i po = Inr po' \<Longrightarrow> normal_Producer L po'"
  by (auto simp: normalize_Producer_def normal_Producer_def valid_Producer_def
      normal_ProducerOptions_normalize split: option.splits if_splits)

lemma normal_Consumer_normalize: "normalize_Consumer L i co = Inr co' \<Longrightarrow> normal_Consumer L co'"
  by (auto simp: normalize_Consumer_def normal_Consumer_def valid_Consumer_def
      normal_ConsumerOptions_normalize split: option.splits if_splits)

lemma normal_Producers_normalize:
  "normalize_Producers L i ps = Inr ps' \<Longrightarrow> \<forall>p\<in>set ps'. normal_Producer L p"
  unfolding normalize_Producers_def
  by (drule for_each_Inr [where R = "\<lambda>_ y. normal_Producer L y"])
    (auto dest: normal_Producer_normalize simp: list_all2_conv_all_nth in_set_conv_nth)

lemma normal_Consumers_normalize:
  "normalize_Consumers L i cs = Inr cs' \<Longrightarrow> \<forall>c\<in>set cs'. normal_Consumer L c"
  unfolding normalize_Consumers_def
  by (drule for_each_Inr [where R = "\<lambda>_ y. normal_Consumer L y"])
    (auto dest: normal_Consumer_normalize simp: list_all2_conv_all_nth in_set_conv_nth)

lemma url_not_blank: "dflt_str ''pulsar://localhost:6650'' u \<noteq> ''''"
  by (metis blank_def dflt_url.usable)

lemma normalize_establishes:
  assumes "normalizePulsarConfig L (Some c) = Inr c'"
  shows "normal_config L c'"
  using assms
  by (elim normalize_InrE)
    (simp add: normal_config_def normal_Connection_normalize normal_Monitoring_normalize
      normal_Retry_normalize normal_Producers_normalize normal_Consumers_normalize
      url_not_blank)

end

text \<open>Claim C19: a configuration that \<open>normalizePulsarConfig\<close> returns is normal. The service URL is set
  and the sections for connection, retry and monitoring are present. Positive are: the
  connection, operation and keep-alive times and the connections per host; the retry attempts,
  both retry delays, of which the initial is at most the maximum, and the multiplier (or it is
  NaN), while the jitter is not negative; the probe interval; of every producer the send
  timeout, the queue length, the batching delay and the messages per batch; of every consumer
  the receiver queue and the redelivery delay. Every enumeration keyword of a producer or
  consumer and the metrics namespace are non-empty, every enabled entry has its required
  names, and the selected authentication method has its credentials. Nothing is promised of
  \<open>batching_max_size\<close>, \<open>chunk_max_size\<close> and \<open>max_redeliver_count\<close>, which are not validated.\<close>

theorem normalize_result_normal:
  assumes "durationpb L" and "normalizePulsarConfig L (Some c) = Inr c'"
  shows "normal_config L c'"
  using assms by (rule durationpb.normalize_establishes)

section \<open>Normal configurations are fixed points\<close>

lemma normalize_Connection_normal:
  "normal_Connection L (Some c) \<Longrightarrow> normalize_Connection L (Some c) = c"
  by (simp add: normal_Connection_def normalize_Connection_def or_default_keep)

lemma normalize_Monitoring_normal:
  "normal_Monitoring L (Some m) \<Longrightarrow> normalize_Monitoring L (Some m) = m"
  by (simp add: normal_Monitoring_def normalize_Monitoring_def or_default_keep)

lemma normalize_Retry_normal: "normal_Retry L (Some r) \<Longrightarrow> normalize_Retry L (Some r) = Inr r"
  by (simp add: normal_Retry_def normalize_Retry_def or_default_keep Let_def)

lemma normalize_ProducerOptions_normal:
  "normal_ProducerOptions L x \<Longrightarrow> normalize_ProducerOptions L (Some x) = x"
  by (simp add: normal_ProducerOptions_def normalize_ProducerOptions_def or_default_keep)

lemma normalize_ConsumerOptions_normal:
  "normal_ConsumerOptions L x \<Longrightarrow> normalize_ConsumerOptions L (Some x) = x"
  by (simp add: normal_ConsumerOptions_def normalize_ConsumerOptions_def or_default_keep)

lemma normalize_Producer_normal: "normal_Producer L po \<Longrightarrow> normalize_Producer L i po = Inr po"
  by (auto simp: normal_Producer_def valid_Producer_def normalize_Producer_def
      normalize_ProducerOptions_normal)

lemma normalize_Consumer_normal: "normal_Consumer L co \<Longrightarrow> normalize_Consumer L i co = Inr co"
  by (auto simp: normal_Consumer_def valid_Consumer_def normalize_Consumer_def
      normalize_ConsumerOptions_normal)

lemma normalize_normal:
  assumes "normal_config L c"
  shows "normalizePulsarConfig L (Some c) = Inr c"
proof -
  from assms obtain cn r m where secs: "ConnectionConf c = Some cn" "RetryConf c = Some r"
      "MonitoringConf c = Some m"
    by (auto simp: normal_config_def normal_Connection_def normal_Retry_def normal_Monitoring_def)
  have ps: "normalize_Producers L 0 (Producers c) = Inr (Producers c)"
    unfolding normalize_Producers_def using assms
    by (intro for_each_id normalize_Producer_normal) (auto simp: normal_config_def)
  have cs: "normalize_Consumers L 0 (Consumers c) = Inr (Consumers c)"
    unfolding normalize_Consumers_def using assms
    by (intro for_each_id normalize_Consumer_normal) (auto simp: normal_config_def)
  have url: "dflt_str ''pulsar://localhost:6650'' (ServiceUrl c) = ServiceUrl c"
    using assms by (simp add: normal_config_def or_default_keep blank_def)
  have "check_Auth (AuthConf c) = None"
    using assms by (simp add: normal_config_def check_Auth_valid)
  moreover have "normalize_Retry L (Some r) = Inr r" "normalize_Connection L (Some cn) = cn"
      "normalize_Monitoring L (Some m) = m"
    using assms secs by (simp_all add: normal_config_def normalize_Retry_normal
        normalize_Connection_normal normalize_Monitoring_normal)
  ultimately show ?thesis
    using secs by (simp add: normalizePulsarConfig_def ps cs url)
qed

context durationpb
begin

lemma normal_default: "normal_config L (defaultPulsarConfig L)"
  by (simp add: normal_config_def defaultPulsarConfig_def normal_Connection_def
      default_Connection_def normal_Retry_def default_Retry_def normal_Monitoring_def
      default_Monitoring_def normal_Producer_def valid_Producer_def default_Producer_def
      normal_ProducerOptions_def normal_Consumer_def valid_Consumer_def default_Consumer_def
      normal_ConsumerOptions_def valid_Auth_def unset_dur_New as_new nonpos32_def blank_def)

lemmas normalize_default = normalize_normal [OF normal_default]

lemma normalize_twice:
  "normalizePulsarConfig L (Some c) = Inr c' \<Longrightarrow> normalizePulsarConfig L (Some c') = Inr c'"
  by (intro normalize_normal normalize_establishes)

end

lemmas doc_default_normal = doc.normalize_default

theorem normalize_result_normal_witness:
  "normal_config durationpb_doc (defaultPulsarConfig durationpb_doc)"
  by (rule normalize_result_normal [OF doc.durationpb_axioms doc_default_normal])

text \<open>Claim C20: normalizing is idempotent: a returned configuration passes through
  \<open>normalizePulsarConfig\<close> again unchanged, so \<open>Configure\<close> with the plugin's own configuration
  changes nothing.\<close>

theorem normalize_idempotent:
  assumes "durationpb L" and "normalizePulsarConfig L (Some c) = Inr c'"
  shows "normalizePulsarConfig L (Some c') = Inr c'"
  using assms by (rule durationpb.normalize_twice)

text \<open>A configuration with every section missing, and what becomes of it.\<close>

definition sparse_config :: Pulsar where
  "sparse_config =
     \<lparr>ServiceUrl = '''', AuthConf = None, Tls = None, ConnectionConf = None,
      Producers = [Some \<lparr>P_Name = ''p'', P_Enabled = True, P_Topic = ''t'', P_Options = None\<rparr>],
      Consumers = [], RetryConf = None, MonitoringConf = None\<rparr>"

lemma sparse_accepted: "\<exists>c'. normalizePulsarConfig L (Some sparse_config) = Inr c'"
  using normalize_accepts [of L sparse_config]
  by (auto simp: is_ok_iff sparse_config_def valid_config_def valid_Retry_def valid_Producer_def
      valid_Auth_def)

theorem normalize_idempotent_witness:
  "\<exists>c'. normalizePulsarConfig durationpb_doc (Some sparse_config) = Inr c' \<and>
     normalizePulsarConfig durationpb_doc (Some c') = Inr c'"
  using sparse_accepted [of durationpb_doc] normalize_idempotent [OF doc.durationpb_axioms]
  by blast


section \<open>What normalization leaves alone\<close>

text \<open>The identity of a producer and of a consumer: what the operator wrote, defaults apart.\<close>

definition producer_identity :: "Producer option \<Rightarrow> (string \<times> bool \<times> string) option" where
  "producer_identity = map_option (\<lambda>p. (P_Name p, P_Enabled p, P_Topic p))"

definition consumer_identity ::
  "Consumer option \<Rightarrow> (string \<times> bool \<times> string list \<times> string) option" where
  "consumer_identity =
     map_option (\<lambda>c. (C_Name c, C_Enabled c, C_Topics c, C_SubscriptionName c))"

lemma list_all2_map_eq: "list_all2 (\<lambda>x y. f y = f x) xs ys \<Longrightarrow> map f ys = map f xs"
  by (induction rule: list_all2_induct) auto

lemma normalize_Producers_identity:
  assumes "normalize_Producers L i ps = Inr ps'"
  shows "map producer_identity ps' = map producer_identity ps"
proof (rule list_all2_map_eq)
  show "list_all2 (\<lambda>p p'. producer_identity p' = producer_identity p) ps ps'"
    using assms unfolding normalize_Producers_def
    by (rule for_each_Inr)
      (auto simp: normalize_Producer_def producer_identity_def split: option.splits if_splits)
qed

lemma normalize_Consumers_identity:
  assumes "normalize_Consumers L i cs = Inr cs'"
  shows "map consumer_identity cs' = map consumer_identity cs"
proof (rule list_all2_map_eq)
  show "list_all2 (\<lambda>c c'. consumer_identity c' = consumer_identity c) cs cs'"
    using assms unfolding normalize_Consumers_def
    by (rule for_each_Inr)
      (auto simp: normalize_Consumer_def consumer_identity_def split: option.splits if_splits)
qed

text \<open>Normalization changes no authentication or TLS setting, and neither adds,
  drops, reorders, renames, enables nor redirects a producer or a consumer.\<close>

theorem normalize_preserves_identity:
  assumes "normalizePulsarConfig L (Some c) = Inr c'"
  shows "AuthConf c' = AuthConf c \<and> Tls c' = Tls c \<and>
    map producer_identity (Producers c') = map producer_identity (Producers c) \<and>
    map consumer_identity (Consumers c') = map consumer_identity (Consumers c)"
  using assms
  by (elim normalize_InrE) (simp add: normalize_Producers_identity normalize_Consumers_identity)

theorem normalize_preserves_identity_witness:
  "\<exists>c'. normalizePulsarConfig durationpb_doc (Some sparse_config) = Inr c' \<and>
     map producer_identity (Producers c') = [Some (''p'', True, ''t'')]"
proof -
  obtain c' where c': "normalizePulsarConfig durationpb_doc (Some sparse_config) = Inr c'"
    using sparse_accepted by blast
  from normalize_preserves_identity [OF c'] c' show ?thesis
    by (auto simp: sparse_config_def producer_identity_def)
qed

text \<open>The error that names an entry.\<close>

definition producer_error :: "config_error \<Rightarrow> nat option" where
  "producer_error e =
     (case e of ProducerNil i \<Rightarrow> Some i | ProducerNameRequired i \<Rightarrow> Some i
      | ProducerTopicRequired i \<Rightarrow> Some i | _ \<Rightarrow> None)"

lemma normalize_Producer_error: "normalize_Producer L i p = Inl e \<Longrightarrow> producer_error e = Some i"
  by (auto simp: normalize_Producer_def producer_error_def split: option.splits if_splits)

lemma normalize_Consumer_error: "normalize_Consumer L i c = Inl e \<Longrightarrow> producer_error e = None"
  by (auto simp: normalize_Consumer_def producer_error_def split: option.splits if_splits)

lemma normalize_Retry_error: "normalize_Retry L r = Inl e \<Longrightarrow> producer_error e = None"
  by (auto simp: normalize_Retry_def producer_error_def Let_def split: option.splits if_splits)

lemma check_Auth_error: "check_Auth a = Some e \<Longrightarrow> producer_error e = None"
  by (auto simp: check_Auth_def producer_error_def split: option.splits if_splits)

lemma normalize_Producers_error:
  assumes "normalize_Producers L 0 ps = Inl e"
  shows "\<exists>k < length ps. producer_error e = Some k \<and> \<not> valid_Producer (ps ! k) \<and>
    (\<forall>j<k. valid_Producer (ps ! j))"
proof -
  from for_each_first_error [OF assms [unfolded normalize_Producers_def]]
  obtain k where k: "k < length ps" "normalize_Producer L k (ps ! k) = Inl e"
    "\<forall>j<k. is_ok (normalize_Producer L j (ps ! j))" by auto
  from k(2) have "\<not> valid_Producer (ps ! k)"
    by (metis is_ok_simps(1) normalize_Producer_ok)
  with k show ?thesis
    by (auto simp: normalize_Producer_error normalize_Producer_ok)
qed

text \<open>Claim C28: when the reported error names the producer entry \<open>i\<close>, that entry is in range and
  invalid and every entry before it is valid.\<close>

theorem normalize_reports_first_producer:
  assumes "normalizePulsarConfig L (Some c) = Inl e" and "producer_error e = Some i"
  shows "i < length (Producers c) \<and> \<not> valid_Producer (Producers c ! i) \<and>
    (\<forall>j<i. valid_Producer (Producers c ! j))"
proof -
  from assms have "normalize_Producers L 0 (Producers c) = Inl e"
    by (auto simp: normalizePulsarConfig_def Let_def bindE_Inl_iff normalize_Consumers_def
        dest: normalize_Retry_error check_Auth_error normalize_Consumer_error
        dest!: for_each_first_error split: option.splits) (drule check_Auth_error, simp)
  from normalize_Producers_error [OF this] assms(2) show ?thesis by auto
qed

theorem normalize_reports_first_producer_witness:
  "normalizePulsarConfig durationpb_doc
     (Some (sparse_config\<lparr>Producers := Producers sparse_config @ [None]\<rparr>)) = Inl (ProducerNil 1) \<and>
   \<not> valid_Producer (Producers (sparse_config\<lparr>Producers := Producers sparse_config @ [None]\<rparr>) ! 1)"
proof -
  let ?c = "sparse_config\<lparr>Producers := Producers sparse_config @ [None]\<rparr>"
  have e: "normalizePulsarConfig durationpb_doc (Some ?c) = Inl (ProducerNil 1)"
    by (simp add: sparse_config_def normalizePulsarConfig_def normalize_Retry_def
        normalize_Producers_def normalize_Producer_def)
  with normalize_reports_first_producer [OF e, of 1] show ?thesis
    by (simp add: producer_error_def)
qed


end
