(* ===== verification/Options.thy ===== *)
theory Options
  imports NormalizeSpec
begin

text \<open>
  The translation of a configuration into the option structures of \<open>pulsar-client-go\<close>:
  \<open>buildClientOptions\<close>, the option half of \<open>createProducer\<close> and \<open>createConsumer\<close>, and the five
  string parsers of \<open>pulsar.go\<close>. The library's types are recorded by the constants and fields
  the plugin uses; a field of an enumeration type that the plugin leaves alone is \<open>None\<close> (its
  zero value belongs to the library). The locale \<open>enum_parser\<close> is the contract the five parsers
  share.
\<close>

section \<open>Enumerations and their parsers\<close>

datatype SubscriptionType = Exclusive | Shared | Failover | KeyShared
datatype SubscriptionMode = Durable | NonDurable
datatype CompressionType = NoCompression | LZ4 | ZLib | ZSTD | SNAPPY
datatype HashingScheme = JavaStringHash | Murmur3_32Hash
datatype SubscriptionInitialPosition = SubscriptionPositionEarliest | SubscriptionPositionLatest

definition parseSubscriptionType :: "string \<Rightarrow> SubscriptionType" where
  "parseSubscriptionType s =
     (if s = ''exclusive'' then Exclusive
      else if s = ''shared'' then Shared
      else if s = ''failover'' then Failover
      else if s = ''key_shared'' then KeyShared
      else Exclusive)"

definition parseSubscriptionMode :: "string \<Rightarrow> SubscriptionMode" where
  "parseSubscriptionMode s =
     (if s = ''durable'' then Durable
      else if s = ''non_durable'' then NonDurable
      else Durable)"

definition parseCompressionType :: "string \<Rightarrow> CompressionType" where
  "parseCompressionType s =
     (if s = ''none'' then NoCompression
      else if s = ''lz4'' then LZ4
      else if s = ''zlib'' then ZLib
      else if s = ''zstd'' then ZSTD
      else if s = ''snappy'' then SNAPPY
      else NoCompression)"

definition parseHashingScheme :: "string \<Rightarrow> HashingScheme" where
  "parseHashingScheme s =
     (if s = ''java_string_hash'' then JavaStringHash
      else if s = ''murmur3_32hash'' then Murmur3_32Hash
      else JavaStringHash)"

definition parseSubscriptionInitialPosition :: "string \<Rightarrow> SubscriptionInitialPosition" where
  "parseSubscriptionInitialPosition s =
     (if s = ''earliest'' then SubscriptionPositionEarliest
      else if s = ''latest'' then SubscriptionPositionLatest
      else SubscriptionPositionLatest)"

text \<open>
  The contract of a parser: it decides a table of keywords, one for each value, and
  everything else is read as the default. \<open>keyword_of\<close> is the inverse of the table.
\<close>

definition keyword_of :: "(string \<times> 'v) list \<Rightarrow> 'v \<Rightarrow> string" where
  "keyword_of tab v = (case List.find (\<lambda>kv. snd kv = v) tab of Some kv \<Rightarrow> fst kv | None \<Rightarrow> '''')"

locale enum_parser =
  fixes parse :: "string \<Rightarrow> 'v" and tab :: "(string \<times> 'v) list" and dflt :: 'v
  assumes parse_tab: "parse s = (case map_of tab s of Some v \<Rightarrow> v | None \<Rightarrow> dflt)"
    and keys_distinct: "distinct (map fst tab)"
    and total: "v \<in> snd ` set tab"
begin

lemma find_keyword: "\<exists>k. List.find (\<lambda>kv. snd kv = v) tab = Some (k, v)"
proof -
  obtain kv where "kv \<in> set tab" "snd kv = v" using total [of v] by auto
  then have "List.find (\<lambda>kv. snd kv = v) tab \<noteq> None" unfolding find_None_iff by blast
  then obtain kv' where f: "List.find (\<lambda>kv. snd kv = v) tab = Some kv'" by auto
  then have "snd kv' = v" by (auto simp: find_Some_iff)
  with f show ?thesis by (metis prod.collapse)
qed

lemma roundtrip: "parse (keyword_of tab v) = v"
proof -
  obtain k where k: "List.find (\<lambda>kv. snd kv = v) tab = Some (k, v)" using find_keyword by blast
  then have "(k, v) \<in> set tab" by (auto simp: find_Some_iff in_set_conv_nth)
  then have "map_of tab k = Some v" using keys_distinct by simp
  with k show ?thesis by (simp add: keyword_of_def parse_tab)
qed

lemma unknown: "s \<notin> fst ` set tab \<Longrightarrow> parse s = dflt"
  by (simp add: parse_tab map_of_eq_None_iff [THEN iffD2])

lemma not_default_keyword: "parse s \<noteq> dflt \<Longrightarrow> (s, parse s) \<in> set tab"
  by (auto simp: parse_tab split: option.splits dest: map_of_SomeD)

lemma parse_cases: "parse s = dflt \<or> s \<in> fst ` set tab"
  using unknown by blast

end

definition subscription_types :: "(string \<times> SubscriptionType) list" where
  "subscription_types = [(''exclusive'', Exclusive), (''shared'', Shared),
     (''failover'', Failover), (''key_shared'', KeyShared)]"

definition subscription_modes :: "(string \<times> SubscriptionMode) list" where
  "subscription_modes = [(''durable'', Durable), (''non_durable'', NonDurable)]"

definition compression_types :: "(string \<times> CompressionType) list" where
  "compression_types = [(''none'', NoCompression), (''lz4'', LZ4), (''zlib'', ZLib),
     (''zstd'', ZSTD), (''snappy'', SNAPPY)]"

definition hashing_schemes :: "(string \<times> HashingScheme) list" where
  "hashing_schemes = [(''java_string_hash'', JavaStringHash), (''murmur3_32hash'', Murmur3_32Hash)]"

definition initial_positions :: "(string \<times> SubscriptionInitialPosition) list" where
  "initial_positions = [(''earliest'', SubscriptionPositionEarliest),
     (''latest'', SubscriptionPositionLatest)]"

interpretation sub_type: enum_parser parseSubscriptionType subscription_types Exclusive
proof unfold_locales
  show "v \<in> snd ` set subscription_types" for v
    by (cases v) (simp_all add: subscription_types_def)
qed (simp_all add: parseSubscriptionType_def subscription_types_def)

interpretation sub_mode: enum_parser parseSubscriptionMode subscription_modes Durable
proof unfold_locales
  show "v \<in> snd ` set subscription_modes" for v
    by (cases v) (simp_all add: subscription_modes_def)
qed (simp_all add: parseSubscriptionMode_def subscription_modes_def)

interpretation compression: enum_parser parseCompressionType compression_types NoCompression
proof unfold_locales
  show "v \<in> snd ` set compression_types" for v
    by (cases v) (simp_all add: compression_types_def)
qed (simp_all add: parseCompressionType_def compression_types_def)

interpretation hashing: enum_parser parseHashingScheme hashing_schemes JavaStringHash
proof unfold_locales
  show "v \<in> snd ` set hashing_schemes" for v
    by (cases v) (simp_all add: hashing_schemes_def)
qed (simp_all add: parseHashingScheme_def hashing_schemes_def)

interpretation position: enum_parser parseSubscriptionInitialPosition initial_positions
  SubscriptionPositionLatest
proof unfold_locales
  show "v \<in> snd ` set initial_positions" for v
    by (cases v) (simp_all add: initial_positions_def)
qed (simp_all add: parseSubscriptionInitialPosition_def initial_positions_def)

section \<open>Client options\<close>

text \<open>\<open>pulsar.NewAuthenticationToken\<close>, \<open>NewAuthenticationOAuth2\<close> and \<open>NewAuthenticationTLS\<close> are
  third-party code, so they are parameters, the fields of a record. Each returns a value of the
  interface \<open>Authentication\<close>, an opaque object that may be nil.\<close>

type_synonym authentication = nat

record auth_lib =
  NewAuthenticationToken :: "string \<Rightarrow> authentication option"
  NewAuthenticationOAuth2 :: "string go_map \<Rightarrow> authentication option"
  NewAuthenticationTLS :: "string \<Rightarrow> string \<Rightarrow> authentication option"

text \<open>An instance for the concrete runs, which makes no authentication of OAuth2 parameters.\<close>

definition no_oauth2_lib :: auth_lib where
  "no_oauth2_lib = \<lparr>NewAuthenticationToken = (\<lambda>_. Some 1), NewAuthenticationOAuth2 = (\<lambda>_. None),
     NewAuthenticationTLS = (\<lambda>_ _. Some 3)\<rparr>"

record ClientOptions =
  URL :: string
  ConnectionTimeout :: duration
  OperationTimeout :: duration
  KeepAliveInterval :: duration
  MaxConnectionsPerBroker :: int64
  TLSAllowInsecureConnection :: bool
  TLSTrustCertsFilePath :: string
  TLSValidateHostname :: bool
  Authentication :: "authentication option"

definition client_connection :: "durationpb_lib \<Rightarrow> Connection option \<Rightarrow> ClientOptions \<Rightarrow> ClientOptions" where
  "client_connection L cn opts =
     (case cn of
        None \<Rightarrow> opts
      | Some c \<Rightarrow> opts\<lparr>
          ConnectionTimeout := AsDuration L (CN_ConnectionTimeout c),
          OperationTimeout := AsDuration L (CN_OperationTimeout c),
          KeepAliveInterval := AsDuration L (CN_KeepAliveInterval c),
          MaxConnectionsPerBroker := int_of_int32 (CN_MaxConnectionsPerHost c)\<rparr>)"

definition client_tls :: "TLS option \<Rightarrow> ClientOptions \<Rightarrow> ClientOptions" where
  "client_tls tls opts =
     (case tls of
        None \<Rightarrow> opts
      | Some t \<Rightarrow>
          if T_Enable t then
            let opts1 = opts\<lparr>TLSAllowInsecureConnection := T_AllowInsecureConnection t\<rparr>;
                opts2 = (if T_TrustCertsFile t \<noteq> ''''
                         then opts1\<lparr>TLSTrustCertsFilePath := T_TrustCertsFile t\<rparr> else opts1)
            in opts2\<lparr>TLSValidateHostname := T_VerifyHostname t\<rparr>
          else opts)"

definition oauth2_params :: "OAuth2 \<Rightarrow> string go_map" where
  "oauth2_params oa =
     [(''issuerEndpoint'', O_IssuerUrl oa), (''clientId'', O_ClientId oa),
      (''clientSecret'', O_ClientSecret oa), (''audience'', O_Audience oa),
      (''scope'', O_Scope oa)]"

definition client_auth :: "auth_lib \<Rightarrow> Auth option \<Rightarrow> ClientOptions \<Rightarrow> ClientOptions" where
  "client_auth N au opts =
     (case au of
        None \<Rightarrow> opts
      | Some a \<Rightarrow>
          if A_Type a = ''token'' then
            (if A_Token a \<noteq> '''' then opts\<lparr>Authentication := NewAuthenticationToken N (A_Token a)\<rparr>
             else opts)
          else if A_Type a = ''oauth2'' then
            (case A_Oauth2 a of
               None \<Rightarrow> opts
             | Some oa \<Rightarrow>
                 opts\<lparr>Authentication := NewAuthenticationOAuth2 N (oauth2_params oa)\<rparr>)
          else if A_Type a = ''tls'' then
            (case A_TlsAuth a of
               None \<Rightarrow> opts
             | Some t \<Rightarrow>
                 opts\<lparr>Authentication := NewAuthenticationTLS N (TA_CertFile t) (TA_KeyFile t)\<rparr>)
          else opts)"

definition buildClientOptions :: "auth_lib \<Rightarrow> durationpb_lib \<Rightarrow> Pulsar \<Rightarrow> ClientOptions" where
  "buildClientOptions N L cfg =
     (let options = \<lparr>URL = ServiceUrl cfg, ConnectionTimeout = 0, OperationTimeout = 0,
            KeepAliveInterval = 0, MaxConnectionsPerBroker = 0,
            TLSAllowInsecureConnection = False, TLSTrustCertsFilePath = '''',
            TLSValidateHostname = False, Authentication = None\<rparr>;
          options1 = client_connection L (ConnectionConf cfg) options;
          options2 = client_tls (Tls cfg) options1
      in client_auth N (AuthConf cfg) options2)"

section \<open>Producer options\<close>

record PulsarProducerOptions =
  PP_Topic :: string
  PP_Name :: string
  PP_SendTimeout :: duration
  PP_MaxPendingMessages :: int64
  PP_BatchingMaxPublishDelay :: duration
  PP_BatchingMaxMessages :: uint64
  PP_BatchingMaxSize :: uint64
  PP_EnableChunking :: bool
  PP_ChunkMaxMessageSize :: uint64
  PP_CompressionType :: "CompressionType option"
  PP_HashingScheme :: "HashingScheme option"

text \<open>The statements of \<open>createProducer\<close> before the client is used. Each is a guarded assignment
  \<open>if c { options.F = v }\<close> to a field of its own of a structure that starts at its zero value,
  so the field \<open>F\<close> is \<open>v\<close> under the guard and zero otherwise.\<close>

definition producer_options :: "durationpb_lib \<Rightarrow> Producer \<Rightarrow> PulsarProducerOptions" where
  "producer_options L cfg =
     (case P_Options cfg of
        None \<Rightarrow>
          \<lparr>PP_Topic = P_Topic cfg, PP_Name = '''', PP_SendTimeout = 0,
           PP_MaxPendingMessages = 0, PP_BatchingMaxPublishDelay = 0,
           PP_BatchingMaxMessages = 0, PP_BatchingMaxSize = 0, PP_EnableChunking = False,
           PP_ChunkMaxMessageSize = 0, PP_CompressionType = None, PP_HashingScheme = None\<rparr>
      | Some x \<Rightarrow>
          \<lparr>PP_Topic = P_Topic cfg,
           PP_Name = (if PO_ProducerName x \<noteq> '''' then PO_ProducerName x else ''''),
           PP_SendTimeout =
             (if PO_SendTimeout x \<noteq> None then AsDuration L (PO_SendTimeout x) else 0),
           PP_MaxPendingMessages =
             (if 0 < sint (PO_MaxPendingMessages x)
              then int_of_int32 (PO_MaxPendingMessages x) else 0),
           PP_BatchingMaxPublishDelay =
             (if PO_BatchingEnabled x \<and> PO_BatchingMaxPublishDelay x \<noteq> None
              then AsDuration L (PO_BatchingMaxPublishDelay x) else 0),
           PP_BatchingMaxMessages =
             (if PO_BatchingEnabled x then uint_of_int32 (PO_BatchingMaxMessages x) else 0),
           PP_BatchingMaxSize =
             (if PO_BatchingEnabled x then uint_of_int32 (PO_BatchingMaxSize x) else 0),
           PP_EnableChunking = (if PO_EnableChunking x then True else False),
           PP_ChunkMaxMessageSize =
             (if PO_EnableChunking x then uint_of_int32 (PO_ChunkMaxSize x) else 0),
           PP_CompressionType =
             (if PO_CompressionType x \<noteq> ''''
              then Some (parseCompressionType (PO_CompressionType x)) else None),
           PP_HashingScheme =
             (if PO_HashingScheme x \<noteq> ''''
              then Some (parseHashingScheme (PO_HashingScheme x)) else None)\<rparr>)"

section \<open>Consumer options\<close>

record DLQPolicy =
  DLQ_MaxDeliveries :: uint32
  DLQ_DeadLetterTopic :: string
  DLQ_InitialSubscriptionName :: string

record PulsarConsumerOptions =
  PC_Topics :: "string list"
  PC_TopicsPattern :: string
  PC_SubscriptionName :: string
  PC_Name :: string
  PC_Type :: "SubscriptionType option"
  PC_SubscriptionInitialPosition :: "SubscriptionInitialPosition option"
  PC_SubscriptionMode :: "SubscriptionMode option"
  PC_ReceiverQueueSize :: int64
  PC_NackRedeliveryDelay :: duration
  PC_ReadCompacted :: bool
  PC_RetryEnable :: bool
  PC_DLQ :: "DLQPolicy option"
  PC_Properties :: "string go_map option"

definition zero_PulsarConsumerOptions :: PulsarConsumerOptions where
  "zero_PulsarConsumerOptions =
     \<lparr>PC_Topics = [], PC_TopicsPattern = '''', PC_SubscriptionName = '''', PC_Name = '''',
      PC_Type = None, PC_SubscriptionInitialPosition = None, PC_SubscriptionMode = None,
      PC_ReceiverQueueSize = 0, PC_NackRedeliveryDelay = 0, PC_ReadCompacted = False,
      PC_RetryEnable = False, PC_DLQ = None, PC_Properties = None\<rparr>"

definition consumer_options :: "durationpb_lib \<Rightarrow> Consumer \<Rightarrow> PulsarConsumerOptions" where
  "consumer_options L cfg =
     (case C_Options cfg of
        None \<Rightarrow> zero_PulsarConsumerOptions
          \<lparr>PC_Topics := C_Topics cfg, PC_SubscriptionName := C_SubscriptionName cfg\<rparr>
      | Some x \<Rightarrow>
          \<lparr>PC_Topics = C_Topics cfg,
           PC_TopicsPattern = '''',
           PC_SubscriptionName = C_SubscriptionName cfg,
           PC_Name = (if CO_ConsumerName x \<noteq> '''' then CO_ConsumerName x else ''''),
           PC_Type =
             (if CO_SubscriptionType x \<noteq> ''''
              then Some (parseSubscriptionType (CO_SubscriptionType x)) else None),
           PC_SubscriptionInitialPosition =
             (if CO_SubscriptionInitialPosition x \<noteq> ''''
              then Some (parseSubscriptionInitialPosition (CO_SubscriptionInitialPosition x))
              else None),
           PC_SubscriptionMode =
             (if CO_SubscriptionMode x \<noteq> ''''
              then Some (parseSubscriptionMode (CO_SubscriptionMode x)) else None),
           PC_ReceiverQueueSize =
             (if 0 < sint (CO_ReceiverQueueSize x)
              then int_of_int32 (CO_ReceiverQueueSize x) else 0),
           PC_NackRedeliveryDelay =
             (if CO_NegativeAckDelay x \<noteq> None then AsDuration L (CO_NegativeAckDelay x) else 0),
           PC_ReadCompacted = (if CO_ReadCompacted x then True else False),
           PC_RetryEnable =
             (if CO_RetryEnable x \<or> CO_EnableRetryOnMessageFailure x then True else False),
           PC_DLQ =
             (case CO_DeadLetterPolicy x of
                None \<Rightarrow> None
              | Some dlp \<Rightarrow> Some
                  \<lparr>DLQ_MaxDeliveries = uint32_of_int32 (D_MaxRedeliverCount dlp),
                   DLQ_DeadLetterTopic = D_DeadLetterTopic dlp,
                   DLQ_InitialSubscriptionName = D_InitialSubscriptionName dlp\<rparr>),
           PC_Properties = (if CO_Properties x \<noteq> None then CO_Properties x else None)\<rparr>)"

end
