(* ===== verification/OptionsSpec.thy ===== *)
theory OptionsSpec
  imports Options
begin

text \<open>
  What the option structures of theory \<open>Options\<close> promise once the configuration has been
  normalized: no authentication setting is dropped, every validated limit of an
  enabled feature is positive, every enumeration is set, and the conversions of the remaining \<open>int32\<close> settings to
  unsigned types, which nothing validates.
\<close>

section \<open>Parsers\<close>

text \<open>Claim C25: each of the five parsers reads the keyword of a value back as that value, so
  every value of the library's enumerations can be configured.\<close>

theorem parsers_roundtrip:
  "parseSubscriptionType (keyword_of subscription_types t) = t \<and>
   parseSubscriptionMode (keyword_of subscription_modes m) = m \<and>
   parseCompressionType (keyword_of compression_types c) = c \<and>
   parseHashingScheme (keyword_of hashing_schemes h) = h \<and>
   parseSubscriptionInitialPosition (keyword_of initial_positions p) = p"
  by (intro conjI sub_type.roundtrip sub_mode.roundtrip compression.roundtrip hashing.roundtrip
      position.roundtrip)

text \<open>A string that is no keyword is read as the default of its enumeration by each
  parser, without an error; \<open>consistent_hashing\<close>, which the comments of the configuration
  schema list as a hashing scheme, is such a string.\<close>

theorem parsers_default_silently:
  "(s \<notin> fst ` set subscription_types \<longrightarrow> parseSubscriptionType s = Exclusive) \<and>
   (s \<notin> fst ` set subscription_modes \<longrightarrow> parseSubscriptionMode s = Durable) \<and>
   (s \<notin> fst ` set compression_types \<longrightarrow> parseCompressionType s = NoCompression) \<and>
   (s \<notin> fst ` set hashing_schemes \<longrightarrow> parseHashingScheme s = JavaStringHash) \<and>
   (s \<notin> fst ` set initial_positions \<longrightarrow>
      parseSubscriptionInitialPosition s = SubscriptionPositionLatest) \<and>
   ''consistent_hashing'' \<notin> fst ` set hashing_schemes"
  by (intro conjI impI sub_type.unknown sub_mode.unknown compression.unknown hashing.unknown
      position.unknown) (simp_all add: hashing_schemes_def)

theorem parsers_default_silently_witness:
  "parseHashingScheme ''consistent_hashing'' = JavaStringHash \<and>
   parseCompressionType ''gzip'' = NoCompression"
  using parsers_default_silently [of "''consistent_hashing''"] parsers_default_silently [of "''gzip''"]
  by (simp add: compression_types_def)

section \<open>Client options\<close>

lemma client_tls_Authentication [conf_simps]:
  "Authentication (client_tls t opts) = Authentication opts"
  by (auto simp: client_tls_def Let_def split: option.splits)

lemma client_connection_Authentication [conf_simps]:
  "Authentication (client_connection L cn opts) = Authentication opts"
  by (auto simp: client_connection_def split: option.splits)

text \<open>The configured authentication \<open>au\<close> gives the client the value \<open>v\<close>: nothing without a method,
  and otherwise what the library's constructor for the method makes of the credentials, of
  which the required ones are there.\<close>

definition authenticates :: "auth_lib \<Rightarrow> Auth option \<Rightarrow> authentication option \<Rightarrow> bool" where
  "authenticates N au v \<longleftrightarrow>
     (case au of
        None \<Rightarrow> v = None
      | Some a \<Rightarrow>
          (A_Type a = '''' \<and> v = None) \<or>
          (A_Type a = ''token'' \<and> A_Token a \<noteq> '''' \<and> v = NewAuthenticationToken N (A_Token a)) \<or>
          (A_Type a = ''oauth2'' \<and> (\<exists>oa. A_Oauth2 a = Some oa \<and>
             O_IssuerUrl oa \<noteq> '''' \<and> O_ClientId oa \<noteq> '''' \<and> O_ClientSecret oa \<noteq> '''' \<and>
             v = NewAuthenticationOAuth2 N (oauth2_params oa))) \<or>
          (A_Type a = ''tls'' \<and> (\<exists>t. A_TlsAuth a = Some t \<and>
             TA_CertFile t \<noteq> '''' \<and> TA_KeyFile t \<noteq> '''' \<and>
             v = NewAuthenticationTLS N (TA_CertFile t) (TA_KeyFile t))))"

lemma client_auth_authenticates:
  assumes "valid_Auth au" and "Authentication opts = None"
  shows "authenticates N au (Authentication (client_auth N au opts))"
  using assms by (auto simp: authenticates_def client_auth_def valid_Auth_def split: option.splits)

lemma normalize_Auth:
  "normalizePulsarConfig L (Some c) = Inr c' \<Longrightarrow> valid_Auth (AuthConf c) \<and> AuthConf c' = AuthConf c"
  by (elim normalize_InrE) simp

text \<open>Claim C23: the plugin loses no configured authentication. For a configuration that normalization
  accepted, the client options carry exactly what the library's constructor for the configured
  method (\<open>token\<close>, \<open>oauth2\<close> or \<open>tls\<close>) makes of the operator's credentials, of which the token, the
  issuer URL, client id and secret, or the certificate and key file are non-empty; they carry no
  authentication when there is no \<open>auth\<close> section or its type is empty. So they carry none only
  if the operator configured none or that constructor returned nil, which the code does not
  check.\<close>

theorem authentication_as_configured:
  assumes "normalizePulsarConfig L (Some c) = Inr c'"
  shows "authenticates N (AuthConf c) (Authentication (buildClientOptions N L c'))"
  using normalize_Auth [OF assms]
  by (simp add: buildClientOptions_def Let_def client_auth_authenticates conf_simps)

definition token_config :: Pulsar where
  "token_config = sparse_config\<lparr>AuthConf :=
     Some \<lparr>A_Type = ''token'', A_Token = ''secret'', A_Oauth2 = None, A_TlsAuth = None\<rparr>\<rparr>"

lemma token_accepted: "\<exists>c'. normalizePulsarConfig L (Some token_config) = Inr c'"
  using normalize_accepts [of L token_config]
  by (auto simp: is_ok_iff token_config_def sparse_config_def valid_config_def valid_Retry_def
      valid_Producer_def valid_Auth_def)

theorem authentication_as_configured_witness:
  "\<exists>c'. normalizePulsarConfig durationpb_doc (Some token_config) = Inr c' \<and>
     Authentication (buildClientOptions no_oauth2_lib durationpb_doc c') = Some 1"
proof -
  obtain c' where c': "normalizePulsarConfig durationpb_doc (Some token_config) = Inr c'"
    using token_accepted by blast
  from authentication_as_configured [OF c', of no_oauth2_lib] c' show ?thesis
    by (auto simp: authenticates_def token_config_def no_oauth2_lib_def)
qed

text \<open>The sections do not interfere: connection tuning, TLS and authentication write disjoint
  fields.\<close>

lemma client_auth_fields [conf_simps]:
  "URL (client_auth N au opts) = URL opts"
  "ConnectionTimeout (client_auth N au opts) = ConnectionTimeout opts"
  "OperationTimeout (client_auth N au opts) = OperationTimeout opts"
  "KeepAliveInterval (client_auth N au opts) = KeepAliveInterval opts"
  "MaxConnectionsPerBroker (client_auth N au opts) = MaxConnectionsPerBroker opts"
  "TLSAllowInsecureConnection (client_auth N au opts) = TLSAllowInsecureConnection opts"
  "TLSTrustCertsFilePath (client_auth N au opts) = TLSTrustCertsFilePath opts"
  "TLSValidateHostname (client_auth N au opts) = TLSValidateHostname opts"
  by (auto simp: client_auth_def split: option.splits)

lemma client_tls_fields [conf_simps]:
  "URL (client_tls t opts) = URL opts"
  "ConnectionTimeout (client_tls t opts) = ConnectionTimeout opts"
  "OperationTimeout (client_tls t opts) = OperationTimeout opts"
  "KeepAliveInterval (client_tls t opts) = KeepAliveInterval opts"
  "MaxConnectionsPerBroker (client_tls t opts) = MaxConnectionsPerBroker opts"
  by (auto simp: client_tls_def Let_def split: option.splits)

lemma client_connection_fields [conf_simps]:
  "URL (client_connection L cn opts) = URL opts"
  "TLSAllowInsecureConnection (client_connection L cn opts) = TLSAllowInsecureConnection opts"
  "TLSTrustCertsFilePath (client_connection L cn opts) = TLSTrustCertsFilePath opts"
  "TLSValidateHostname (client_connection L cn opts) = TLSValidateHostname opts"
  by (auto simp: client_connection_def split: option.splits)

text \<open>The TLS switches reach the client exactly as configured, and only when TLS is
  enabled: certificate checks can be relaxed by nothing but an enabled
  \<open>allow_insecure_connection\<close>.\<close>

theorem tls_switches_as_configured:
  "TLSAllowInsecureConnection (buildClientOptions N L c) =
     (\<exists>t. Tls c = Some t \<and> T_Enable t \<and> T_AllowInsecureConnection t) \<and>
   TLSValidateHostname (buildClientOptions N L c) =
     (\<exists>t. Tls c = Some t \<and> T_Enable t \<and> T_VerifyHostname t) \<and>
   TLSTrustCertsFilePath (buildClientOptions N L c) =
     (case Tls c of Some t \<Rightarrow> if T_Enable t then T_TrustCertsFile t else '''' | None \<Rightarrow> '''')"
  by (auto simp: buildClientOptions_def Let_def conf_simps client_tls_def split: option.splits)

context durationpb
begin

lemma client_limits:
  assumes "normal_config L c"
  shows "URL (buildClientOptions N L c) \<noteq> '''' \<and>
    0 < sint (ConnectionTimeout (buildClientOptions N L c)) \<and>
    0 < sint (OperationTimeout (buildClientOptions N L c)) \<and>
    0 < sint (KeepAliveInterval (buildClientOptions N L c)) \<and>
    0 < sint (MaxConnectionsPerBroker (buildClientOptions N L c))"
  using assms
  by (auto simp: buildClientOptions_def Let_def conf_simps client_connection_def
      normal_config_def set_dur_pos nonpos32_def)

end

text \<open>For a configuration that normalization returned, the client options have a
  service URL, positive timeouts, a positive keep-alive interval and at least one connection
  per broker.\<close>

theorem client_options_usable:
  assumes "durationpb L" and "normalizePulsarConfig L (Some c) = Inr c'"
  shows "URL (buildClientOptions N L c') \<noteq> '''' \<and>
    0 < sint (ConnectionTimeout (buildClientOptions N L c')) \<and>
    0 < sint (OperationTimeout (buildClientOptions N L c')) \<and>
    0 < sint (KeepAliveInterval (buildClientOptions N L c')) \<and>
    0 < sint (MaxConnectionsPerBroker (buildClientOptions N L c'))"
  using assms by (intro durationpb.client_limits durationpb.normalize_establishes)

theorem client_options_usable_witness:
  "0 < sint (ConnectionTimeout (buildClientOptions N durationpb_doc (defaultPulsarConfig durationpb_doc)))"
  using client_options_usable [OF doc.durationpb_axioms doc_default_normal] by blast

section \<open>Producer and consumer options\<close>

context durationpb
begin

lemma normal_producer_limits:
  assumes "normal_Producer L (Some p)"
  shows "0 < sint (PP_SendTimeout (producer_options L p)) \<and>
    0 < sint (PP_MaxPendingMessages (producer_options L p)) \<and>
    PP_CompressionType (producer_options L p) \<noteq> None \<and>
    PP_HashingScheme (producer_options L p) \<noteq> None"
  using assms
  by (auto simp: normal_Producer_def normal_ProducerOptions_def producer_options_def blank_def
      nonpos32_def unset_dur_def)

lemma normal_producer_batching:
  assumes "normal_Producer L (Some p)"
  shows "\<exists>x. P_Options p = Some x \<and>
    (if PO_BatchingEnabled x
     then 0 < sint (PP_BatchingMaxPublishDelay (producer_options L p)) \<and>
       0 < uint (PP_BatchingMaxMessages (producer_options L p)) \<and>
       uint (PP_BatchingMaxMessages (producer_options L p)) = sint (PO_BatchingMaxMessages x)
     else PP_BatchingMaxPublishDelay (producer_options L p) = 0 \<and>
       PP_BatchingMaxMessages (producer_options L p) = 0 \<and>
       PP_BatchingMaxSize (producer_options L p) = 0)"
  using assms
  by (auto simp: normal_Producer_def normal_ProducerOptions_def producer_options_def blank_def
      nonpos32_def unset_dur_def uint_of_int32_exact)

lemma normal_consumer_limits:
  assumes "normal_Consumer L (Some c)"
  shows "0 < sint (PC_ReceiverQueueSize (consumer_options L c)) \<and>
    0 < sint (PC_NackRedeliveryDelay (consumer_options L c)) \<and>
    PC_Type (consumer_options L c) \<noteq> None \<and>
    PC_SubscriptionMode (consumer_options L c) \<noteq> None \<and>
    PC_SubscriptionInitialPosition (consumer_options L c) \<noteq> None"
  using assms
  by (auto simp: normal_Consumer_def normal_ConsumerOptions_def consumer_options_def blank_def
      nonpos32_def unset_dur_def)

lemma normal_members:
  assumes "normalizePulsarConfig L (Some c) = Inr c'"
  shows "Some p \<in> set (Producers c') \<Longrightarrow> normal_Producer L (Some p)"
    and "Some q \<in> set (Consumers c') \<Longrightarrow> normal_Consumer L (Some q)"
  using normalize_establishes [OF assms] by (auto simp: normal_config_def)

end

text \<open>Claim C24: what the client is given for the producers and consumers of a normalized
  configuration. Every producer has a positive send timeout and queue length, and an explicit
  compression type and hashing scheme. If its batching is enabled, the batching delay and the
  largest number of messages of a batch are positive and the number is the configured one,
  unchanged by the conversion to an unsigned integer; otherwise all three batching options are
  zero, so that the library's own defaults apply. Every consumer has a positive receiver
  queue and redelivery delay and an explicit subscription type, mode and initial position. The
  sizes in bytes are not covered: they are not validated.\<close>

theorem endpoint_options_usable:
  assumes "durationpb L" and "normalizePulsarConfig L (Some c) = Inr c'"
  shows "(\<forall>p. Some p \<in> set (Producers c') \<longrightarrow>
       0 < sint (PP_SendTimeout (producer_options L p)) \<and>
       0 < sint (PP_MaxPendingMessages (producer_options L p)) \<and>
       PP_CompressionType (producer_options L p) \<noteq> None \<and>
       PP_HashingScheme (producer_options L p) \<noteq> None \<and>
       (\<exists>x. P_Options p = Some x \<and>
         (if PO_BatchingEnabled x
          then 0 < sint (PP_BatchingMaxPublishDelay (producer_options L p)) \<and>
            0 < uint (PP_BatchingMaxMessages (producer_options L p)) \<and>
            uint (PP_BatchingMaxMessages (producer_options L p)) = sint (PO_BatchingMaxMessages x)
          else PP_BatchingMaxPublishDelay (producer_options L p) = 0 \<and>
            PP_BatchingMaxMessages (producer_options L p) = 0 \<and>
            PP_BatchingMaxSize (producer_options L p) = 0))) \<and>
     (\<forall>q. Some q \<in> set (Consumers c') \<longrightarrow>
       0 < sint (PC_ReceiverQueueSize (consumer_options L q)) \<and>
       0 < sint (PC_NackRedeliveryDelay (consumer_options L q)) \<and>
       PC_Type (consumer_options L q) \<noteq> None \<and>
       PC_SubscriptionMode (consumer_options L q) \<noteq> None \<and>
       PC_SubscriptionInitialPosition (consumer_options L q) \<noteq> None)"
proof -
  note members = durationpb.normal_members [OF assms]
  show ?thesis
    using durationpb.normal_producer_limits [OF assms(1) members(1)]
      durationpb.normal_producer_batching [OF assms(1) members(1)]
      durationpb.normal_consumer_limits [OF assms(1) members(2)]
    by blast
qed

theorem endpoint_options_usable_witness:
  "0 < sint (PP_SendTimeout (producer_options durationpb_doc (default_Producer durationpb_doc))) \<and>
   0 < sint (PC_ReceiverQueueSize (consumer_options durationpb_doc (default_Consumer durationpb_doc)))"
  using endpoint_options_usable [OF doc.durationpb_axioms doc_default_normal]
  by (simp add: defaultPulsarConfig_def)

text \<open>Claim C40: the batch and chunk sizes and the redelivery count are validated by nothing, and a
  negative one wraps around: an enabled \<open>batching_max_size\<close> or \<open>chunk_max_size\<close> of \<open>-n\<close> reaches
  the client as \<open>2^64 - n\<close> and a \<open>max_redeliver_count\<close> of \<open>-n\<close> as \<open>2^32 - n\<close>, with or without
  normalization.\<close>

theorem unvalidated_sizes_wrap:
  assumes "P_Options p = Some x" and "C_Options q = Some y" and "CO_DeadLetterPolicy y = Some d"
  shows "(PO_BatchingEnabled x \<and> sint (PO_BatchingMaxSize x) < 0 \<longrightarrow>
       uint (PP_BatchingMaxSize (producer_options L p)) = 2 ^ 64 + sint (PO_BatchingMaxSize x)) \<and>
     (PO_EnableChunking x \<and> sint (PO_ChunkMaxSize x) < 0 \<longrightarrow>
       uint (PP_ChunkMaxMessageSize (producer_options L p)) = 2 ^ 64 + sint (PO_ChunkMaxSize x)) \<and>
     (sint (D_MaxRedeliverCount d) < 0 \<longrightarrow>
       map_option (\<lambda>dlq. uint (DLQ_MaxDeliveries dlq)) (PC_DLQ (consumer_options L q)) =
         Some (2 ^ 32 + sint (D_MaxRedeliverCount d))) \<and>
     PO_BatchingMaxSize (normalize_ProducerOptions L (Some x)) = PO_BatchingMaxSize x \<and>
     PO_ChunkMaxSize (normalize_ProducerOptions L (Some x)) = PO_ChunkMaxSize x \<and>
     CO_DeadLetterPolicy (normalize_ConsumerOptions L (Some y)) = CO_DeadLetterPolicy y"
  using assms
  by (simp add: producer_options_def consumer_options_def uint_of_int32_negative
      uint32_of_int32_negative normalize_ProducerOptions_def normalize_ConsumerOptions_def)

definition negative_batching :: ProducerOptions where
  "negative_batching = zero_ProducerOptions\<lparr>PO_BatchingEnabled := True, PO_BatchingMaxSize := - 1\<rparr>"

definition dead_letter_consumer :: ConsumerOptions where
  "dead_letter_consumer = zero_ConsumerOptions\<lparr>CO_DeadLetterPolicy :=
     Some \<lparr>D_MaxRedeliverCount = 3, D_DeadLetterTopic = ''dlq'', D_InitialSubscriptionName = ''''\<rparr>\<rparr>"

theorem unvalidated_sizes_wrap_witness:
  "uint (PP_BatchingMaxSize (producer_options durationpb_doc
     (default_Producer durationpb_doc\<lparr>P_Options := Some negative_batching\<rparr>))) = 2 ^ 64 - 1"
  using unvalidated_sizes_wrap
    [of "default_Producer durationpb_doc\<lparr>P_Options := Some negative_batching\<rparr>" negative_batching
      "default_Consumer durationpb_doc\<lparr>C_Options := Some dead_letter_consumer\<rparr>"
      dead_letter_consumer _ durationpb_doc]
  by (simp add: negative_batching_def dead_letter_consumer_def)

end
