(* ===== verification/Managers.thy ===== *)
theory Managers
  imports Conf
begin

text \<open>
  The three helpers of \<open>managers.go\<close>: the health checker with its probe loop, the connection
  manager and the retry manager. Channels that are only closed are flags, a panic is a value,
  the clock is an argument, and the nested maps of the retry statistics live in a store because
  \<open>GetRetryStats\<close> hands out references to them. The mutexes make each operation atomic, so an
  operation is one function.
\<close>

section \<open>Health checker\<close>

type_synonym time = nat \<comment> \<open>a reading of the clock\<close>

record HealthChecker =
  HC_interval :: duration
  HC_stopChan_closed :: bool
  HC_stopOnce_done :: bool
  HC_healthy :: bool
  HC_lastCheck :: "time option"   \<comment> \<open>\<open>None\<close> is the zero time\<close>
  HC_errorCount :: int64
  HC_lastError :: "string option"
  HC_stopped :: bool

definition NewHealthChecker :: "duration \<Rightarrow> HealthChecker" where
  "NewHealthChecker interval =
     \<lparr>HC_interval = interval, HC_stopChan_closed = False, HC_stopOnce_done = False,
      HC_healthy = True, HC_lastCheck = None, HC_errorCount = 0, HC_lastError = None,
      HC_stopped = False\<rparr>"

definition HealthChecker_Stop :: "HealthChecker \<Rightarrow> go_panic + HealthChecker" where
  "HealthChecker_Stop h =
     (if \<not> HC_stopped h then
        (if HC_stopOnce_done h then Inr h
         else bindE (close_chan (HC_stopChan_closed h)) (\<lambda>closed.
              Inr (h\<lparr>HC_stopOnce_done := True, HC_stopChan_closed := closed, HC_stopped := True\<rparr>)))
      else Inr h)"

definition IsHealthy :: "HealthChecker \<Rightarrow> bool" where
  "IsHealthy h = HC_healthy h"

definition GetLastCheck :: "HealthChecker \<Rightarrow> time option" where
  "GetLastCheck h = HC_lastCheck h"

definition GetErrorCount :: "HealthChecker \<Rightarrow> int64" where
  "GetErrorCount h = HC_errorCount h"

definition GetLastError :: "HealthChecker \<Rightarrow> string option" where
  "GetLastError h = HC_lastError h"

definition performHealthCheck :: "time \<Rightarrow> HealthChecker \<Rightarrow> HealthChecker" where
  "performHealthCheck now h =
     h\<lparr>HC_lastCheck := Some now, HC_healthy := True, HC_lastError := None\<rparr>"

text \<open>
  \<open>run\<close> in the goroutine of \<open>Start\<close>: the ticker panics for an interval that is not positive;
  then one iteration per element of the list, each the case the \<open>select\<close> takes together with
  the checker as the other goroutines have left it. The result says whether the loop returned.
\<close>

datatype probe_event = TickerFired time | StopChanClosed

fun run_loop :: "HealthChecker \<Rightarrow> probe_event list \<Rightarrow> HealthChecker \<times> bool" where
  "run_loop h [] = (h, False)"
| "run_loop h (TickerFired now # es) = run_loop (performHealthCheck now h) es"
| "run_loop h (StopChanClosed # es) = (h, True)"

definition HealthChecker_run ::
  "HealthChecker \<Rightarrow> probe_event list \<Rightarrow> go_panic + HealthChecker \<times> bool" where
  "HealthChecker_run h es =
     (if sint (HC_interval h) \<le> 0 then Inl NonPositiveTickerInterval else Inr (run_loop h es))"

text \<open>What other goroutines see: probes and calls of \<open>Stop\<close> in any order.\<close>

datatype hc_op = HcProbe time | HcStop

fun hc_step :: "HealthChecker \<Rightarrow> hc_op \<Rightarrow> go_panic + HealthChecker" where
  "hc_step h (HcProbe now) = Inr (performHealthCheck now h)"
| "hc_step h HcStop = HealthChecker_Stop h"

definition hc_inv :: "HealthChecker \<Rightarrow> bool" where
  "hc_inv h \<longleftrightarrow>
     HC_stopChan_closed h = HC_stopped h \<and> HC_stopOnce_done h = HC_stopped h \<and>
     HC_healthy h \<and> HC_errorCount h = 0 \<and> HC_lastError h = None"

interpretation hc: panic_free hc_step hc_inv
proof
  fix h x assume "hc_inv h"
  then show "\<exists>h'. hc_step h x = Inr h' \<and> hc_inv h'"
    by (cases x) (auto simp: hc_inv_def performHealthCheck_def HealthChecker_Stop_def close_chan_def)
qed

lemma hc_inv_New: "hc_inv (NewHealthChecker d)"
  by (simp add: hc_inv_def NewHealthChecker_def)

lemma hc_step_stopped: "hc_step h x = Inr h' \<Longrightarrow> HC_stopped h \<Longrightarrow> HC_stopped h'"
  by (cases x) (auto simp: performHealthCheck_def HealthChecker_Stop_def)

lemma hc_run_stopped:
  "run_ops hc_step h xs = Inr h' \<Longrightarrow> HC_stopped h \<Longrightarrow> HC_stopped h'"
  by (induction xs arbitrary: h) (auto simp: bindE_Inr_iff dest: hc_step_stopped)

lemma hc_Stop_stops: "hc_inv h \<Longrightarrow> hc_step h HcStop = Inr h' \<Longrightarrow> HC_stopped h'"
  by (auto simp: hc_inv_def HealthChecker_Stop_def close_chan_def split: if_splits)

lemma hc_run_Stop_stops:
  "hc_inv h \<Longrightarrow> run_ops hc_step h xs = Inr h' \<Longrightarrow> HcStop \<in> set xs \<Longrightarrow> HC_stopped h'"
proof (induction xs arbitrary: h)
  case (Cons x xs)
  from hc.step_ok [OF Cons.prems(1)] obtain d where d: "hc_step h x = Inr d" "hc_inv d" by blast
  with Cons show ?case
    by (cases "x = HcStop") (auto dest: hc_Stop_stops hc_run_stopped)
qed simp

lemma hc_unstopped:
  "run_ops hc_step h xs = Inr h' \<Longrightarrow> HcStop \<notin> set xs \<Longrightarrow> \<not> HC_stopped h \<Longrightarrow> \<not> HC_stopped h'"
proof (induction xs arbitrary: h)
  case (Cons x xs)
  then show ?case by (cases x) (auto simp: performHealthCheck_def)
qed simp

text \<open>Any sequence of probes and \<open>Stop\<close> calls on a new health checker runs without
  closing its channel twice; afterwards the channel is closed exactly if \<open>Stop\<close> was called,
  and the checker still reports healthy with no error counted: the probe is a placeholder that
  can report nothing else.\<close>

theorem health_checker_safe:
  "\<exists>h. run_ops hc_step (NewHealthChecker d) ops = Inr h \<and>
     (HC_stopChan_closed h \<longleftrightarrow> HcStop \<in> set ops) \<and>
     IsHealthy h \<and> GetErrorCount h = 0 \<and> GetLastError h = None"
proof -
  from hc.run_ok [OF hc_inv_New, of d ops] obtain h
    where h: "run_ops hc_step (NewHealthChecker d) ops = Inr h" "hc_inv h" by blast
  have "HC_stopped h \<longleftrightarrow> HcStop \<in> set ops"
  proof (cases "HcStop \<in> set ops")
    case True
    then show ?thesis using hc_run_Stop_stops [OF hc_inv_New h(1)] by simp
  next
    case False
    have "\<not> HC_stopped h"
      using h(1) False by (rule hc_unstopped) (simp add: NewHealthChecker_def)
    with False show ?thesis by simp
  qed
  with h show ?thesis
    by (simp add: hc_inv_def IsHealthy_def GetErrorCount_def GetLastError_def)
qed

section \<open>Connection manager\<close>

record ConnectionManager =
  CM_config :: Connection
  CM_connected :: bool
  CM_stopChan_closed :: bool
  CM_stopped :: bool

definition NewConnectionManager :: "Connection \<Rightarrow> ConnectionManager" where
  "NewConnectionManager config =
     \<lparr>CM_config = config, CM_connected = False, CM_stopChan_closed = False, CM_stopped = False\<rparr>"

definition ConnectionManager_Start :: "ConnectionManager \<Rightarrow> ConnectionManager" where
  "ConnectionManager_Start c = c\<lparr>CM_connected := True\<rparr>"

definition ConnectionManager_Stop :: "ConnectionManager \<Rightarrow> go_panic + ConnectionManager" where
  "ConnectionManager_Stop c =
     (let c1 = c\<lparr>CM_connected := False\<rparr>
      in if CM_stopped c1 then Inr c1
         else
           let c2 = c1\<lparr>CM_stopped := True\<rparr>
           in if CM_stopChan_closed c2 then Inr c2
              else bindE (close_chan (CM_stopChan_closed c2)) (\<lambda>closed.
                   Inr (c2\<lparr>CM_stopChan_closed := closed\<rparr>)))"

definition ConnectionManager_IsConnected :: "ConnectionManager \<Rightarrow> bool" where
  "ConnectionManager_IsConnected c = CM_connected c"

definition ConnectionManager_Reconnect :: "ConnectionManager \<Rightarrow> ConnectionManager" where
  "ConnectionManager_Reconnect c = c\<lparr>CM_connected := True\<rparr>"

datatype conn_stat = StatBool bool | StatInt32 int32 | StatDuration duration

definition GetConnectionStats :: "durationpb_lib \<Rightarrow> ConnectionManager \<Rightarrow> conn_stat go_map" where
  "GetConnectionStats L c =
     [(''connected'', StatBool (CM_connected c)),
      (''max_connections_per_host'', StatInt32 (CN_MaxConnectionsPerHost (CM_config c))),
      (''enable_connection_pooling'', StatBool (CN_EnableConnectionPooling (CM_config c))),
      (''connection_timeout'', StatDuration (AsDuration L (CN_ConnectionTimeout (CM_config c)))),
      (''operation_timeout'', StatDuration (AsDuration L (CN_OperationTimeout (CM_config c)))),
      (''keep_alive_interval'', StatDuration (AsDuration L (CN_KeepAliveInterval (CM_config c))))]"

datatype cm_op = CmStart | CmStop | CmReconnect

fun cm_step :: "ConnectionManager \<Rightarrow> cm_op \<Rightarrow> go_panic + ConnectionManager" where
  "cm_step c CmStart = Inr (ConnectionManager_Start c)"
| "cm_step c CmStop = ConnectionManager_Stop c"
| "cm_step c CmReconnect = Inr (ConnectionManager_Reconnect c)"

definition cm_inv :: "ConnectionManager \<Rightarrow> bool" where
  "cm_inv c \<longleftrightarrow> CM_stopChan_closed c = CM_stopped c"

lemmas cm_defs = ConnectionManager_Start_def ConnectionManager_Stop_def
  ConnectionManager_Reconnect_def ConnectionManager_IsConnected_def

interpretation cm: latched cm_step cm_inv ConnectionManager_IsConnected "\<lambda>x. x \<noteq> CmStop"
proof
  fix c x assume "cm_inv c"
  then show "\<exists>c'. cm_step c x = Inr c' \<and> cm_inv c'"
    by (cases x) (auto simp: cm_inv_def cm_defs close_chan_def Let_def)
next
  fix c x c' assume "cm_inv c" and "cm_step c x = Inr c'"
  then show "ConnectionManager_IsConnected c' = (x \<noteq> CmStop)"
    by (cases x) (auto simp: cm_inv_def cm_defs close_chan_def Let_def split: if_splits)
qed

lemma cm_inv_New: "cm_inv (NewConnectionManager config)"
  by (simp add: cm_inv_def NewConnectionManager_def)

lemma cm_step_config: "cm_inv c \<Longrightarrow> cm_step c x = Inr c' \<Longrightarrow> CM_config c' = CM_config c"
  by (cases x) (auto simp: cm_inv_def cm_defs close_chan_def Let_def split: if_splits)

text \<open>Any sequence of \<open>Start\<close>, \<open>Stop\<close> and \<open>Reconnect\<close> calls on a new connection
  manager runs without closing its channel twice, keeps its configuration, and leaves it
  connected exactly if the last call was not \<open>Stop\<close> (an unused manager is not connected).\<close>

theorem connection_manager_safe:
  "\<exists>c. run_ops cm_step (NewConnectionManager config) ops = Inr c \<and>
     CM_config c = config \<and>
     ConnectionManager_IsConnected c = (ops \<noteq> [] \<and> last ops \<noteq> CmStop)"
proof -
  from cm.run_ok [OF cm_inv_New, of config ops] obtain c
    where c: "run_ops cm_step (NewConnectionManager config) ops = Inr c" "cm_inv c" by blast
  have "CM_config c = CM_config (NewConnectionManager config)"
    using cm.run_frame [OF cm_inv_New c(1)] cm_step_config by blast
  moreover have "ConnectionManager_IsConnected c = (ops \<noteq> [] \<and> last ops \<noteq> CmStop)"
  proof (cases "ops = []")
    case True
    with c(1) show ?thesis by (auto simp: NewConnectionManager_def cm_defs)
  next
    case False
    then show ?thesis using cm.run_latched [OF cm_inv_New False c(1)] by simp
  qed
  ultimately show ?thesis using c(1) by (auto simp: NewConnectionManager_def)
qed

section \<open>Retry manager\<close>

text \<open>
  \<open>stats\<close> maps an operation to a \<open>map[string]any\<close>, a reference. The store \<open>RM_heap\<close> holds the
  inner maps by address; \<open>RM_stats\<close> holds the addresses.
\<close>

datatype stat_value = AnyInt int64 | AnyString string | AnyNil | AnyTime time

type_synonym op_stats = "stat_value go_map"

record RetryManager =
  RM_config :: Retry
  RM_stats :: "nat go_map"
  RM_heap :: "op_stats list"

definition NewRetryManager :: "Retry \<Rightarrow> RetryManager" where
  "NewRetryManager config = \<lparr>RM_config = config, RM_stats = [], RM_heap = []\<rparr>"

definition ShouldRetry :: "RetryManager \<Rightarrow> int64 \<Rightarrow> string option \<Rightarrow> bool" where
  "ShouldRetry r attempt err =
     (if \<not> R_Enable (RM_config r) then False
      else sint attempt < sint (int_of_int32 (R_MaxAttempts (RM_config r))))"

text \<open>The loop of \<open>GetRetryDelay\<close>; the first argument counts the iterations left, the second is
  the implementation's conversion of a float outside the range of \<open>int64\<close>.\<close>

fun retry_loop ::
  "nat \<Rightarrow> (gofloat \<Rightarrow> int64) \<Rightarrow> gofloat \<Rightarrow> duration \<Rightarrow> duration \<Rightarrow> duration" where
  "retry_loop 0 impl factor maxd delay = delay"
| "retry_loop (Suc n) impl factor maxd delay =
     (let delay1 = int64_of_float64 impl (mul64 (float64_of_int64 delay) factor)
      in if sint delay1 > sint maxd then maxd else retry_loop n impl factor maxd delay1)"

definition GetRetryDelay ::
  "durationpb_lib \<Rightarrow> (gofloat \<Rightarrow> int64) \<Rightarrow> RetryManager \<Rightarrow> int64 \<Rightarrow> duration" where
  "GetRetryDelay L impl r attempt =
     (if sint attempt \<le> 0 then AsDuration L (R_InitialDelay (RM_config r))
      else retry_loop (nat (sint attempt)) impl (R_RetryDelayMultiplier (RM_config r))
             (AsDuration L (R_MaxDelay (RM_config r)))
             (AsDuration L (R_InitialDelay (RM_config r))))"

definition RecordRetry ::
  "string \<Rightarrow> int64 \<Rightarrow> string option \<Rightarrow> time \<Rightarrow> RetryManager \<Rightarrow> RetryManager" where
  "RecordRetry operation attempt err now r =
     (let r1 = (case go_get (RM_stats r) operation of
                  None \<Rightarrow> r\<lparr>RM_heap := RM_heap r @ [[]],
                            RM_stats := go_put operation (length (RM_heap r)) (RM_stats r)\<rparr>
                | Some _ \<Rightarrow> r)
      in case go_get (RM_stats r1) operation of
           None \<Rightarrow> r1
         | Some a \<Rightarrow>
             let s0 = RM_heap r1 ! a;
                 s1 = go_put ''attempts'' (AnyInt attempt) s0;
                 s2 = go_put ''last_error''
                        (case err of Some e \<Rightarrow> AnyString e | None \<Rightarrow> AnyNil) s1;
                 s3 = go_put ''last_retry'' (AnyTime now) s2
             in r1\<lparr>RM_heap := (RM_heap r1)[a := s3]\<rparr>)"

text \<open>The map that \<open>GetRetryStats\<close> returns has the same inner maps as the manager.\<close>

definition GetRetryStats :: "RetryManager \<Rightarrow> nat go_map" where
  "GetRetryStats r = foldl (\<lambda>stats (k, v). go_put k v stats) [] (RM_stats r)"

definition read_stats :: "RetryManager \<Rightarrow> nat go_map \<Rightarrow> string \<Rightarrow> op_stats option" where
  "read_stats r snapshot operation = map_option ((!) (RM_heap r)) (go_get snapshot operation)"

definition rm_wf :: "RetryManager \<Rightarrow> bool" where
  "rm_wf r \<longleftrightarrow> go_wf (RM_stats r) \<and>
     (\<forall>k a. go_get (RM_stats r) k = Some a \<longrightarrow> a < length (RM_heap r)) \<and>
     (\<forall>k k' a. go_get (RM_stats r) k = Some a \<and> go_get (RM_stats r) k' = Some a \<longrightarrow> k = k')"


end
