(* ===== verification/RetrySpec.thy ===== *)
theory RetrySpec
  imports Managers NormalizeSpec
begin

text \<open>
  What the retry manager of theory \<open>Managers\<close> guarantees: the back-off never exceeds
  \<open>max_delay\<close>, whatever the floating-point multiplier and the implementation's conversions do;
  for whole-number multipliers whose products fit 53 bits it is the geometric sequence cut off
  at \<open>max_delay\<close>; for any finite multiplier of moderate size it stays between 0 and \<open>max_delay\<close>; and
  the statistics record the last attempt of every operation.
\<close>

section \<open>Back-off\<close>

lemma retry_loop_le_max: "0 < n \<Longrightarrow> sint (retry_loop n impl f maxd d) \<le> sint maxd"
proof (induction n arbitrary: d)
  case (Suc n)
  then show ?case by (cases n) (auto simp: Let_def)
qed simp

lemma GetRetryDelay_le_max:
  assumes "normal_Retry L (Some (RM_config r))"
  shows "sint (GetRetryDelay L impl r attempt) \<le> sint (AsDuration L (R_MaxDelay (RM_config r)))"
  using assms by (auto simp: GetRetryDelay_def normal_Retry_def retry_loop_le_max)

text \<open>Claim C21: with a normalized configuration the delay before any attempt is at most
  \<open>max_delay\<close>, for every multiplier (infinities and NaN included) and every choice the
  implementation makes when a product leaves the range of \<open>int64\<close>.\<close>

theorem retry_delay_capped:
  assumes "durationpb L" and "normalizePulsarConfig L (Some c) = Inr c'" and "RetryConf c' = Some rc"
  shows "sint (GetRetryDelay L impl (NewRetryManager rc) attempt) \<le> sint (AsDuration L (R_MaxDelay rc))"
  using GetRetryDelay_le_max [of L "NewRetryManager rc"] durationpb.normalize_establishes [OF assms(1,2)]
    assms(3)
  by (simp add: NewRetryManager_def normal_config_def)

theorem retry_delay_capped_witness:
  "sint (GetRetryDelay durationpb_doc (\<lambda>_. 0) (NewRetryManager (default_Retry durationpb_doc)) 1000)
     \<le> sint (AsDuration durationpb_doc (R_MaxDelay (default_Retry durationpb_doc)))"
  by (rule retry_delay_capped [OF doc.durationpb_axioms doc_default_normal])
    (simp add: defaultPulsarConfig_def)

lemma retry_loop_geometric:
  assumes "1 \<le> k" and "0 \<le> sint d" and "sint d \<le> sint maxd" and "sint maxd * k < 2 ^ 53"
  shows "sint (retry_loop n impl (Fin k 0) maxd d) = min (sint d * k ^ n) (sint maxd)"
  using assms(2,3)
proof (induction n arbitrary: d)
  case (Suc n)
  let ?p = "sint d * k"
  have p: "0 \<le> ?p" "?p \<le> sint maxd * k" using Suc.prems assms(1) by (simp_all add: mult_right_mono)
  have "sint maxd * 1 \<le> sint maxd * k" using Suc.prems assms(1) by (intro mult_left_mono) auto
  then have d: "\<bar>sint d\<bar> < 2 ^ 53" "\<bar>?p\<bar> < 2 ^ 53" using Suc.prems p assms(4) by simp_all
  let ?d1 = "int64_of_float64 impl (mul64 (float64_of_int64 d) (Fin k 0))"
  have "sint ?d1 = sint (word_of_int ?p :: int64)" by (simp only: scale_exact [OF d])
  also have "\<dots> = ?p" using d(2) by (intro sint_of_int64) auto
  finally have sp: "sint ?d1 = ?p" .
  show ?case
  proof (cases "?p > sint maxd")
    case True
    have "?p * 1 \<le> ?p * k ^ n" using p(1) assms(1) by (intro mult_left_mono) auto
    with True have "sint maxd \<le> sint d * k ^ Suc n" by (simp add: mult.assoc)
    with True show ?thesis by (simp add: sp Let_def)
  next
    case False
    then have "sint (retry_loop n impl (Fin k 0) maxd ?d1) = min (?p * k ^ n) (sint maxd)"
      using p(1) by (subst Suc.IH) (simp_all add: sp)
    with False show ?thesis by (simp add: sp mult.assoc Let_def)
  qed
qed simp

lemma GetRetryDelay_geometric:
  assumes "R_RetryDelayMultiplier (RM_config r) = Fin k 0" and "1 \<le> k"
    and "normal_Retry L (Some (RM_config r))"
    and "sint (AsDuration L (R_MaxDelay (RM_config r))) * k < 2 ^ 53"
  shows "sint (GetRetryDelay L impl r attempt) =
    min (sint (AsDuration L (R_InitialDelay (RM_config r))) * k ^ nat (sint attempt))
        (sint (AsDuration L (R_MaxDelay (RM_config r))))"
  using assms by (auto simp: GetRetryDelay_def retry_loop_geometric normal_Retry_def unset_dur_def)

text \<open>Claim C22: for a normalized retry section, whose delays are positive and ordered, and a
  whole-number multiplier \<open>k \<ge> 1\<close> with \<open>max_delay * k\<close> below \<open>2^53\<close> nanoseconds (104 days), the
  delay before attempt \<open>n\<close> is exactly \<open>min (initial_delay * k^n) max_delay\<close>, with no rounding;
  a negative \<open>n\<close> counts as 0.\<close>

theorem retry_delay_geometric:
  assumes "R_RetryDelayMultiplier (RM_config r) = Fin k 0" and "1 \<le> k"
    and "normal_Retry L (Some (RM_config r))"
    and "sint (AsDuration L (R_MaxDelay (RM_config r))) * k < 2 ^ 53"
  shows "sint (GetRetryDelay L impl r attempt) =
    min (sint (AsDuration L (R_InitialDelay (RM_config r))) * k ^ nat (sint attempt))
        (sint (AsDuration L (R_MaxDelay (RM_config r))))"
  using assms by (rule GetRetryDelay_geometric)

lemma normal_default_Retry: "durationpb L \<Longrightarrow> normal_Retry L (Some (default_Retry L))"
  using durationpb.normal_default by (auto simp: normal_config_def defaultPulsarConfig_def)

theorem retry_delay_geometric_witness:
  "sint (GetRetryDelay durationpb_doc (\<lambda>_. 0) (NewRetryManager (default_Retry durationpb_doc)) 3)
     = 800000000"
proof -
  let ?r = "NewRetryManager (default_Retry durationpb_doc)"
  have "sint (GetRetryDelay durationpb_doc (\<lambda>_. 0) ?r 3) =
      min (sint (AsDuration durationpb_doc (R_InitialDelay (RM_config ?r))) * 2 ^ nat (sint (3::int64)))
        (sint (AsDuration durationpb_doc (R_MaxDelay (RM_config ?r))))"
    by (rule retry_delay_geometric)
      (simp_all add: NewRetryManager_def normal_default_Retry doc.durationpb_axioms,
       simp_all add: default_Retry_def doc.as_new)
  then show ?thesis
    by (simp add: NewRetryManager_def default_Retry_def doc.as_new)
qed

text \<open>The default back-off starts at 100 ms, doubles with every attempt and stays at
  30 s from the ninth attempt on.\<close>

theorem retry_delay_default:
  assumes "durationpb L" and "0 \<le> sint attempt"
  shows "sint (GetRetryDelay L impl (NewRetryManager (default_Retry L)) attempt) =
    (if sint attempt \<le> 8 then 100000000 * 2 ^ nat (sint attempt) else 30000000000)"
proof -
  have "sint (GetRetryDelay L impl (NewRetryManager (default_Retry L)) attempt) =
      min (100000000 * 2 ^ nat (sint attempt)) 30000000000"
    using GetRetryDelay_geometric [of "NewRetryManager (default_Retry L)" 2 L impl attempt]
      normal_default_Retry [OF assms(1)]
    by (simp add: NewRetryManager_def default_Retry_def durationpb.as_new [OF assms(1)])
  also have "\<dots> = (if sint attempt \<le> 8 then 100000000 * 2 ^ nat (sint attempt) else 30000000000)"
  proof (cases "sint attempt \<le> 8")
    case True
    then have "(2::int) ^ nat (sint attempt) \<le> 2 ^ 8" by (intro power_increasing) auto
    with True show ?thesis by simp
  next
    case False
    then have "(2::int) ^ 9 \<le> 2 ^ nat (sint attempt)" by (intro power_increasing) auto
    with False show ?thesis by simp
  qed
  finally show ?thesis .
qed

theorem retry_delay_default_witness:
  "sint (GetRetryDelay durationpb_doc (\<lambda>_. 0) (NewRetryManager (default_Retry durationpb_doc)) 9)
     = 30000000000"
  using retry_delay_default [OF doc.durationpb_axioms, of 9 "\<lambda>_. 0"] by simp

section \<open>The back-off for any finite multiplier\<close>

lemma scale_in_range:
  assumes "0 \<le> sint d" and "0 \<le> m" and "real_of_int (sint d) * flt_val m e < 2 ^ 61"
  shows "0 \<le> sint (int64_of_float64 impl (mul64 (float64_of_int64 d) (Fin m e)))"
    and "int64_of_float64 impl (mul64 (float64_of_int64 d) (Fin m e)) =
      int64_of_float64 impl' (mul64 (float64_of_int64 d) (Fin m e))"
proof -
  have d: "flt_val (sint d) 0 = real_of_int (sint d)" by (simp add: flt_val_def)
  have "sint d < 2 ^ 63" using sint_lt [of d] by simp
  then have "real_of_int (sint d) < real_of_int (2 ^ 63)" by (rule of_int_less_iff [THEN iffD2])
  then have "2 * flt_val (sint d) 0 < 2 ^ 64" by (simp add: d)
  then have "2 * flt_val (sint d) 0 < 2 powi 1024" by (rule below_overflow)
  from round64_bound [OF assms(1) this] obtain m0 e0 where
    f: "float64_of_int64 d = Fin m0 e0" "0 \<le> m0" "flt_val m0 e0 \<le> 2 * real_of_int (sint d)"
    by (auto simp: float64_of_int64_def d)
  have v: "0 \<le> flt_val m e" "flt_val (m0 * m) (e0 + e) = flt_val m0 e0 * flt_val m e"
    using assms(2) by (simp_all add: flt_val_def power_int_add)
  have "flt_val m0 e0 * flt_val m e \<le> 2 * real_of_int (sint d) * flt_val m e"
    using f(3) v(1) by (rule mult_right_mono)
  with assms(3) have p: "2 * flt_val (m0 * m) (e0 + e) < 2 ^ 63"
  proof -
    have "2 * (2 * (real_of_int (sint d) * flt_val m e)) < 2 * (2 * 2 ^ 61)" using assms(3) by linarith
    moreover have "2 * (2 * 2 ^ 61) = (2::real) ^ 63" by simp
    ultimately show ?thesis
      using \<open>flt_val m0 e0 * flt_val m e \<le> _\<close> unfolding v(2) mult.assoc by linarith
  qed
  then have "2 * flt_val (m0 * m) (e0 + e) < 2 ^ 64" by simp
  then have "2 * flt_val (m0 * m) (e0 + e) < 2 powi 1024" by (rule below_overflow)
  from round64_bound [OF _ this] f(2) assms(2) obtain m1 e1 where
    g: "round64 (m0 * m) (e0 + e) = Fin m1 e1" "0 \<le> m1" "flt_val m1 e1 \<le> 2 * flt_val (m0 * m) (e0 + e)"
    by auto
  with p have "flt_val m1 e1 < 2 ^ 63" by simp
  note range = int64_of_float64_nonneg [OF g(2) this]
  show "0 \<le> sint (int64_of_float64 impl (mul64 (float64_of_int64 d) (Fin m e)))"
    using conjunct1 [OF range] by (simp only: f(1) g(1) mul64.simps)
  show "int64_of_float64 impl (mul64 (float64_of_int64 d) (Fin m e)) =
      int64_of_float64 impl' (mul64 (float64_of_int64 d) (Fin m e))"
    by (simp only: f(1) g(1) mul64.simps conjunct2 [OF range])
qed

lemma retry_loop_in_range:
  assumes "0 \<le> m" and "real_of_int (sint maxd) * flt_val m e < 2 ^ 61"
    and "0 \<le> sint d" and "sint d \<le> sint maxd"
  shows "0 \<le> sint (retry_loop n impl (Fin m e) maxd d) \<and>
    retry_loop n impl (Fin m e) maxd d = retry_loop n impl' (Fin m e) maxd d"
  using assms(3,4)
proof (induction n arbitrary: d)
  case (Suc n)
  have "real_of_int (sint d) * flt_val m e \<le> real_of_int (sint maxd) * flt_val m e"
    using Suc.prems(2) assms(1)
    by (intro mult_right_mono of_int_le_iff [THEN iffD2]) (simp_all add: flt_val_def)
  then have "real_of_int (sint d) * flt_val m e < 2 ^ 61" using assms(2) by (rule le_less_trans)
  note scaled = scale_in_range [OF Suc.prems(1) assms(1) this]
  show ?case
    using Suc.IH [of "int64_of_float64 impl (mul64 (float64_of_int64 d) (Fin m e))"]
      scaled(1) [of impl] scaled(2) [of impl' impl] Suc.prems by (auto simp: Let_def)
qed simp

text \<open>Claim C38: with a normalized configuration and a finite multiplier, fractional ones included,
  for which \<open>max_delay * multiplier\<close> is below \<open>2^61\<close> nanoseconds (73 years), no delay is
  negative or exceeds \<open>max_delay\<close>: every rounded product stays in the range of \<open>int64\<close>, so that
  the delay does not depend on the implementation's conversion of values outside it.\<close>

theorem retry_delay_in_range:
  assumes "durationpb L" and "normalizePulsarConfig L (Some c) = Inr c'" and "RetryConf c' = Some rc"
    and "R_RetryDelayMultiplier rc = Fin m e"
    and "real_of_int (sint (AsDuration L (R_MaxDelay rc))) * flt_val m e < 2 ^ 61"
  shows "0 \<le> sint (GetRetryDelay L impl (NewRetryManager rc) attempt) \<and>
    sint (GetRetryDelay L impl (NewRetryManager rc) attempt) \<le> sint (AsDuration L (R_MaxDelay rc)) \<and>
    GetRetryDelay L impl (NewRetryManager rc) attempt = GetRetryDelay L impl' (NewRetryManager rc) attempt"
proof -
  have "normal_Retry L (Some rc)"
    using durationpb.normalize_establishes [OF assms(1,2)] assms(3) by (simp add: normal_config_def)
  with assms(4) have "0 \<le> m" "0 < sint (AsDuration L (R_InitialDelay rc))"
    "sint (AsDuration L (R_InitialDelay rc)) \<le> sint (AsDuration L (R_MaxDelay rc))"
    and le: "sint (GetRetryDelay L impl (NewRetryManager rc) attempt) \<le> sint (AsDuration L (R_MaxDelay rc))"
    using GetRetryDelay_le_max [of L "NewRetryManager rc"] durationpb.set_dur_pos [OF assms(1)]
    by (auto simp: normal_Retry_def NewRetryManager_def)
  with retry_loop_in_range [OF this(1) assms(5), of "AsDuration L (R_InitialDelay rc)" _ impl impl']
    retry_loop_in_range [OF this(1) assms(5), of "AsDuration L (R_InitialDelay rc)" _ impl' impl'] show ?thesis
    by (auto simp: GetRetryDelay_def NewRetryManager_def assms(4))
qed

text \<open>The default configuration with a multiplier of one and a half.\<close>

definition gentle_retry :: Retry where
  "gentle_retry = (default_Retry durationpb_doc)\<lparr>R_RetryDelayMultiplier := Fin 3 (- 1)\<rparr>"

definition gentle_config :: Pulsar where
  "gentle_config = (defaultPulsarConfig durationpb_doc)\<lparr>RetryConf := Some gentle_retry\<rparr>"

lemma gentle_normal: "normalizePulsarConfig durationpb_doc (Some gentle_config) = Inr gentle_config"
proof (rule normalize_normal)
  have "normal_Retry durationpb_doc (Some gentle_retry)"
    using normal_default_Retry [OF doc.durationpb_axioms]
    by (simp add: normal_Retry_def gentle_retry_def)
  with doc.normal_default show "normal_config durationpb_doc gentle_config"
    by (simp add: normal_config_def gentle_config_def)
qed

theorem retry_delay_in_range_witness:
  "0 \<le> sint (GetRetryDelay durationpb_doc (\<lambda>_. 0) (NewRetryManager gentle_retry) 7) \<and>
     sint (GetRetryDelay durationpb_doc (\<lambda>_. 0) (NewRetryManager gentle_retry) 7) \<le> 30000000000"
proof -
  have max: "sint (AsDuration durationpb_doc (R_MaxDelay gentle_retry)) = 30000000000"
    by (simp add: gentle_retry_def default_Retry_def doc.as_new)
  have "flt_val 3 (- 1) = 3 / 2" by (simp add: flt_val_def)
  then have small: "real_of_int (sint (AsDuration durationpb_doc (R_MaxDelay gentle_retry))) *
      flt_val 3 (- 1) < 2 ^ 61" unfolding max by simp
  have "RetryConf gentle_config = Some gentle_retry" "R_RetryDelayMultiplier gentle_retry = Fin 3 (- 1)"
    by (simp_all add: gentle_config_def gentle_retry_def)
  from retry_delay_in_range [OF doc.durationpb_axioms gentle_normal this small] show ?thesis
    unfolding max by blast
qed

section \<open>Statistics\<close>

lemma rm_wf_New: "rm_wf (NewRetryManager config)"
  by (simp add: rm_wf_def NewRetryManager_def)

text \<open>The snapshot is a copy of the outer map.\<close>

lemma GetRetryStats_get: "go_wf (RM_stats r) \<Longrightarrow> go_get (GetRetryStats r) k = go_get (RM_stats r) k"
proof -
  assume "go_wf (RM_stats r)"
  then have "map_of (rev (RM_stats r)) = map_of (RM_stats r)"
    by (subst map_of_inject_set) (simp_all add: go_wf_def go_keys_def flip: rev_map)
  then show ?thesis
    unfolding GetRetryStats_def by (subst gm.get_put_all) (simp add: go_get_def split: option.split)
qed

definition address_of :: "RetryManager \<Rightarrow> string \<Rightarrow> nat" where
  "address_of r operation =
     (case go_get (RM_stats r) operation of Some a \<Rightarrow> a | None \<Rightarrow> length (RM_heap r))"

definition recorded :: "int64 \<Rightarrow> string option \<Rightarrow> time \<Rightarrow> op_stats \<Rightarrow> op_stats" where
  "recorded attempt err now s =
     go_put ''last_retry'' (AnyTime now)
       (go_put ''last_error'' (case err of Some e \<Rightarrow> AnyString e | None \<Rightarrow> AnyNil)
         (go_put ''attempts'' (AnyInt attempt) s))"

lemma RecordRetry_stats:
  "RM_stats (RecordRetry op attempt err now r) =
     (if go_get (RM_stats r) op = None then go_put op (address_of r op) (RM_stats r) else RM_stats r)"
  by (auto simp: RecordRetry_def address_of_def Let_def split: option.splits)

lemma RecordRetry_heap:
  "RM_heap (RecordRetry op attempt err now r) =
     (let h = (if go_get (RM_stats r) op = None then RM_heap r @ [[]] else RM_heap r)
      in h[address_of r op := recorded attempt err now (h ! address_of r op)])"
  by (auto simp: RecordRetry_def address_of_def recorded_def Let_def split: option.splits)

lemma rm_wf_RecordRetry: "rm_wf r \<Longrightarrow> rm_wf (RecordRetry op attempt err now r)"
  by (cases "go_get (RM_stats r) op")
    (auto simp: rm_wf_def RecordRetry_stats RecordRetry_heap address_of_def Let_def less_Suc_eq)

lemma read_after_RecordRetry:
  assumes "rm_wf r" and "go_get snapshot k = go_get (RM_stats (RecordRetry op attempt err now r)) k"
  shows "read_stats (RecordRetry op attempt err now r) snapshot k =
    (if k = op then Some (recorded attempt err now (case read_stats r (RM_stats r) op of
        Some s \<Rightarrow> s | None \<Rightarrow> []))
     else read_stats r (RM_stats r) k)"
proof -
  have fresh: "address_of r op \<noteq> b" "b < length (RM_heap r)"
    if "k \<noteq> op" "go_get (RM_stats r) k = Some b" for b
    using assms(1) that by (auto simp: rm_wf_def address_of_def split: option.splits)
  have own: "b < length (RM_heap r)" if "go_get (RM_stats r) op = Some b" for b
    using assms(1) that by (auto simp: rm_wf_def)
  show ?thesis
    using assms(2) fresh own
    by (cases "go_get (RM_stats r) op"; cases "go_get (RM_stats r) k")
      (auto simp: read_stats_def RecordRetry_stats RecordRetry_heap Let_def address_of_def
         nth_append split: if_splits)
qed

text \<open>After \<open>RecordRetry\<close>, the statistics of the operation hold the attempt, the text of
  the error (nil when there was none) and the time just recorded, and the statistics of every
  other operation are what they were.\<close>

theorem record_retry_updates:
  assumes "rm_wf r" and r': "r' = RecordRetry op attempt err now r"
  shows "(\<exists>s. read_stats r' (GetRetryStats r') op = Some s \<and>
      go_get s ''attempts'' = Some (AnyInt attempt) \<and>
      go_get s ''last_error'' = Some (case err of Some e \<Rightarrow> AnyString e | None \<Rightarrow> AnyNil) \<and>
      go_get s ''last_retry'' = Some (AnyTime now)) \<and>
    (\<forall>k. k \<noteq> op \<longrightarrow>
      read_stats r' (GetRetryStats r') k = read_stats r (GetRetryStats r) k)"
proof -
  have wf: "go_wf (RM_stats r)" "go_wf (RM_stats r')"
    using assms rm_wf_RecordRetry [of r op attempt err now] by (auto simp: rm_wf_def)
  have read: "read_stats r' (GetRetryStats r') k = (if k = op then
        Some (recorded attempt err now (case read_stats r (RM_stats r) op of
          Some s \<Rightarrow> s | None \<Rightarrow> [])) else read_stats r (RM_stats r) k)" for k
    unfolding r' using assms(1) wf(2)
    by (intro read_after_RecordRetry) (auto simp: GetRetryStats_get r')
  have "read_stats r (GetRetryStats r) k = read_stats r (RM_stats r) k" for k
    by (simp add: read_stats_def GetRetryStats_get wf)
  with read show ?thesis by (simp add: recorded_def)
qed

definition retried_once :: RetryManager where
  "retried_once = RecordRetry ''send'' 1 None 7 (NewRetryManager (default_Retry durationpb_doc))"

lemma rm_wf_retried_once: "rm_wf retried_once"
  by (simp add: retried_once_def rm_wf_RecordRetry rm_wf_New)

theorem record_retry_updates_witness:
  "\<exists>s. read_stats (RecordRetry ''send'' 2 (Some ''timeout'') 9 retried_once)
     (GetRetryStats (RecordRetry ''send'' 2 (Some ''timeout'') 9 retried_once)) ''send'' = Some s \<and>
     go_get s ''attempts'' = Some (AnyInt 2)"
  using record_retry_updates [OF rm_wf_retried_once refl, of "''send''" 2 "Some ''timeout''" 9] by blast

text \<open>Claim C39: the map that \<open>GetRetryStats\<close> returns is not a snapshot: a later \<open>RecordRetry\<close> of an
  operation it contains shows through it, because only the outer map is copied.\<close>

theorem retry_stats_aliased:
  assumes "rm_wf r" and "go_get (GetRetryStats r) op \<noteq> None"
  shows "\<exists>s. read_stats (RecordRetry op attempt err now r) (GetRetryStats r) op = Some s \<and>
    go_get s ''attempts'' = Some (AnyInt attempt)"
proof -
  have wf: "go_wf (RM_stats r)" using assms(1) by (simp add: rm_wf_def)
  have "go_get (GetRetryStats r) op = go_get (RM_stats (RecordRetry op attempt err now r)) op"
    using assms(2) by (simp add: GetRetryStats_get wf RecordRetry_stats)
  from read_after_RecordRetry [OF assms(1) this] show ?thesis
    by (simp add: recorded_def)
qed

theorem retry_stats_aliased_witness:
  "\<exists>s. read_stats (RecordRetry ''send'' 5 None 9 retried_once) (GetRetryStats retried_once) ''send''
     = Some s \<and> go_get s ''attempts'' = Some (AnyInt 5)"
  by (rule retry_stats_aliased [OF rm_wf_retried_once])
    (simp add: GetRetryStats_get rm_wf_retried_once [unfolded rm_wf_def] retried_once_def
      RecordRetry_stats NewRetryManager_def)

end
