(* ===== verification/Client.thy ===== *)
theory Client
  imports Options Managers
begin

text \<open>
  The state of the plugin, the struct \<open>PulsarClient\<close> of \<open>pulsar.go\<close>, and the world it runs in.
  The broker client library, the plugin runtime and the Prometheus instruments are third-party
  code. Every call to them is recorded, with its answer, in the ghost field \<open>events\<close>, and the
  answers come from the parameter \<open>E\<close>, functions of all that happened before: nothing is
  assumed about them. Objects of the client library are opaque handles, a nil interface is
  \<open>None\<close>.
\<close>

section \<open>Outside calls\<close>

type_synonym handle = nat
type_synonym bytes = "char list"

record ProducerMessage =
  MsgPayload :: bytes
  MsgKey :: string
  MsgProperties :: "string go_map option"

datatype counter =
    ProducerSent | ProducerFailed | ConsumerReceived | ConsumerFailed
  | ConnErrors | Reconnections | HealthErrors

datatype histogram = ProducerLatency | ConsumerLatency

datatype resource =
    ResBool bool
  | ResPlugin
  | ResConfig Pulsar
  | ResClient handle
  | ResProducers "handle option go_map"
  | ResConsumers "handle option go_map"
  | ResConnectionManager
  | ResHealthChecker
  | ResRetryManager
  | ResMetrics

type_synonym message = nat \<comment> \<open>a received \<open>pulsar.Message\<close>\<close>

datatype event =
    EvNewClient ClientOptions "string + handle option"
  | EvClientClose handle
  | EvCreateProducer handle PulsarProducerOptions "string + handle option"
  | EvProducerSend handle "ProducerMessage option" "string option" \<comment> \<open>the message may be nil\<close>
  | EvProducerSendAsync handle ProducerMessage
  | EvProducerClose handle
  | EvSubscribe handle PulsarConsumerOptions "string + handle option"
  | EvConsumerUnsubscribe handle "string option"
  | EvConsumerClose handle
  | EvAck handle message
  | EvNack handle message
  | EvRegisterShared string resource "string option"
  | EvRegisterPrivate string resource "string option"
  | EvInc counter
  | EvObserve histogram
  | EvCancel nat             \<comment> \<open>a call of the \<open>cancel\<close> function of a receive loop\<close>
  | EvGoProbe duration       \<comment> \<open>\<open>go h.run()\<close> with the checker's interval\<close>
  | EvCallback "string option" \<comment> \<open>the user's callback of \<open>ProduceAsync\<close>\<close>

record env =
  e_auth :: "event list \<Rightarrow> auth_lib"
  e_NewClient :: "event list \<Rightarrow> ClientOptions \<Rightarrow> string + handle option"
  e_CreateProducer :: "event list \<Rightarrow> handle \<Rightarrow> PulsarProducerOptions \<Rightarrow> string + handle option"
  e_Subscribe :: "event list \<Rightarrow> handle \<Rightarrow> PulsarConsumerOptions \<Rightarrow> string + handle option"
  e_Send :: "event list \<Rightarrow> handle \<Rightarrow> ProducerMessage option \<Rightarrow> string option"
  e_Unsubscribe :: "event list \<Rightarrow> handle \<Rightarrow> string option"
  e_RegisterShared :: "event list \<Rightarrow> string \<Rightarrow> resource \<Rightarrow> string option"
  e_RegisterPrivate :: "event list \<Rightarrow> string \<Rightarrow> resource \<Rightarrow> string option"
  e_order :: "event list \<Rightarrow> string list \<Rightarrow> string list" \<comment> \<open>the next map iteration\<close>

text \<open>\<open>ctx.Err()\<close> at the successive points where an operation asks; \<open>context.Background()\<close>
  never has an error.\<close>

datatype ctx_err = Canceled | DeadlineExceeded

type_synonym ctx = "nat \<Rightarrow> ctx_err option"

definition Background :: ctx where
  "Background = (\<lambda>_. None)"

section \<open>Errors\<close>

text \<open>One constructor per \<open>fmt.Errorf\<close>; a wrapped error is an argument. Errors of third-party
  code are identified by their text.\<close>

datatype go_error =
    ErrInvalidConfiguration
  | ErrConfig config_error
  | ErrExternal string
  | ScanFailed string
  | ClientNotInitialized
  | ClientNotConnected
  | CreateProducerFailed string go_error
  | CreateConsumerFailed string go_error
  | CreateClientFailed string
  | InitProducersFailed go_error
  | InitConsumersFailed go_error
  | RegisterSharedFailed string
  | StartupCanceledBefore ctx_err
  | StartupCanceledAfterClient ctx_err
  | StartupCanceledAfterProducers ctx_err
  | CleanupCanceled ctx_err
  | StopCanceled ctx_err
  | InitializeCanceled ctx_err
  | NoDefaultProducer
  | ProducerNotFound string
  | SendFailed string
  | BatchSendFailed nat string
  | HandlerIsNil
  | ShuttingDown
  | ConsumerNotFound string
  | SubscriptionActive string
  | RegexClientNil
  | RegexSubscribeFailed string string
  | RegexActive string
  | HandlerFailed string
  | HandlerPanicked string
  | PluginNotFound
  | NamedPluginNotFound string

section \<open>State\<close>

record Metrics =
  MessagesSent :: int64
  MessagesReceived :: int64
  MessagesFailed :: int64
  TotalBytesSent :: int64
  TotalBytesReceived :: int64
  AverageSendLatency :: duration
  AverageReceiveLatency :: duration
  SendErrors :: int64
  ReceiveErrors :: int64
  ConnectionErrors :: int64
  ActiveConnections :: int64
  TotalConnections :: int64
  TotalRetries :: int64
  RetryErrors :: int64

definition zero_Metrics :: Metrics where
  "zero_Metrics =
     \<lparr>MessagesSent = 0, MessagesReceived = 0, MessagesFailed = 0, TotalBytesSent = 0,
      TotalBytesReceived = 0, AverageSendLatency = 0, AverageReceiveLatency = 0,
      SendErrors = 0, ReceiveErrors = 0, ConnectionErrors = 0, ActiveConnections = 0,
      TotalConnections = 0, TotalRetries = 0, RetryErrors = 0\<rparr>"

record HealthStatus =
  Healthy :: bool
  LastCheck :: "time option"
  ErrorCount :: int64
  LastError :: "string option"
  ProducerStatus :: "bool go_map"
  ConsumerStatus :: "bool go_map"
  ConnectionStatus :: bool
  HealthMetrics :: "Metrics option"

definition zero_HealthStatus :: HealthStatus where
  "zero_HealthStatus =
     \<lparr>Healthy = False, LastCheck = None, ErrorCount = 0, LastError = None,
      ProducerStatus = [], ConsumerStatus = [], ConnectionStatus = False,
      HealthMetrics = None\<rparr>"

text \<open>
  A receive loop in progress: its cancel function, the name it is registered under, the
  consumer it drains (nil if the client library returned a nil consumer), and whether \<open>SubscribeWithRegex\<close> started it. The counter of \<open>recvWG\<close> is
  the number of loops.
\<close>

record recv_loop =
  loop_id :: nat
  loop_name :: string
  loop_consumer :: "handle option"
  loop_regex :: bool

record PulsarClient =
  config :: Pulsar
  rt :: bool                              \<comment> \<open>\<open>rt != nil\<close>\<close>
  client :: "handle option"
  producers :: "handle option go_map"
  consumers :: "handle option go_map"
  closeChan_closed :: bool
  closeOnce_done :: bool
  closed :: bool
  loops :: "recv_loop list"
  next_loop :: nat                        \<comment> \<open>ghost: the next fresh \<open>loop_id\<close>\<close>
  subscriptions :: "nat go_map"
  metrics :: "Metrics option"
  healthStatus :: "HealthStatus option"
  healthChecker :: "HealthChecker option"
  connectionManager :: "ConnectionManager option"
  retryManager :: "RetryManager option"
  events :: "event list"                  \<comment> \<open>ghost: the outside calls so far\<close>

text \<open>The registration of the Prometheus instruments, which \<open>NewPulsarClient\<close> does on the side and which
  may panic, is added in theory \<open>PromMetrics\<close> (\<open>new_registered\<close>).\<close>

definition NewPulsarClient :: "durationpb_lib \<Rightarrow> PulsarClient" where
  "NewPulsarClient L =
     \<lparr>config = defaultPulsarConfig L, rt = False, client = None, producers = [], consumers = [],
      closeChan_closed = False, closeOnce_done = False, closed = False, loops = [],
      next_loop = 0, subscriptions = [], metrics = Some zero_Metrics,
      healthStatus = Some zero_HealthStatus, healthChecker = None, connectionManager = None,
      retryManager = None, events = []\<rparr>"

end
