(* ===== verification/Resources.thy ===== *)
theory Resources
  imports Client
begin

text \<open>
  Creation and release of broker resources: \<open>createProducer\<close>, \<open>createConsumer\<close>, the
  initialization loops, \<open>stopReceivers\<close> and \<open>closeAllResources\<close> of \<open>pulsar.go\<close>, with the getters
  and setters they use. An operation takes the world \<open>E\<close> and the state and returns its result
  with the new state.
\<close>

section \<open>Accessors\<close>

definition emit :: "event \<Rightarrow> PulsarClient \<Rightarrow> PulsarClient" where
  "emit ev p = p\<lparr>events := events p @ [ev]\<rparr>"

definition emits :: "event list \<Rightarrow> PulsarClient \<Rightarrow> PulsarClient" where
  "emits evs p = p\<lparr>events := events p @ evs\<rparr>"

definition setClient :: "handle option \<Rightarrow> PulsarClient \<Rightarrow> PulsarClient" where
  "setClient c p = p\<lparr>client := c\<rparr>"

definition getClient :: "PulsarClient \<Rightarrow> handle option" where
  "getClient p = client p"

definition isClosed :: "PulsarClient \<Rightarrow> bool" where
  "isClosed p = closed p"

text \<open>A nil entry of the configuration is dereferenced by the loop and panics.\<close>

fun enabled_of :: "('a \<Rightarrow> bool) \<Rightarrow> 'a option list \<Rightarrow> go_panic + 'a list" where
  "enabled_of en [] = Inr []"
| "enabled_of en (None # xs) = Inl NilPointerDereference"
| "enabled_of en (Some x # xs) =
     bindE (enabled_of en xs) (\<lambda>ys. Inr (if en x then x # ys else ys))"

definition GetEnabledProducers :: "PulsarClient \<Rightarrow> go_panic + Producer list" where
  "GetEnabledProducers p = enabled_of P_Enabled (Producers (config p))"

definition GetEnabledConsumers :: "PulsarClient \<Rightarrow> go_panic + Consumer list" where
  "GetEnabledConsumers p = enabled_of C_Enabled (Consumers (config p))"

section \<open>Creation\<close>

definition createProducer ::
  "env \<Rightarrow> durationpb_lib \<Rightarrow> Producer \<Rightarrow> PulsarClient \<Rightarrow> go_error option \<times> PulsarClient" where
  "createProducer E L cfg p =
     (let options = producer_options L cfg
      in case getClient p of
           None \<Rightarrow> (Some ClientNotInitialized, p)
         | Some c \<Rightarrow>
             let ans = e_CreateProducer E (events p) c options;
                 p1 = emit (EvCreateProducer c options ans) p
             in case ans of
                  Inl err \<Rightarrow> (Some (ErrExternal err), p1)
                | Inr producer \<Rightarrow>
                    (None, p1\<lparr>producers := go_put (P_Name cfg) producer (producers p1)\<rparr>))"

definition createConsumer ::
  "env \<Rightarrow> durationpb_lib \<Rightarrow> Consumer \<Rightarrow> PulsarClient \<Rightarrow> go_error option \<times> PulsarClient" where
  "createConsumer E L cfg p =
     (let options = consumer_options L cfg
      in case getClient p of
           None \<Rightarrow> (Some ClientNotInitialized, p)
         | Some c \<Rightarrow>
             let ans = e_Subscribe E (events p) c options;
                 p1 = emit (EvSubscribe c options ans) p
             in case ans of
                  Inl err \<Rightarrow> (Some (ErrExternal err), p1)
                | Inr consumer \<Rightarrow>
                    (None, p1\<lparr>consumers := go_put (C_Name cfg) consumer (consumers p1)\<rparr>))"

text \<open>The loops of \<open>initializeProducers\<close> and \<open>initializeConsumers\<close> stop at the first error, which
  they wrap.\<close>

fun create_all ::
  "('cfg \<Rightarrow> PulsarClient \<Rightarrow> go_error option \<times> PulsarClient) \<Rightarrow> ('cfg \<Rightarrow> go_error \<Rightarrow> go_error) \<Rightarrow>
   'cfg list \<Rightarrow> PulsarClient \<Rightarrow> go_error option \<times> PulsarClient" where
  "create_all create wrap [] p = (None, p)"
| "create_all create wrap (cfg # cfgs) p =
     (case create cfg p of
        (Some err, p1) \<Rightarrow> (Some (wrap cfg err), p1)
      | (None, p1) \<Rightarrow> create_all create wrap cfgs p1)"

definition initializeProducers ::
  "env \<Rightarrow> durationpb_lib \<Rightarrow> PulsarClient \<Rightarrow> go_panic + go_error option \<times> PulsarClient" where
  "initializeProducers E L p =
     bindE (GetEnabledProducers p) (\<lambda>cfgs.
     Inr (create_all (createProducer E L) (\<lambda>cfg. CreateProducerFailed (P_Name cfg)) cfgs p))"

definition initializeConsumers ::
  "env \<Rightarrow> durationpb_lib \<Rightarrow> PulsarClient \<Rightarrow> go_panic + go_error option \<times> PulsarClient" where
  "initializeConsumers E L p =
     bindE (GetEnabledConsumers p) (\<lambda>cfgs.
     Inr (create_all (createConsumer E L) (\<lambda>cfg. CreateConsumerFailed (C_Name cfg)) cfgs p))"

section \<open>Release\<close>

text \<open>
  The deferred calls of a receive loop, in the order they run when its goroutine returns: the
  clean-up function, \<open>cancel()\<close>, \<open>recvWG.Done()\<close>. A loop of \<open>SubscribeWith\<close> removes its entry of
  \<open>subscriptions\<close>; a loop of \<open>SubscribeWithRegex\<close> removes its consumer too.
\<close>

definition exit_loop :: "recv_loop \<Rightarrow> PulsarClient \<Rightarrow> PulsarClient" where
  "exit_loop l p =
     (let p1 = (if loop_regex l
                then p\<lparr>consumers := go_del (loop_name l) (consumers p),
                       subscriptions := go_del (loop_name l) (subscriptions p)\<rparr>
                else if go_get (subscriptions p) (loop_name l) \<noteq> None
                then p\<lparr>subscriptions := go_del (loop_name l) (subscriptions p)\<rparr>
                else p);
          p2 = emit (EvCancel (loop_id l)) p1
      in p2\<lparr>loops := remove1 l (loops p2)\<rparr>)"

text \<open>
  \<open>stopReceivers\<close>: the cancel functions are collected in the order of the map iteration and
  called after the lock is released; \<open>recvWG.Wait()\<close> returns when every loop has returned, so
  the state after it is the one in which all deferred calls have run. A dispatch that is under
  way when \<open>stopReceivers\<close> is called is a step of its own that comes before it here; how it and the
  loops interleave with the shutdown is the subject of theory \<open>ReceiveLoops\<close>.
\<close>

definition stopReceivers :: "env \<Rightarrow> PulsarClient \<Rightarrow> PulsarClient" where
  "stopReceivers E p =
     (let cancels = map snd (go_range (e_order E (events p) (go_keys (subscriptions p)))
                               (subscriptions p));
          p1 = p\<lparr>subscriptions := []\<rparr>;
          p2 = emits (map EvCancel cancels) p1
      in fold exit_loop (loops p2) p2)"

definition close_events :: "(handle \<Rightarrow> event) \<Rightarrow> (string \<times> handle option) list \<Rightarrow> event list" where
  "close_events ev entries = [ev h. (_, Some h) \<leftarrow> entries]"

definition closeAllResources :: "env \<Rightarrow> PulsarClient \<Rightarrow> PulsarClient" where
  "closeAllResources E p =
     (let p1 = stopReceivers E p;
          p2 = emits (close_events EvConsumerClose
                 (go_range (e_order E (events p1) (go_keys (consumers p1))) (consumers p1))) p1;
          p3 = p2\<lparr>consumers := []\<rparr>;
          p4 = emits (close_events EvProducerClose
                 (go_range (e_order E (events p3) (go_keys (producers p3))) (producers p3))) p3;
          p5 = p4\<lparr>producers := []\<rparr>
      in case client p5 of
           None \<Rightarrow> p5
         | Some c \<Rightarrow> (emit (EvClientClose c) p5)\<lparr>client := None\<rparr>)"

section \<open>Invariants of the state\<close>

text \<open>
  The maps are well formed, every running loop is registered under its name with its own
  cancel function and nothing else is registered, loop identities are distinct, the shutdown
  channel is closed exactly when its \<open>sync.Once\<close> is spent, and the managers satisfy their own
  invariants.
\<close>

definition client_wf :: "PulsarClient \<Rightarrow> bool" where
  "client_wf p \<longleftrightarrow>
     go_wf (producers p) \<and> go_wf (consumers p) \<and> go_wf (subscriptions p) \<and>
     distinct (map loop_id (loops p)) \<and>
     (\<forall>l\<in>set (loops p). go_get (subscriptions p) (loop_name l) = Some (loop_id l)) \<and>
     (\<forall>n i. go_get (subscriptions p) n = Some i \<longrightarrow>
        (\<exists>l\<in>set (loops p). loop_name l = n \<and> loop_id l = i)) \<and>
     (\<forall>l\<in>set (loops p). loop_id l < next_loop p) \<and>
     closeChan_closed p = closeOnce_done p \<and>
     (\<forall>h. healthChecker p = Some h \<longrightarrow> hc_inv h) \<and>
     (\<forall>c. connectionManager p = Some c \<longrightarrow> cm_inv c)"

end
