(* ===== verification/ResourcesSpec.thy ===== *)
theory ResourcesSpec
  imports Resources
begin

text \<open>
  What theory \<open>Resources\<close> does to the state and to the world: frame facts for every operation,
  the exact effect of \<open>closeAllResources\<close> (what is closed, in which order), and the account of
  created handles that a start-up keeps.
\<close>

section \<open>Frames\<close>

lemma emit_fields [simp]:
  "config (emit e p) = config p" "rt (emit e p) = rt p" "client (emit e p) = client p"
  "producers (emit e p) = producers p" "consumers (emit e p) = consumers p"
  "closeChan_closed (emit e p) = closeChan_closed p" "closeOnce_done (emit e p) = closeOnce_done p"
  "closed (emit e p) = closed p" "loops (emit e p) = loops p" "next_loop (emit e p) = next_loop p"
  "subscriptions (emit e p) = subscriptions p" "metrics (emit e p) = metrics p"
  "healthStatus (emit e p) = healthStatus p" "healthChecker (emit e p) = healthChecker p"
  "connectionManager (emit e p) = connectionManager p" "retryManager (emit e p) = retryManager p"
  "events (emit e p) = events p @ [e]"
  by (simp_all add: emit_def)

lemma emits_fields [simp]:
  "config (emits e p) = config p" "rt (emits e p) = rt p" "client (emits e p) = client p"
  "producers (emits e p) = producers p" "consumers (emits e p) = consumers p"
  "closeChan_closed (emits e p) = closeChan_closed p" "closeOnce_done (emits e p) = closeOnce_done p"
  "closed (emits e p) = closed p" "loops (emits e p) = loops p" "next_loop (emits e p) = next_loop p"
  "subscriptions (emits e p) = subscriptions p" "metrics (emits e p) = metrics p"
  "healthStatus (emits e p) = healthStatus p" "healthChecker (emits e p) = healthChecker p"
  "connectionManager (emits e p) = connectionManager p" "retryManager (emits e p) = retryManager p"
  "events (emits e p) = events p @ e"
  by (simp_all add: emits_def)

text \<open>The fields that no operation on resources touches.\<close>

definition same_control :: "PulsarClient \<Rightarrow> PulsarClient \<Rightarrow> bool" where
  "same_control p q \<longleftrightarrow>
     config q = config p \<and> rt q = rt p \<and> closeChan_closed q = closeChan_closed p \<and>
     closeOnce_done q = closeOnce_done p \<and> closed q = closed p \<and> next_loop q = next_loop p \<and>
     metrics q = metrics p \<and> healthStatus q = healthStatus p \<and>
     healthChecker q = healthChecker p \<and> connectionManager q = connectionManager p \<and>
     retryManager q = retryManager p"

lemma same_control_refl [simp]: "same_control p p"
  by (simp add: same_control_def)

lemma same_control_trans: "same_control p q \<Longrightarrow> same_control q r \<Longrightarrow> same_control p r"
  by (simp add: same_control_def)

section \<open>Stopping the receive loops\<close>

lemma exit_loop_control: "same_control p (exit_loop l p)"
  by (simp add: same_control_def exit_loop_def Let_def)

lemma exit_loop_fields:
  "client (exit_loop l p) = client p"
  "producers (exit_loop l p) = producers p"
  "consumers (exit_loop l p) =
     (if loop_regex l then go_del (loop_name l) (consumers p) else consumers p)"
  "loops (exit_loop l p) = remove1 l (loops p)"
  "events (exit_loop l p) = events p @ [EvCancel (loop_id l)]"
  "subscriptions p = [] \<Longrightarrow> subscriptions (exit_loop l p) = []"
  by (simp_all add: exit_loop_def Let_def go_del_def)

definition regex_names :: "recv_loop list \<Rightarrow> string list" where
  "regex_names ls = map loop_name (filter loop_regex ls)"

lemma fold_exit_loop_control: "same_control p (fold exit_loop ls p)"
  by (induction ls arbitrary: p) (auto intro: same_control_trans [OF exit_loop_control])

lemma fold_exit_loop:
  "client (fold exit_loop ls p) = client p"
  "producers (fold exit_loop ls p) = producers p"
  "consumers (fold exit_loop ls p) = foldl (\<lambda>m k. go_del k m) (consumers p) (regex_names ls)"
  "loops (fold exit_loop ls p) = fold remove1 ls (loops p)"
  "events (fold exit_loop ls p) = events p @ map (EvCancel \<circ> loop_id) ls"
  "subscriptions p = [] \<Longrightarrow> subscriptions (fold exit_loop ls p) = []"
  by (induction ls arbitrary: p) (auto simp: exit_loop_fields regex_names_def)

lemma fold_remove1_self: "fold remove1 xs (xs @ ys) = ys"
  by (induction xs) auto

text \<open>The cancel functions are called: first by \<open>stopReceivers\<close>, in some order, then by the
  loops as they return.\<close>

lemma stopReceivers_fields:
  "same_control p (stopReceivers E p)"
  "client (stopReceivers E p) = client p"
  "producers (stopReceivers E p) = producers p"
  "consumers (stopReceivers E p) = foldl (\<lambda>m k. go_del k m) (consumers p) (regex_names (loops p))"
  "loops (stopReceivers E p) = []"
  "subscriptions (stopReceivers E p) = []"
  "\<exists>is. events (stopReceivers E p) = events p @ map EvCancel is"
proof -
  show "same_control p (stopReceivers E p)"
    unfolding stopReceivers_def Let_def
    by (rule same_control_trans [OF _ fold_exit_loop_control]) (simp add: same_control_def)
  show "\<exists>is. events (stopReceivers E p) = events p @ map EvCancel is"
    unfolding stopReceivers_def Let_def
    by (intro exI [of _ "map snd (go_range (e_order E (events p) (go_keys (subscriptions p)))
      (subscriptions p)) @ map loop_id (loops p)"]) (simp add: fold_exit_loop)
qed (simp_all add: stopReceivers_def Let_def fold_exit_loop fold_remove1_self [where ys = "[]", simplified])

section \<open>Releasing everything\<close>

lemma set_close_events: "set (close_events ev es) = {ev h |h. \<exists>n. (n, Some h) \<in> set es}"
  by (auto simp: close_events_def split: option.splits)

text \<open>The consumers that are still registered once the loops have returned.\<close>

definition remaining_consumers :: "PulsarClient \<Rightarrow> handle option go_map" where
  "remaining_consumers p = foldl (\<lambda>m k. go_del k m) (consumers p) (regex_names (loops p))"

lemma go_wf_remaining: "go_wf (consumers p) \<Longrightarrow> go_wf (remaining_consumers p)"
  unfolding remaining_consumers_def by (rule go_wf_del_all)

lemma closeAllResources_state:
  "same_control p (closeAllResources E p)"
  "client (closeAllResources E p) = None"
  "producers (closeAllResources E p) = []"
  "consumers (closeAllResources E p) = []"
  "subscriptions (closeAllResources E p) = []"
  "loops (closeAllResources E p) = []"
proof -
  show "same_control p (closeAllResources E p)"
    by (rule same_control_trans [OF stopReceivers_fields(1) [of p E]])
      (simp add: closeAllResources_def Let_def same_control_def split: option.split)
qed (simp_all add: closeAllResources_def Let_def stopReceivers_fields split: option.split)

lemma closeAllResources_events:
  obtains ids ks ks' where "events (closeAllResources E p) =
     events p @ map EvCancel ids @
     close_events EvConsumerClose (go_range ks (remaining_consumers p)) @
     close_events EvProducerClose (go_range ks' (producers p)) @
     (case client p of None \<Rightarrow> [] | Some c \<Rightarrow> [EvClientClose c])"
proof -
  obtain ids where ids: "events (stopReceivers E p) = events p @ map EvCancel ids"
    using stopReceivers_fields(7) [of E p] by blast
  let ?p1 = "stopReceivers E p"
  let ?ks = "e_order E (events ?p1) (go_keys (consumers ?p1))"
  let ?cs = "close_events EvConsumerClose (go_range ?ks (consumers ?p1))"
  let ?ks' = "e_order E (events ?p1 @ ?cs) (go_keys (producers ?p1))"
  show ?thesis
    by (rule that [of ids ?ks ?ks'])
      (simp add: closeAllResources_def Let_def ids stopReceivers_fields remaining_consumers_def
        split: option.split)
qed

section \<open>Created handles\<close>

text \<open>The handle an event brought into being.\<close>

fun made_producer :: "event \<Rightarrow> handle option" where
  "made_producer (EvCreateProducer c opts (Inr h)) = h"
| "made_producer _ = None"

fun made_consumer :: "event \<Rightarrow> handle option" where
  "made_consumer (EvSubscribe c opts (Inr h)) = h"
| "made_consumer _ = None"

fun made_client :: "event \<Rightarrow> handle option" where
  "made_client (EvNewClient opts (Inr h)) = h"
| "made_client _ = None"

definition made_by :: "(event \<Rightarrow> handle option) \<Rightarrow> event list \<Rightarrow> handle set" where
  "made_by made evs = {h. \<exists>e\<in>set evs. made e = Some h}"

lemma made_by_simps [simp]:
  "made_by made [] = {}"
  "made_by made (e # evs) = (case made e of Some h \<Rightarrow> {h} | None \<Rightarrow> {}) \<union> made_by made evs"
  "made_by made (evs @ evs') = made_by made evs \<union> made_by made evs'"
  by (auto simp: made_by_def split: option.splits)

text \<open>
  The contract of creating one endpoint: a failure registers nothing and makes nothing; a
  success registers the answer under the configured name. The lemmas are about the loop over a
  list of configurations.
\<close>

locale endpoint_creation =
  fixes create :: "'cfg \<Rightarrow> PulsarClient \<Rightarrow> go_error option \<times> PulsarClient"
    and name :: "'cfg \<Rightarrow> string"
    and reg :: "PulsarClient \<Rightarrow> handle option go_map"
    and made :: "event \<Rightarrow> handle option"
  assumes create_fail: "create cfg p = (Some err, p') \<Longrightarrow>
      reg p' = reg p \<and> (\<exists>evs. events p' = events p @ evs \<and> made_by made evs = {})"
    and create_ok: "create cfg p = (None, p') \<Longrightarrow>
      \<exists>ev. events p' = events p @ [ev] \<and> reg p' = go_put (name cfg) (made ev) (reg p)"
begin

lemma create_all_frame:
  assumes "create_all create wrap cfgs p = (r, p')"
    and "\<And>cfg p r p'. create cfg p = (r, p') \<Longrightarrow> f p' = f p"
  shows "f p' = f p"
  using assms(1)
  by (induction cfgs arbitrary: p) (auto split: prod.splits option.splits dest: assms(2))

lemma create_all_other_names:
  assumes "create_all create wrap cfgs p = (r, p')" and "n \<notin> name ` set cfgs"
  shows "go_get (reg p') n = go_get (reg p) n"
  using assms
proof (induction cfgs arbitrary: p)
  case (Cons cfg cfgs)
  then show ?case
    by (auto split: prod.splits option.splits dest!: create_fail create_ok)
qed simp

lemma create_all_wf:
  assumes "create_all create wrap cfgs p = (r, p')" and "go_wf (reg p)"
  shows "go_wf (reg p')"
  using assms
proof (induction cfgs arbitrary: p)
  case (Cons cfg cfgs)
  then show ?case
    by (fastforce split: prod.splits option.splits dest: create_fail create_ok)
qed simp

text \<open>With distinct names every handle made is still registered at the end, under the name of
  one of the configurations, whether or not the loop stopped early.\<close>

lemma create_all_accounted:
  assumes "create_all create wrap cfgs p = (r, p')" and "distinct (map name cfgs)"
  shows "\<exists>evs. events p' = events p @ evs \<and>
    (\<forall>h\<in>made_by made evs. \<exists>cfg\<in>set cfgs. go_get (reg p') (name cfg) = Some (Some h))"
  using assms
proof (induction cfgs arbitrary: p)
  case Nil
  then show ?case by simp
next
  case (Cons cfg cfgs)
  obtain r1 p1 where c: "create cfg p = (r1, p1)" by fastforce
  show ?case
  proof (cases r1)
    case (Some err)
    with Cons.prems(1) c have "p' = p1" by simp
    with create_fail [of cfg p err p1] c Some show ?thesis by auto
  next
    case None
    with c create_ok obtain ev where ev: "events p1 = events p @ [ev]"
      "reg p1 = go_put (name cfg) (made ev) (reg p)" by blast
    from Cons.prems(1) c None have rest: "create_all create wrap cfgs p1 = (r, p')" by simp
    from Cons.IH [OF rest] Cons.prems(2) obtain evs where evs: "events p' = events p1 @ evs"
      "\<forall>h\<in>made_by made evs. \<exists>cfg\<in>set cfgs. go_get (reg p') (name cfg) = Some (Some h)" by auto
    have "go_get (reg p') (name cfg) = go_get (reg p1) (name cfg)"
      using rest Cons.prems(2) by (intro create_all_other_names) auto
    with ev(2) have "go_get (reg p') (name cfg) = Some (made ev)" by simp
    with ev evs show ?thesis by (intro exI [of _ "ev # evs"]) (auto split: option.splits)
  qed
qed

text \<open>A loop that ran to the end registered every name, in one call each.\<close>

lemma create_all_complete:
  assumes "create_all create wrap cfgs p = (None, p')"
  shows "\<exists>evs. events p' = events p @ evs \<and> length evs = length cfgs \<and>
    (\<forall>cfg\<in>set cfgs. go_get (reg p') (name cfg) \<noteq> None)"
  using assms
proof (induction cfgs arbitrary: p)
  case (Cons cfg cfgs)
  obtain r1 p1 where c: "create cfg p = (r1, p1)" by fastforce
  with Cons.prems have None: "r1 = None" by (cases r1) auto
  with c create_ok obtain ev where ev: "events p1 = events p @ [ev]"
    "reg p1 = go_put (name cfg) (made ev) (reg p)" by blast
  from Cons.prems c None have rest: "create_all create wrap cfgs p1 = (None, p')" by simp
  from Cons.IH [OF rest] obtain evs where evs: "events p' = events p1 @ evs"
    "length evs = length cfgs" "\<forall>cfg\<in>set cfgs. go_get (reg p') (name cfg) \<noteq> None" by blast
  have "go_get (reg p') (name cfg) \<noteq> None"
    using evs(3) create_all_other_names [OF rest, of "name cfg"] ev(2) by fastforce
  with ev evs show ?case by (intro exI [of _ "ev # evs"]) auto
qed simp

end

interpretation prod: endpoint_creation "createProducer E L" P_Name producers made_producer for E L
  by unfold_locales
    (auto simp: createProducer_def getClient_def Let_def split: option.splits sum.splits)

interpretation cons: endpoint_creation "createConsumer E L" C_Name consumers made_consumer for E L
  by unfold_locales
    (auto simp: createConsumer_def getClient_def Let_def split: option.splits sum.splits)

lemma createProducer_frame:
  "createProducer E L cfg p = (r, p') \<Longrightarrow> same_control p p' \<and> client p' = client p \<and>
     consumers p' = consumers p \<and> loops p' = loops p \<and> subscriptions p' = subscriptions p"
  by (auto simp: createProducer_def getClient_def Let_def same_control_def
      split: option.splits sum.splits)

lemma createConsumer_frame:
  "createConsumer E L cfg p = (r, p') \<Longrightarrow> same_control p p' \<and> client p' = client p \<and>
     producers p' = producers p \<and> loops p' = loops p \<and> subscriptions p' = subscriptions p"
  by (auto simp: createConsumer_def getClient_def Let_def same_control_def
      split: option.splits sum.splits)


end
