(* ===== verification/Lifecycle.thy ===== *)
theory Lifecycle
  imports Resources
begin

text \<open>
  The life cycle of the plugin: configuration, initialization, start-up, clean-up, the runtime
  contract it publishes, and the health and connection queries (\<open>pulsar.go\<close>,
  \<open>runtime_contract.go\<close>, \<open>lifecycle_context.go\<close>). Log calls are not modelled. An operation that
  may panic returns a sum; the state of a panicked operation is not described.
\<close>

section \<open>Registering resources with the runtime\<close>

definition pluginName :: string where
  "pluginName = ''pulsar.client''"

definition confPrefix :: string where
  "confPrefix = ''lynx.pulsar''"

definition sharedPluginResourceName :: string where
  "sharedPluginResourceName = pluginName @ ''.plugin''"

definition sharedReadinessResourceName :: string where
  "sharedReadinessResourceName = pluginName @ ''.readiness''"

definition sharedHealthResourceName :: string where
  "sharedHealthResourceName = pluginName @ ''.health''"

definition privateReadinessResourceName :: string where
  "privateReadinessResourceName = ''readiness''"

definition privateHealthResourceName :: string where
  "privateHealthResourceName = ''health''"

definition RegisterSharedResource ::
  "env \<Rightarrow> string \<Rightarrow> resource \<Rightarrow> PulsarClient \<Rightarrow> string option \<times> PulsarClient" where
  "RegisterSharedResource E name v p =
     (let ans = e_RegisterShared E (events p) name v in (ans, emit (EvRegisterShared name v ans) p))"

definition RegisterPrivateResource ::
  "env \<Rightarrow> string \<Rightarrow> resource \<Rightarrow> PulsarClient \<Rightarrow> string option \<times> PulsarClient" where
  "RegisterPrivateResource E name v p =
     (let ans = e_RegisterPrivate E (events p) name v in (ans, emit (EvRegisterPrivate name v ans) p))"

definition registerRuntimePluginAlias :: "env \<Rightarrow> PulsarClient \<Rightarrow> PulsarClient" where
  "registerRuntimePluginAlias E p =
     (if \<not> rt p then p else snd (RegisterSharedResource E sharedPluginResourceName ResPlugin p))"

definition publishRuntimeContract :: "env \<Rightarrow> bool \<Rightarrow> bool \<Rightarrow> PulsarClient \<Rightarrow> PulsarClient" where
  "publishRuntimeContract E ready healthy p =
     (if \<not> rt p then p
      else
        let p1 = foldl (\<lambda>p (name, value). snd (RegisterSharedResource E name (ResBool value) p)) p
                   [(sharedReadinessResourceName, ready), (sharedHealthResourceName, healthy)];
            p2 = snd (RegisterPrivateResource E privateReadinessResourceName (ResBool ready) p1)
        in snd (RegisterPrivateResource E privateHealthResourceName (ResBool healthy) p2))"

section \<open>Configuration and initialization\<close>

text \<open>The argument of type \<open>any\<close>: a \<open>*conf.Pulsar\<close>, perhaps nil, or a value of another type.\<close>

datatype config_arg = ConfPulsar "Pulsar option" | ConfOther

definition Configure ::
  "durationpb_lib \<Rightarrow> (Pulsar \<Rightarrow> Pulsar option) \<Rightarrow> config_arg \<Rightarrow> PulsarClient \<Rightarrow>
   go_error option \<times> PulsarClient" where
  "Configure L proto_clone c p =
     (case c of
        ConfOther \<Rightarrow> (Some ErrInvalidConfiguration, p)
      | ConfPulsar pulsarConf \<Rightarrow>
          (case clonePulsarConfig proto_clone pulsarConf of
             None \<Rightarrow> (Some ErrInvalidConfiguration, p)
           | Some normalized \<Rightarrow>
               (case normalizePulsarConfig L (Some normalized) of
                  Inl err \<Rightarrow> (Some (ErrConfig err), p)
                | Inr normalized' \<Rightarrow> (None, p\<lparr>config := normalized'\<rparr>))))"

text \<open>
  The runtime as \<open>InitializeResources\<close> sees it: its configuration may be nil; scanning it into
  a structure may fail and leaves the structure changed either way.
\<close>

datatype scan_error = ScanNotFound | ScanOther string

record runtime =
  rt_GetConfig :: "(Pulsar \<Rightarrow> scan_error option \<times> Pulsar) option"

definition scan_config :: "runtime option \<Rightarrow> Pulsar \<Rightarrow> go_error + Pulsar" where
  "scan_config r cfg =
     (case Option.bind r rt_GetConfig of
        None \<Rightarrow> Inr cfg
      | Some scan \<Rightarrow>
          (case scan cfg of
             (Some (ScanOther e), _) \<Rightarrow> Inl (ScanFailed e)
           | (_, cfg') \<Rightarrow> Inr cfg'))"

definition InitializeResources ::
  "durationpb_lib \<Rightarrow> (runtime option \<Rightarrow> string option) \<Rightarrow> runtime option \<Rightarrow> PulsarClient \<Rightarrow>
   go_error option \<times> PulsarClient" where
  "InitializeResources L base_init r p =
     (case base_init r of
        Some err \<Rightarrow> (Some (ErrExternal err), p)
      | None \<Rightarrow>
          let p1 = p\<lparr>rt := r \<noteq> None\<rparr>
          in case scan_config r (defaultPulsarConfig L) of
               Inl err \<Rightarrow> (Some err, p1)
             | Inr cfg \<Rightarrow>
                 (case normalizePulsarConfig L (Some cfg) of
                    Inl err \<Rightarrow> (Some (ErrConfig err), p1)
                  | Inr cfg' \<Rightarrow>
                      let p2 = p1\<lparr>config := cfg'\<rparr>;
                          p3 = (case MonitoringConf (config p2) of
                                  None \<Rightarrow> p2
                                | Some m \<Rightarrow> p2\<lparr>healthChecker := Some (NewHealthChecker
                                    (AsDuration L (M_HealthCheckInterval m)))\<rparr>);
                          p4 = (case ConnectionConf (config p3) of
                                  None \<Rightarrow> p3
                                | Some c \<Rightarrow> p3\<lparr>connectionManager := Some (NewConnectionManager c)\<rparr>);
                          p5 = (case RetryConf (config p4) of
                                  None \<Rightarrow> p4
                                | Some c \<Rightarrow> p4\<lparr>retryManager := Some (NewRetryManager c)\<rparr>)
                      in (None, p5)))"

section \<open>Queries\<close>

text \<open>\<open>CheckHealth\<close> only logs about nil producers and consumers.\<close>

definition CheckHealth :: "PulsarClient \<Rightarrow> go_error option" where
  "CheckHealth p =
     (if getClient p = None then Some ClientNotInitialized
      else if (case connectionManager p of
                 None \<Rightarrow> False | Some c \<Rightarrow> \<not> ConnectionManager_IsConnected c)
      then Some ClientNotConnected
      else None)"

definition IsConnected :: "PulsarClient \<Rightarrow> bool" where
  "IsConnected p =
     (if closed p \<or> client p = None then False
      else case connectionManager p of
             Some c \<Rightarrow> ConnectionManager_IsConnected c
           | None \<Rightarrow> True)"

definition GetPulsarConfig :: "PulsarClient \<Rightarrow> Pulsar" where
  "GetPulsarConfig p = config p"

definition GetClient :: "PulsarClient \<Rightarrow> handle option" where
  "GetClient p = getClient p"

definition GetMetrics :: "PulsarClient \<Rightarrow> Metrics option" where
  "GetMetrics p = metrics p"

definition GetHealth :: "PulsarClient \<Rightarrow> HealthStatus" where
  "GetHealth p = (case healthStatus p of None \<Rightarrow> zero_HealthStatus | Some h \<Rightarrow> h)"

section \<open>Start-up\<close>

text \<open>\<open>go h.run()\<close>: the goroutine panics at once if the interval is not positive.\<close>

definition start_health_checker :: "PulsarClient \<Rightarrow> PulsarClient" where
  "start_health_checker p =
     (case MonitoringConf (config p) of
        None \<Rightarrow> p
      | Some m \<Rightarrow>
          (case healthChecker p of
             Some h \<Rightarrow> if M_EnableHealthCheck m then emit (EvGoProbe (HC_interval h)) p else p
           | None \<Rightarrow> p))"

definition start_connection_manager :: "PulsarClient \<Rightarrow> PulsarClient" where
  "start_connection_manager p =
     (case connectionManager p of
        None \<Rightarrow> p
      | Some c \<Rightarrow> p\<lparr>connectionManager := Some (ConnectionManager_Start c)\<rparr>)"

text \<open>A registration whose failure is only logged.\<close>

definition register_private_if ::
  "env \<Rightarrow> bool \<Rightarrow> string \<Rightarrow> resource \<Rightarrow> PulsarClient \<Rightarrow> PulsarClient" where
  "register_private_if E cond name v p =
     (if cond then snd (RegisterPrivateResource E name v p) else p)"

definition register_resources :: "env \<Rightarrow> PulsarClient \<Rightarrow> go_error option \<times> PulsarClient" where
  "register_resources E p =
     (if \<not> rt p then (None, p)
      else
        case RegisterSharedResource E pluginName ResPlugin p of
          (Some err, p1) \<Rightarrow>
            (Some (RegisterSharedFailed err), publishRuntimeContract E False False p1)
        | (None, p1) \<Rightarrow>
            let q1 = registerRuntimePluginAlias E p1;
                q2 = register_private_if E True ''config'' (ResConfig (config q1)) q1;
                q3 = (case client q2 of
                        None \<Rightarrow> q2
                      | Some c \<Rightarrow> register_private_if E True ''client'' (ResClient c) q2);
                q4 = register_private_if E (producers q3 \<noteq> []) ''producers''
                       (ResProducers (producers q3)) q3;
                q5 = register_private_if E (consumers q4 \<noteq> []) ''consumers''
                       (ResConsumers (consumers q4)) q4;
                q6 = register_private_if E (connectionManager q5 \<noteq> None) ''connection_manager''
                       ResConnectionManager q5;
                q7 = register_private_if E (healthChecker q6 \<noteq> None) ''health_checker''
                       ResHealthChecker q6;
                q8 = register_private_if E (retryManager q7 \<noteq> None) ''retry_manager''
                       ResRetryManager q7;
                q9 = register_private_if E (metrics q8 \<noteq> None) ''metrics'' ResMetrics q8
            in (None, q9))"

definition abort_startup ::
  "env \<Rightarrow> go_error \<Rightarrow> PulsarClient \<Rightarrow> go_error option \<times> PulsarClient" where
  "abort_startup E err p =
     (Some err, publishRuntimeContract E False False (closeAllResources E p))"

text \<open>The part after the creation of the resources.\<close>

definition finish_startup :: "env \<Rightarrow> PulsarClient \<Rightarrow> go_error option \<times> PulsarClient" where
  "finish_startup E p =
     (case register_resources E (start_connection_manager (start_health_checker p)) of
        (Some err, p1) \<Rightarrow> (Some err, p1)
      | (None, p1) \<Rightarrow>
          (case CheckHealth p1 of
             Some err \<Rightarrow> (Some err, publishRuntimeContract E False False p1)
           | None \<Rightarrow> (None, publishRuntimeContract E True True p1)))"

text \<open>The context is asked before the execution, after the creation of the client and after the
  creation of the producers.\<close>

definition startupWithContext ::
  "env \<Rightarrow> durationpb_lib \<Rightarrow> ctx \<Rightarrow> PulsarClient \<Rightarrow> go_panic + go_error option \<times> PulsarClient" where
  "startupWithContext E L ctx p =
     (case ctx 0 of
        Some err \<Rightarrow> Inr (Some (StartupCanceledBefore err), p)
      | None \<Rightarrow>
          let p1 = publishRuntimeContract E False False p;
              clientOptions = buildClientOptions (e_auth E (events p1)) L (config p1);
              ans = e_NewClient E (events p1) clientOptions;
              p2 = emit (EvNewClient clientOptions ans) p1
          in case ans of
               Inl err \<Rightarrow> Inr (Some (CreateClientFailed err), publishRuntimeContract E False False p2)
             | Inr c \<Rightarrow>
                 let p3 = setClient c p2
                 in case ctx 1 of
                      Some err \<Rightarrow> Inr (abort_startup E (StartupCanceledAfterClient err) p3)
                    | None \<Rightarrow>
                        bindE (initializeProducers E L p3) (\<lambda>(r, p4).
                        case r of
                          Some err \<Rightarrow> Inr (abort_startup E (InitProducersFailed err) p4)
                        | None \<Rightarrow>
                            (case ctx 2 of
                               Some err \<Rightarrow> Inr (abort_startup E (StartupCanceledAfterProducers err) p4)
                             | None \<Rightarrow>
                                 bindE (initializeConsumers E L p4) (\<lambda>(r, p5).
                                 case r of
                                   Some err \<Rightarrow> Inr (abort_startup E (InitConsumersFailed err) p5)
                                 | None \<Rightarrow> Inr (finish_startup E p5)))))"

definition StartupTasks ::
  "env \<Rightarrow> durationpb_lib \<Rightarrow> PulsarClient \<Rightarrow> go_panic + go_error option \<times> PulsarClient" where
  "StartupTasks E L p = startupWithContext E L Background p"

section \<open>Clean-up\<close>

definition close_once :: "PulsarClient \<Rightarrow> go_panic + PulsarClient" where
  "close_once p =
     (if closeOnce_done p then Inr p
      else bindE (close_chan (closeChan_closed p)) (\<lambda>b.
           Inr (p\<lparr>closeOnce_done := True, closeChan_closed := b\<rparr>)))"

definition stop_health_checker :: "PulsarClient \<Rightarrow> go_panic + PulsarClient" where
  "stop_health_checker p =
     (case healthChecker p of
        None \<Rightarrow> Inr p
      | Some h \<Rightarrow> bindE (HealthChecker_Stop h) (\<lambda>h'. Inr (p\<lparr>healthChecker := Some h'\<rparr>)))"

definition stop_connection_manager :: "PulsarClient \<Rightarrow> go_panic + PulsarClient" where
  "stop_connection_manager p =
     (case connectionManager p of
        None \<Rightarrow> Inr p
      | Some c \<Rightarrow> bindE (ConnectionManager_Stop c) (\<lambda>c'. Inr (p\<lparr>connectionManager := Some c'\<rparr>)))"

definition cleanupWithContext ::
  "env \<Rightarrow> ctx \<Rightarrow> PulsarClient \<Rightarrow> go_panic + go_error option \<times> PulsarClient" where
  "cleanupWithContext E ctx p =
     (case ctx 0 of
        Some err \<Rightarrow> Inr (Some (CleanupCanceled err), p)
      | None \<Rightarrow>
          bindE (close_once (publishRuntimeContract E False False p)) (\<lambda>p1.
          bindE (stop_health_checker (p1\<lparr>closed := True\<rparr>)) (\<lambda>p2.
          bindE (stop_connection_manager p2) (\<lambda>p3.
          Inr (None, closeAllResources E p3)))))"

definition CleanupTasks ::
  "env \<Rightarrow> PulsarClient \<Rightarrow> go_panic + go_error option \<times> PulsarClient" where
  "CleanupTasks E p = cleanupWithContext E Background p"

definition ShutdownTasks ::
  "env \<Rightarrow> PulsarClient \<Rightarrow> go_panic + go_error option \<times> PulsarClient" where
  "ShutdownTasks E p = CleanupTasks E p"

section \<open>The context-aware life cycle\<close>

definition InitializeContext ::
  "ctx \<Rightarrow> (PulsarClient \<Rightarrow> go_error option \<times> PulsarClient) \<Rightarrow> PulsarClient \<Rightarrow>
   go_error option \<times> PulsarClient" where
  \<comment> \<open>the second argument is \<open>p.BasePlugin.Initialize(plugin, rt)\<close>\<close>
  "InitializeContext ctx base_Initialize p =
     (case ctx 0 of
        Some err \<Rightarrow> (Some (InitializeCanceled err), p)
      | None \<Rightarrow> base_Initialize p)"

definition StartContext ::
  "env \<Rightarrow> durationpb_lib \<Rightarrow> ctx \<Rightarrow> PulsarClient \<Rightarrow> go_panic + go_error option \<times> PulsarClient" where
  "StartContext E L ctx p = startupWithContext E L ctx p"

definition StopContext ::
  "env \<Rightarrow> ctx \<Rightarrow> PulsarClient \<Rightarrow> go_panic + go_error option \<times> PulsarClient" where
  "StopContext E ctx p =
     (case ctx 0 of
        Some err \<Rightarrow> Inr (Some (StopCanceled err), p)
      | None \<Rightarrow> cleanupWithContext E (\<lambda>n. ctx (Suc n)) p)"

definition IsContextAware :: "PulsarClient \<Rightarrow> bool" where
  "IsContextAware p = True"

text \<open>The framework's protocol description: of its fields the code sets one and keeps the others,
  which are the extension of the record. The argument is \<open>p.BasePlugin.PluginProtocol()\<close>.\<close>

record plugin_protocol =
  ContextLifecycle :: bool

definition PluginProtocol :: "'a plugin_protocol_scheme \<Rightarrow> 'a plugin_protocol_scheme" where
  "PluginProtocol base = base\<lparr>ContextLifecycle := True\<rparr>"

lemma protocol_context_aware: "ContextLifecycle (PluginProtocol base) = IsContextAware p"
  by (simp add: PluginProtocol_def IsContextAware_def)

end
