(* ===== verification/StartupSpec.thy ===== *)
theory StartupSpec
  imports ResourcesSpec Lifecycle NormalizeSpec
begin

text \<open>
  What a start-up promises: which state it leaves on every path, what it publishes to the
  runtime, when it returns and when it succeeds, and that a failed start-up gives back what it
  created, with the one path on which it does not.
\<close>

section \<open>Operations that only call out\<close>

lemma emit_emits: "emit e p = emits [e] p"
  by (simp add: emit_def emits_def)

lemma emits_emits [simp]: "emits es' (emits es p) = emits (es @ es') p"
  by (simp add: emits_def)

lemma emits_Nil [simp]: "emits [] p = p"
  by (simp add: emits_def)

text \<open>A registration event is no event of the broker.\<close>

fun is_registration :: "event \<Rightarrow> bool" where
  "is_registration (EvRegisterShared _ _ _) = True"
| "is_registration (EvRegisterPrivate _ _ _) = True"
| "is_registration _ = False"

definition registers :: "PulsarClient \<Rightarrow> PulsarClient \<Rightarrow> bool" where
  "registers p q \<longleftrightarrow> (\<exists>evs. q = emits evs p \<and> (\<forall>e\<in>set evs. is_registration e))"

lemma registers_refl [simp]: "registers p p"
  unfolding registers_def by (rule exI [of _ "[]"]) simp

lemma registers_trans:
  assumes "registers p q" and "registers q r"
  shows "registers p r"
proof -
  from assms obtain es es' where "q = emits es p" "\<forall>e\<in>set es. is_registration e"
    "r = emits es' q" "\<forall>e\<in>set es'. is_registration e" by (auto simp: registers_def)
  then show ?thesis unfolding registers_def by (intro exI [of _ "es @ es'"]) auto
qed

lemma registers_shared: "registers p (snd (RegisterSharedResource E n v p))"
  unfolding registers_def RegisterSharedResource_def Let_def
  by (auto simp: emit_emits intro: exI [of _ "[_]"])

lemma registers_private: "registers p (snd (RegisterPrivateResource E n v p))"
  unfolding registers_def RegisterPrivateResource_def Let_def
  by (auto simp: emit_emits intro: exI [of _ "[_]"])

lemmas registers_more = registers_trans [OF _ registers_shared] registers_trans [OF _ registers_private]

lemma registers_private_if: "registers p q \<Longrightarrow> registers p (register_private_if E b n v q)"
  by (simp add: register_private_if_def registers_more)

lemma registers_alias: "registers p q \<Longrightarrow> registers p (registerRuntimePluginAlias E q)"
  by (simp add: registerRuntimePluginAlias_def registers_more)

lemma registers_contract: "registers p (publishRuntimeContract E b b' p)"
  by (simp add: publishRuntimeContract_def Let_def registers_more)

lemma registers_fields:
  assumes "registers p q"
  shows "config q = config p" "rt q = rt p" "client q = client p"
    "producers q = producers p" "consumers q = consumers p"
    "closeChan_closed q = closeChan_closed p" "closeOnce_done q = closeOnce_done p"
    "closed q = closed p" "loops q = loops p" "next_loop q = next_loop p"
    "subscriptions q = subscriptions p" "metrics q = metrics p"
    "healthStatus q = healthStatus p" "healthChecker q = healthChecker p"
    "connectionManager q = connectionManager p" "retryManager q = retryManager p"
    "\<exists>evs. events q = events p @ evs \<and> (\<forall>e\<in>set evs. is_registration e)"
  using assms by (auto simp: registers_def)

lemma registers_control: "registers p q \<Longrightarrow> same_control p q"
  by (simp add: same_control_def registers_fields)

lemmas contract_fields [simp] = registers_fields(1-16) [OF registers_contract]

lemma made_by_registration:
  assumes "\<forall>e\<in>set evs. is_registration e"
  shows "made_by made_client evs = {}" "made_by made_producer evs = {}"
    "made_by made_consumer evs = {}"
proof -
  have "is_registration e \<Longrightarrow> made_client e = None \<and> made_producer e = None \<and> made_consumer e = None" for e
    by (cases e) auto
  with assms show "made_by made_client evs = {}" "made_by made_producer evs = {}"
    "made_by made_consumer evs = {}" by (auto simp: made_by_def)
qed

section \<open>The published contract\<close>

fun shared_of :: "string \<Rightarrow> event \<Rightarrow> resource option" where
  "shared_of n (EvRegisterShared m v ans) = (if m = n then Some v else None)"
| "shared_of n _ = None"

fun private_of :: "string \<Rightarrow> event \<Rightarrow> resource option" where
  "private_of n (EvRegisterPrivate m v ans) = (if m = n then Some v else None)"
| "private_of n _ = None"

fun last_offer :: "(event \<Rightarrow> resource option) \<Rightarrow> event list \<Rightarrow> resource option" where
  "last_offer f [] = None"
| "last_offer f (e # es) =
     (case last_offer f es of Some v \<Rightarrow> Some v | None \<Rightarrow> f e)"

lemma last_offer_append:
  "last_offer f (es @ es') =
     (case last_offer f es' of Some v \<Rightarrow> Some v | None \<Rightarrow> last_offer f es)"
  by (induction es) (auto split: option.splits)

text \<open>All four entries of the runtime contract were last offered with the value \<open>b\<close>.\<close>

definition contract_is :: "bool \<Rightarrow> PulsarClient \<Rightarrow> bool" where
  "contract_is b p \<longleftrightarrow>
     last_offer (shared_of sharedReadinessResourceName) (events p) = Some (ResBool b) \<and>
     last_offer (shared_of sharedHealthResourceName) (events p) = Some (ResBool b) \<and>
     last_offer (private_of privateReadinessResourceName) (events p) = Some (ResBool b) \<and>
     last_offer (private_of privateHealthResourceName) (events p) = Some (ResBool b)"

lemma resource_names_distinct:
  "sharedReadinessResourceName \<noteq> sharedHealthResourceName"
  "privateReadinessResourceName \<noteq> privateHealthResourceName"
  by (simp_all add: sharedReadinessResourceName_def sharedHealthResourceName_def
      privateReadinessResourceName_def privateHealthResourceName_def pluginName_def)

lemma contract_published: "rt p \<Longrightarrow> contract_is b (publishRuntimeContract E b b p)"
  by (simp add: contract_is_def publishRuntimeContract_def RegisterSharedResource_def
      RegisterPrivateResource_def Let_def last_offer_append resource_names_distinct
      resource_names_distinct [symmetric])

section \<open>The states a start-up goes through\<close>

text \<open>\<open>q\<close> is \<open>p\<close> with further resources: only the client, the producer and consumer maps and the
  record of calls may differ, and the maps stay well formed.\<close>

definition grown :: "PulsarClient \<Rightarrow> PulsarClient \<Rightarrow> bool" where
  "grown p q \<longleftrightarrow> same_control p q \<and> loops q = loops p \<and> subscriptions q = subscriptions p \<and>
     (go_wf (producers p) \<longrightarrow> go_wf (producers q)) \<and>
     (go_wf (consumers p) \<longrightarrow> go_wf (consumers q))"

lemma grown_trans: "grown p q \<Longrightarrow> grown q r \<Longrightarrow> grown p r"
  by (auto simp: grown_def intro: same_control_trans)

lemma grown_registers: "registers p q \<Longrightarrow> grown p q"
  by (simp add: grown_def registers_control registers_fields)

text \<open>Everything made since \<open>p\<close> is still held by \<open>q\<close>, and nothing is made without a client.\<close>

definition holds_made :: "PulsarClient \<Rightarrow> event list \<Rightarrow> bool" where
  "holds_made q evs \<longleftrightarrow>
     (\<forall>h\<in>made_by made_client evs. client q = Some h) \<and>
     (\<forall>h\<in>made_by made_producer evs. \<exists>n. go_get (producers q) n = Some (Some h)) \<and>
     (\<forall>h\<in>made_by made_consumer evs. \<exists>n. go_get (consumers q) n = Some (Some h)) \<and>
     (client q = None \<longrightarrow> made_by made_producer evs = {} \<and> made_by made_consumer evs = {})"

lemma holds_made_extend:
  assumes "holds_made p evs" and "client q = client p"
    and "producers q = producers p" and "consumers q = consumers p"
    and "made_by made_client evs' = {}" and "made_by made_producer evs' = {}"
    and "made_by made_consumer evs' = {}"
  shows "holds_made q (evs @ evs')"
  using assms by (simp add: holds_made_def)


section \<open>Initializing the producers and consumers\<close>

lemma create_all_calls:
  assumes "create_all create wrap cfgs p = (r, p')"
    and "\<And>cfg p r p'. create cfg p = (r, p') \<Longrightarrow>
      \<exists>evs. events p' = events p @ evs \<and> (\<forall>e\<in>set evs. Q e)"
  shows "\<exists>evs. events p' = events p @ evs \<and> (\<forall>e\<in>set evs. Q e)"
  using assms(1)
proof (induction cfgs arbitrary: p)
  case (Cons cfg cfgs)
  obtain r1 p1 where c: "create cfg p = (r1, p1)" by fastforce
  from assms(2) [OF c] obtain evs where evs: "events p1 = events p @ evs" "\<forall>e\<in>set evs. Q e" by blast
  show ?case
  proof (cases r1)
    case None
    with Cons.prems c have "create_all create wrap cfgs p1 = (r, p')" by simp
    from Cons.IH [OF this] obtain evs' where "events p' = events p1 @ evs'" "\<forall>e\<in>set evs'. Q e"
      by blast
    with evs show ?thesis by (intro exI [of _ "evs @ evs'"]) auto
  next
    case (Some err)
    with Cons.prems c evs show ?thesis by auto
  qed
qed simp

lemma create_all_no_client:
  assumes "create_all create wrap cfgs p = (r, p')"
    and "\<And>cfg. create cfg p = (Some ClientNotInitialized, p)"
  shows "p' = p"
  using assms by (cases cfgs) auto

fun is_creation :: "event \<Rightarrow> bool" where
  "is_creation (EvCreateProducer _ _ _) = True"
| "is_creation _ = False"

fun is_subscription :: "event \<Rightarrow> bool" where
  "is_subscription (EvSubscribe _ _ _) = True"
| "is_subscription _ = False"

lemma made_by_creation:
  "\<forall>e\<in>set evs. is_creation e \<Longrightarrow> made_by made_client evs = {} \<and> made_by made_consumer evs = {}"
proof -
  have "is_creation e \<Longrightarrow> made_client e = None \<and> made_consumer e = None" for e by (cases e) auto
  then show "\<forall>e\<in>set evs. is_creation e \<Longrightarrow> made_by made_client evs = {} \<and> made_by made_consumer evs = {}"
    by (auto simp: made_by_def)
qed

lemma made_by_subscription:
  "\<forall>e\<in>set evs. is_subscription e \<Longrightarrow> made_by made_client evs = {} \<and> made_by made_producer evs = {}"
proof -
  have "is_subscription e \<Longrightarrow> made_client e = None \<and> made_producer e = None" for e by (cases e) auto
  then show "\<forall>e\<in>set evs. is_subscription e \<Longrightarrow> made_by made_client evs = {} \<and> made_by made_producer evs = {}"
    by (auto simp: made_by_def)
qed

lemma createProducer_calls:
  "createProducer E L cfg p = (r, p') \<Longrightarrow>
     \<exists>evs. events p' = events p @ evs \<and> (\<forall>e\<in>set evs. is_creation e)"
  by (auto simp: createProducer_def getClient_def Let_def split: option.splits sum.splits)

lemma createConsumer_calls:
  "createConsumer E L cfg p = (r, p') \<Longrightarrow>
     \<exists>evs. events p' = events p @ evs \<and> (\<forall>e\<in>set evs. is_subscription e)"
  by (auto simp: createConsumer_def getClient_def Let_def split: option.splits sum.splits)

definition distinct_names :: "Pulsar \<Rightarrow> bool" where
  "distinct_names c \<longleftrightarrow>
     (\<forall>ps. enabled_of P_Enabled (Producers c) = Inr ps \<longrightarrow> distinct (map P_Name ps)) \<and>
     (\<forall>cs. enabled_of C_Enabled (Consumers c) = Inr cs \<longrightarrow> distinct (map C_Name cs))"

lemma initializeProducers_frame:
  assumes "initializeProducers E L p = Inr (r, q)"
  shows "grown p q" "client q = client p" "consumers q = consumers p"
    "client p = None \<Longrightarrow> q = p"
proof -
  from assms obtain cfgs where c: "create_all (createProducer E L)
      (\<lambda>cfg. CreateProducerFailed (P_Name cfg)) cfgs p = (r, q)"
    by (auto simp: initializeProducers_def bindE_Inr_iff)
  note frame = prod.create_all_frame [OF c]
  note fields = createProducer_frame [unfolded same_control_def]
  have "same_control p q"
    unfolding same_control_def by (intro conjI; rule frame; drule fields; blast)
  moreover have "loops q = loops p" "subscriptions q = subscriptions p"
    by (rule frame, drule fields, blast)+
  moreover show con: "consumers q = consumers p" "client q = client p"
    by (rule frame, drule fields, blast)+
  ultimately show "grown p q" using prod.create_all_wf [OF c] by (simp add: grown_def)
  show "client p = None \<Longrightarrow> q = p"
    by (rule create_all_no_client [OF c]) (simp add: createProducer_def getClient_def)
qed

lemma initializeConsumers_frame:
  assumes "initializeConsumers E L p = Inr (r, q)"
  shows "grown p q" "client q = client p" "producers q = producers p"
    "client p = None \<Longrightarrow> q = p"
proof -
  from assms obtain cfgs where c: "create_all (createConsumer E L)
      (\<lambda>cfg. CreateConsumerFailed (C_Name cfg)) cfgs p = (r, q)"
    by (auto simp: initializeConsumers_def bindE_Inr_iff)
  note frame = cons.create_all_frame [OF c]
  note fields = createConsumer_frame [unfolded same_control_def]
  have "same_control p q"
    unfolding same_control_def by (intro conjI; rule frame; drule fields; blast)
  moreover have "loops q = loops p" "subscriptions q = subscriptions p"
    by (rule frame, drule fields, blast)+
  moreover show pr: "producers q = producers p" "client q = client p"
    by (rule frame, drule fields, blast)+
  ultimately show "grown p q" using cons.create_all_wf [OF c] by (simp add: grown_def)
  show "client p = None \<Longrightarrow> q = p"
    by (rule create_all_no_client [OF c]) (simp add: createConsumer_def getClient_def)
qed

lemma initializeProducers_made:
  assumes "initializeProducers E L p = Inr (r, q)"
  shows "\<exists>evs. events q = events p @ evs \<and> (\<forall>e\<in>set evs. is_creation e) \<and>
    (distinct_names (config p) \<longrightarrow>
       (\<forall>h\<in>made_by made_producer evs. \<exists>n. go_get (producers q) n = Some (Some h)))"
proof -
  from assms obtain cfgs where en: "enabled_of P_Enabled (Producers (config p)) = Inr cfgs"
    and c: "create_all (createProducer E L) (\<lambda>cfg. CreateProducerFailed (P_Name cfg)) cfgs p = (r, q)"
    by (auto simp: initializeProducers_def GetEnabledProducers_def bindE_Inr_iff)
  have "\<exists>evs. events q = events p @ evs \<and> (\<forall>e\<in>set evs. is_creation e)"
    by (rule create_all_calls [OF c]) (rule createProducer_calls)
  then obtain evs where evs: "events q = events p @ evs" "\<forall>e\<in>set evs. is_creation e" by blast
  show ?thesis
  proof (intro exI [of _ evs] conjI evs impI)
    assume "distinct_names (config p)"
    with en have "distinct (map P_Name cfgs)" by (simp add: distinct_names_def)
    from prod.create_all_accounted [OF c this] evs(1)
    show "\<forall>h\<in>made_by made_producer evs. \<exists>n. go_get (producers q) n = Some (Some h)" by auto
  qed
qed

lemma initializeConsumers_made:
  assumes "initializeConsumers E L p = Inr (r, q)"
  shows "\<exists>evs. events q = events p @ evs \<and> (\<forall>e\<in>set evs. is_subscription e) \<and>
    (distinct_names (config p) \<longrightarrow>
       (\<forall>h\<in>made_by made_consumer evs. \<exists>n. go_get (consumers q) n = Some (Some h)))"
proof -
  from assms obtain cfgs where en: "enabled_of C_Enabled (Consumers (config p)) = Inr cfgs"
    and c: "create_all (createConsumer E L) (\<lambda>cfg. CreateConsumerFailed (C_Name cfg)) cfgs p = (r, q)"
    by (auto simp: initializeConsumers_def GetEnabledConsumers_def bindE_Inr_iff)
  have "\<exists>evs. events q = events p @ evs \<and> (\<forall>e\<in>set evs. is_subscription e)"
    by (rule create_all_calls [OF c]) (rule createConsumer_calls)
  then obtain evs where evs: "events q = events p @ evs" "\<forall>e\<in>set evs. is_subscription e" by blast
  show ?thesis
  proof (intro exI [of _ evs] conjI evs impI)
    assume "distinct_names (config p)"
    with en have "distinct (map C_Name cfgs)" by (simp add: distinct_names_def)
    from cons.create_all_accounted [OF c this] evs(1)
    show "\<forall>h\<in>made_by made_consumer evs. \<exists>n. go_get (consumers q) n = Some (Some h)" by auto
  qed
qed



section \<open>The paths of a start-up\<close>

fun is_close :: "event \<Rightarrow> bool" where
  "is_close (EvClientClose _) = True"
| "is_close (EvProducerClose _) = True"
| "is_close (EvConsumerClose _) = True"
| "is_close _ = False"

lemma not_close:
  "is_registration e \<Longrightarrow> \<not> is_close e" "is_creation e \<Longrightarrow> \<not> is_close e"
  "is_subscription e \<Longrightarrow> \<not> is_close e"
  by (cases e; simp)+

definition built :: "PulsarClient \<Rightarrow> PulsarClient \<Rightarrow> bool" where
  "built p q \<longleftrightarrow> grown p q \<and>
     (\<exists>evs. events q = events p @ evs \<and> (\<forall>e\<in>set evs. \<not> is_close e) \<and>
       (distinct_names (config p) \<longrightarrow> holds_made q evs))"

lemma built_client:
  assumes "registers p p1"
  shows "built p (setClient c (emit (EvNewClient opts (Inr c)) p1))"
proof -
  from assms obtain evs where evs: "p1 = emits evs p" "\<forall>e\<in>set evs. is_registration e"
    by (auto simp: registers_def)
  have "holds_made (setClient c (emit (EvNewClient opts (Inr c)) p1))
      (evs @ [EvNewClient opts (Inr c)])"
    using made_by_registration [OF evs(2)]
    by (auto simp: holds_made_def setClient_def split: option.splits)
  then show ?thesis
    using evs by (auto simp: built_def grown_def same_control_def setClient_def not_close)
qed

lemma built_producers:
  assumes b: "built p q" and i: "initializeProducers E L q = Inr (r, q')"
    and none: "\<forall>e\<in>set evs0. made_producer e = None" "events q = events p @ evs0"
  shows "built p q'"
proof -
  note fr = initializeProducers_frame [OF i]
  from b have grown: "grown p q" and hold: "distinct_names (config p) \<longrightarrow> holds_made q evs0"
    and nc: "\<forall>e\<in>set evs0. \<not> is_close e"
    using none(2) by (auto simp: built_def)
  from grown have cfg: "config q = config p" by (simp add: grown_def same_control_def)
  from initializeProducers_made [OF i] obtain evs where evs: "events q' = events q @ evs"
    "\<forall>e\<in>set evs. is_creation e" "distinct_names (config p) \<longrightarrow>
      (\<forall>h\<in>made_by made_producer evs. \<exists>n. go_get (producers q') n = Some (Some h))"
    using cfg by auto
  have "made_by made_producer evs0 = {}" using none(1) by (auto simp: made_by_def)
  moreover have "client q = None \<Longrightarrow> evs = []" using fr(4) evs(1) by simp
  ultimately have "distinct_names (config p) \<longrightarrow> holds_made q' (evs0 @ evs)"
    using hold evs(3) made_by_creation [OF evs(2)] fr by (auto simp: holds_made_def)
  with grown_trans [OF grown fr(1)] evs(1,2) none(2) nc show ?thesis
    by (auto simp: built_def dest: not_close)
qed

lemma built_consumers:
  assumes b: "built p q" and i: "initializeConsumers E L q = Inr (r, q')"
    and none: "\<forall>e\<in>set evs0. made_consumer e = None" "events q = events p @ evs0"
  shows "built p q'"
proof -
  note fr = initializeConsumers_frame [OF i]
  from b have grown: "grown p q" and hold: "distinct_names (config p) \<longrightarrow> holds_made q evs0"
    and nc: "\<forall>e\<in>set evs0. \<not> is_close e"
    using none(2) by (auto simp: built_def)
  from grown have cfg: "config q = config p" by (simp add: grown_def same_control_def)
  from initializeConsumers_made [OF i] obtain evs where evs: "events q' = events q @ evs"
    "\<forall>e\<in>set evs. is_subscription e" "distinct_names (config p) \<longrightarrow>
      (\<forall>h\<in>made_by made_consumer evs. \<exists>n. go_get (consumers q') n = Some (Some h))"
    using cfg by auto
  have "made_by made_consumer evs0 = {}" using none(1) by (auto simp: made_by_def)
  moreover have "client q = None \<Longrightarrow> evs = []" using fr(4) evs(1) by simp
  ultimately have "distinct_names (config p) \<longrightarrow> holds_made q' (evs0 @ evs)"
    using hold evs(3) made_by_subscription [OF evs(2)] fr by (auto simp: holds_made_def)
  with grown_trans [OF grown fr(1)] evs(1,2) none(2) nc show ?thesis
    by (auto simp: built_def dest: not_close)
qed


text \<open>Every enabled producer and consumer has an entry.\<close>

definition all_registered :: "PulsarClient \<Rightarrow> bool" where
  "all_registered q \<longleftrightarrow>
     (\<forall>ps. enabled_of P_Enabled (Producers (config q)) = Inr ps \<longrightarrow>
        (\<forall>cfg\<in>set ps. go_get (producers q) (P_Name cfg) \<noteq> None)) \<and>
     (\<forall>cs. enabled_of C_Enabled (Consumers (config q)) = Inr cs \<longrightarrow>
        (\<forall>cfg\<in>set cs. go_get (consumers q) (C_Name cfg) \<noteq> None))"

lemma initialize_all_registered:
  assumes "initializeProducers E L p = Inr (None, q)" and "initializeConsumers E L q = Inr (None, q')"
  shows "all_registered q'"
proof -
  from assms(1) obtain ps where ps: "enabled_of P_Enabled (Producers (config p)) = Inr ps"
    "create_all (createProducer E L) (\<lambda>cfg. CreateProducerFailed (P_Name cfg)) ps p = (None, q)"
    by (auto simp: initializeProducers_def GetEnabledProducers_def bindE_Inr_iff)
  from assms(2) obtain cs where cs: "enabled_of C_Enabled (Consumers (config q)) = Inr cs"
    "create_all (createConsumer E L) (\<lambda>cfg. CreateConsumerFailed (C_Name cfg)) cs q = (None, q')"
    by (auto simp: initializeConsumers_def GetEnabledConsumers_def bindE_Inr_iff)
  have "config q' = config q" "config q = config p" "producers q' = producers q"
    using initializeProducers_frame [OF assms(1)] initializeConsumers_frame [OF assms(2)]
    by (simp_all add: grown_def same_control_def)
  with ps(1) cs(1) prod.create_all_complete [OF ps(2)] cons.create_all_complete [OF cs(2)]
  show ?thesis by (auto simp: all_registered_def)
qed

text \<open>The three ways through \<open>startupWithContext\<close> once it has begun.\<close>

lemma startup_cases [consumes 2, case_names no_client aborted finished]:
  assumes "startupWithContext E L ctx p = Inr (r, p')" and "ctx 0 = None"
  obtains (no_client) p1 opts err where "registers p p1" and "r = Some (CreateClientFailed err)"
      and "p' = publishRuntimeContract E False False (emit (EvNewClient opts (Inl err)) p1)"
  | (aborted) q err where "built p q" and "abort_startup E err q = (r, p')"
      and "\<forall>e. err \<noteq> RegisterSharedFailed e"
  | (finished) q where "built p q" and "all_registered q" and "finish_startup E q = (r, p')"
proof -
  let ?p1 = "publishRuntimeContract E False False p"
  let ?opts = "buildClientOptions (e_auth E (events ?p1)) L (config p)"
  let ?ans = "e_NewClient E (events ?p1) ?opts"
  have reg: "registers p ?p1" by (rule registers_contract)
  show ?thesis
  proof (cases ?ans)
    case (Inl err)
    with assms reg no_client show ?thesis by (auto simp: startupWithContext_def Let_def)
  next
    case (Inr c)
    let ?p3 = "setClient c (emit (EvNewClient ?opts (Inr c)) ?p1)"
    note unf = startupWithContext_def Let_def assms(2) Inr
    have b3: "built p ?p3" by (rule built_client [OF reg])
    obtain evs0 where evs0: "events ?p3 = events p @ evs0"
      "\<forall>e\<in>set evs0. made_producer e = None \<and> made_consumer e = None"
    proof -
      from reg obtain es where es: "?p1 = emits es p" "\<forall>e\<in>set es. is_registration e"
        by (auto simp: registers_def)
      have "made_producer e = None \<and> made_consumer e = None" if "is_registration e" for e
        using that by (cases e) auto
      with es that [of "es @ [EvNewClient ?opts (Inr c)]"] show ?thesis
        by (auto simp: setClient_def)
    qed
    show ?thesis
    proof (cases "ctx 1")
      case (Some err)
      with assms(1) aborted [OF b3] show ?thesis by (auto simp: unf)
    next
      case None
      with assms(1) obtain r4 p4 where i4: "initializeProducers E L ?p3 = Inr (r4, p4)"
        by (auto simp: unf bindE_Inr_iff)
      have b4: "built p p4" using built_producers [OF b3 i4] evs0 by blast
      from initializeProducers_made [OF i4] obtain evs4 where evs4: "events p4 = events ?p3 @ evs4"
        "\<forall>e\<in>set evs4. is_creation e" by blast
      have "made_consumer e = None" if "is_creation e" for e using that by (cases e) auto
      with evs0 evs4 have evs4': "events p4 = events p @ (evs0 @ evs4)"
        "\<forall>e\<in>set (evs0 @ evs4). made_consumer e = None" by auto
      show ?thesis
      proof (cases "r4 = None \<and> ctx 2 = None")
        case False
        with assms(1) None i4 aborted [OF b4] show ?thesis
          by (auto simp: unf split: option.splits)
      next
        case True
        with assms(1) None i4 obtain r5 p5 where i5: "initializeConsumers E L p4 = Inr (r5, p5)"
          by (auto simp: unf bindE_Inr_iff)
        have b5: "built p p5" using built_consumers [OF b4 i5] evs4' by blast
        show ?thesis
        proof (cases r5)
          case (Some err)
          with assms(1) None i4 i5 True aborted [OF b5] show ?thesis by (auto simp: unf)
        next
          case r5: None
          with i4 i5 True have "all_registered p5" by (blast intro: initialize_all_registered)
          with assms(1) None i4 i5 True r5 finished [OF b5] show ?thesis by (auto simp: unf)
        qed
      qed
    qed
  qed
qed


section \<open>The last steps of a start-up\<close>

lemma register_resources_registers:
  assumes "register_resources E p = (r, q)"
  shows "registers p q"
proof (cases "RegisterSharedResource E pluginName ResPlugin p")
  case (Pair ans p1)
  then have p1: "registers p p1" using registers_shared [of p E pluginName ResPlugin] by simp
  with assms Pair show ?thesis
    by (auto simp: register_resources_def Let_def split: option.splits if_splits
        intro!: registers_private_if registers_alias registers_trans [OF p1 registers_contract])
qed

lemma register_resources_error:
  assumes "register_resources E p = (Some err, q)"
  shows "rt p \<and> (\<exists>e q0. err = RegisterSharedFailed e \<and> registers p q0 \<and>
     RegisterSharedResource E pluginName ResPlugin p = (Some e, q0) \<and>
     q = publishRuntimeContract E False False q0)"
proof (cases "RegisterSharedResource E pluginName ResPlugin p")
  case (Pair ans p1)
  then have "registers p p1" using registers_shared [of p E pluginName ResPlugin] by simp
  with assms Pair show ?thesis
    by (auto simp: register_resources_def Let_def split: option.splits if_splits)
qed

text \<open>The state once the health checker and the connection manager have been started.\<close>

abbreviation started :: "PulsarClient \<Rightarrow> PulsarClient" where
  "started q \<equiv> start_connection_manager (start_health_checker q)"

lemma started_fields [simp]:
  "config (started q) = config q" "rt (started q) = rt q" "client (started q) = client q"
  "producers (started q) = producers q" "consumers (started q) = consumers q"
  "closeChan_closed (started q) = closeChan_closed q"
  "closeOnce_done (started q) = closeOnce_done q"
  "closed (started q) = closed q" "loops (started q) = loops q"
  "next_loop (started q) = next_loop q" "subscriptions (started q) = subscriptions q"
  "metrics (started q) = metrics q" "healthStatus (started q) = healthStatus q"
  "healthChecker (started q) = healthChecker q" "retryManager (started q) = retryManager q"
  "connectionManager (started q) = map_option ConnectionManager_Start (connectionManager q)"
  by (simp_all add: start_connection_manager_def start_health_checker_def split: option.splits)

text \<open>The goroutine of the health checker is started with the checker's interval, if monitoring
  asks for it.\<close>

definition probe_started :: "PulsarClient \<Rightarrow> event list" where
  "probe_started q =
     (case (MonitoringConf (config q), healthChecker q) of
        (Some m, Some h) \<Rightarrow> if M_EnableHealthCheck m then [EvGoProbe (HC_interval h)] else []
      | _ \<Rightarrow> [])"

lemma started_events: "events (started q) = events q @ probe_started q"
  by (simp add: start_connection_manager_def start_health_checker_def probe_started_def
      split: option.splits)

lemma CheckHealth_started:
  assumes "registers (started q) q'"
  shows "CheckHealth q' = (if client q = None then Some ClientNotInitialized else None)"
  by (auto simp: CheckHealth_def getClient_def registers_fields [OF assms]
      ConnectionManager_Start_def ConnectionManager_IsConnected_def split: option.splits)

lemma finish_cases [consumes 1, case_names success register_failed unhealthy]:
  assumes "finish_startup E q = (r, p')"
  obtains (success) q1 where "r = None" and "registers (started q) q1" and "client q \<noteq> None"
      and "p' = publishRuntimeContract E True True q1"
  | (register_failed) q1 e where "r = Some (RegisterSharedFailed e)" and "rt q"
      and "RegisterSharedResource E pluginName ResPlugin (started q) = (Some e, q1)"
      and "registers (started q) q1" and "p' = publishRuntimeContract E False False q1"
  | (unhealthy) q1 where "r = Some ClientNotInitialized" and "registers (started q) q1"
      and "client q = None" and "p' = publishRuntimeContract E False False q1"
proof -
  obtain r1 q1 where reg: "register_resources E (started q) = (r1, q1)" by fastforce
  note registers = register_resources_registers [OF reg]
  show ?thesis
  proof (cases r1)
    case None
    with assms reg registers success unhealthy CheckHealth_started [OF registers] show ?thesis
      by (auto simp: finish_startup_def split: if_splits)
  next
    case (Some err)
    with reg have "register_resources E (started q) = (Some err, q1)" by simp
    from register_resources_error [OF this] assms reg Some register_failed show ?thesis
      by (auto simp: finish_startup_def)
  qed
qed

lemma finish_registers:
  assumes "finish_startup E q = (r, p')"
  shows "registers (started q) p'"
  using assms
  by (cases rule: finish_cases) (auto intro: registers_trans [OF _ registers_contract])

lemma built_rt: "built p q \<Longrightarrow> rt q = rt p"
  by (simp add: built_def grown_def same_control_def)

section \<open>When a start-up returns and when it succeeds\<close>

lemma enabled_of_total:
  "None \<notin> set xs \<Longrightarrow> enabled_of en xs = Inr [x. Some x \<leftarrow> xs, en x]"
proof (induction xs)
  case (Cons x xs)
  then show ?case by (cases x) auto
qed simp

definition no_nil_entries :: "Pulsar \<Rightarrow> bool" where
  "no_nil_entries c \<longleftrightarrow> None \<notin> set (Producers c) \<and> None \<notin> set (Consumers c)"

lemma normal_no_nil: "normal_config L c \<Longrightarrow> no_nil_entries c"
  by (auto simp: normal_config_def normal_defs no_nil_entries_def)

lemma initialize_total:
  assumes "no_nil_entries (config p)"
  shows "\<exists>r q. initializeProducers E L p = Inr (r, q)" "\<exists>r q. initializeConsumers E L p = Inr (r, q)"
  using assms
  by (simp_all add: initializeProducers_def initializeConsumers_def GetEnabledProducers_def
      GetEnabledConsumers_def no_nil_entries_def enabled_of_total)

lemma startup_total:
  assumes "no_nil_entries (config p)"
  shows "\<exists>r p'. startupWithContext E L ctx p = Inr (r, p')"
proof -
  let ?p1 = "publishRuntimeContract E False False p"
  let ?opts = "buildClientOptions (e_auth E (events ?p1)) L (config p)"
  let ?ans = "e_NewClient E (events ?p1) ?opts"
  show ?thesis
  proof (cases "ctx 0 = None \<and> is_ok ?ans \<and> ctx 1 = None")
    case False
    then show ?thesis
      by (cases "ctx 0"; cases ?ans; cases "ctx 1") (auto simp: startupWithContext_def Let_def)
  next
    case True
    then obtain c where c: "?ans = Inr c" by (auto simp: is_ok_iff)
    let ?p3 = "setClient c (emit (EvNewClient ?opts ?ans) ?p1)"
    have "no_nil_entries (config ?p3)" using assms by (simp add: setClient_def)
    then obtain r4 p4 where i4: "initializeProducers E L ?p3 = Inr (r4, p4)"
      using initialize_total(1) by blast
    then have "config p4 = config ?p3"
      using initializeProducers_frame(1) by (auto simp: grown_def same_control_def)
    with assms have "no_nil_entries (config p4)" by (simp add: setClient_def)
    then obtain r5 p5 where i5: "initializeConsumers E L p4 = Inr (r5, p5)"
      using initialize_total(2) by blast
    show ?thesis
      using True c i4 i5 by (auto simp: startupWithContext_def Let_def split: option.split)
  qed
qed

text \<open>A broker and a runtime that accept.\<close>

definition accepting :: "env \<Rightarrow> bool" where
  "accepting E \<longleftrightarrow>
     (\<forall>evs opts. \<exists>h. e_NewClient E evs opts = Inr (Some h)) \<and>
     (\<forall>evs c opts. is_ok (e_CreateProducer E evs c opts)) \<and>
     (\<forall>evs c opts. is_ok (e_Subscribe E evs c opts)) \<and>
     (\<forall>evs v. e_RegisterShared E evs pluginName v = None)"

lemma create_all_succeeds:
  assumes "create_all create wrap cfgs p = (r, p')" and "P p"
    and "\<And>cfg p r p'. P p \<Longrightarrow> create cfg p = (r, p') \<Longrightarrow> r = None \<and> P p'"
  shows "r = None"
  using assms(1,2)
proof (induction cfgs arbitrary: p)
  case (Cons cfg cfgs)
  obtain r1 p1 where c: "create cfg p = (r1, p1)" by fastforce
  with assms(3) [OF Cons.prems(2) c] Cons.prems Cons.IH show ?case by auto
qed simp

lemma accepting_answers:
  assumes "accepting E"
  shows "\<exists>h. e_NewClient E evs opts = Inr (Some h)" "\<exists>h. e_CreateProducer E evs c po = Inr h"
    "\<exists>h. e_Subscribe E evs c co = Inr h" "e_RegisterShared E evs pluginName v = None"
  using assms unfolding accepting_def is_ok_iff by blast+

lemma initialize_succeeds:
  assumes "accepting E" and "client p \<noteq> None"
  shows "initializeProducers E L p = Inr (r, q) \<Longrightarrow> r = None"
    and "initializeConsumers E L p = Inr (r, q) \<Longrightarrow> r = None"
proof -
  have P: "r = None \<and> client q \<noteq> None"
    if "client p \<noteq> None" "createProducer E L cfg p = (r, q)" for cfg p r q
  proof -
    from that(1) obtain c where "client p = Some c" by blast
    moreover obtain h where
      "e_CreateProducer E (events p) c (producer_options L cfg) = Inr h"
      using accepting_answers(2) [OF assms(1)] by blast
    ultimately show ?thesis using that(2) by (auto simp: createProducer_def getClient_def)
  qed
  have C: "r = None \<and> client q \<noteq> None"
    if "client p \<noteq> None" "createConsumer E L cfg p = (r, q)" for cfg p r q
  proof -
    from that(1) obtain c where "client p = Some c" by blast
    moreover obtain h where
      "e_Subscribe E (events p) c (consumer_options L cfg) = Inr h"
      using accepting_answers(3) [OF assms(1)] by blast
    ultimately show ?thesis using that(2) by (auto simp: createConsumer_def getClient_def)
  qed
  note loop = create_all_succeeds [where P = "\<lambda>p. client p \<noteq> None", OF _ assms(2)]
  show "initializeProducers E L p = Inr (r, q) \<Longrightarrow> r = None"
    by (clarsimp simp: initializeProducers_def bindE_Inr_iff) (erule loop, erule (1) P)
  show "initializeConsumers E L p = Inr (r, q) \<Longrightarrow> r = None"
    by (clarsimp simp: initializeConsumers_def bindE_Inr_iff) (erule loop, erule (1) C)
qed

section \<open>A world for the concrete runs\<close>

text \<open>A broker that accepts every call and hands out fresh handles, and one whose runtime
  refuses the shared resource of the plugin.\<close>

definition ok_env :: env where
  "ok_env =
     \<lparr>e_auth = (\<lambda>evs. no_oauth2_lib), e_NewClient = (\<lambda>evs opts. Inr (Some (length evs))),
      e_CreateProducer = (\<lambda>evs c opts. Inr (Some (length evs))),
      e_Subscribe = (\<lambda>evs c opts. Inr (Some (length evs))),
      e_Send = (\<lambda>evs h m. None),
      e_Unsubscribe = (\<lambda>evs h. None),
      e_RegisterShared = (\<lambda>evs n v. None),
      e_RegisterPrivate = (\<lambda>evs n v. None),
      e_order = (\<lambda>evs ks. ks)\<rparr>"

definition refusing_env :: env where
  "refusing_env = ok_env
     \<lparr>e_RegisterShared := (\<lambda>evs n v. if n = pluginName then Some ''refused'' else None)\<rparr>"

definition no_consumer_env :: env where
  "no_consumer_env = ok_env\<lparr>e_Subscribe := (\<lambda>evs c opts. Inl ''no such topic'')\<rparr>"

text \<open>A new plugin with a runtime, configured by default.\<close>

definition fresh_plugin :: PulsarClient where
  "fresh_plugin = (NewPulsarClient durationpb_doc)\<lparr>rt := True\<rparr>"

definition outcome :: "go_panic + go_error option \<times> PulsarClient \<Rightarrow> go_error option option" where
  "outcome r = (case r of Inl _ \<Rightarrow> None | Inr (e, _) \<Rightarrow> Some e)"

lemma outcome_Some: "outcome r = Some e \<longleftrightarrow> (\<exists>p. r = Inr (e, p))"
  by (auto simp: outcome_def split: sum.splits)

lemma enabled_default:
  "enabled_of P_Enabled (Producers (defaultPulsarConfig L)) = Inr [default_Producer L]"
  "enabled_of C_Enabled (Consumers (defaultPulsarConfig L)) = Inr [default_Consumer L]"
  by (simp_all add: default_defs)

lemma fresh_plugin_fields:
  "config fresh_plugin = defaultPulsarConfig durationpb_doc" "rt fresh_plugin"
  "loops fresh_plugin = []" "producers fresh_plugin = []" "consumers fresh_plugin = []"
  "closed fresh_plugin = False" "client fresh_plugin = None" "connectionManager fresh_plugin = None"
  by (simp_all add: fresh_plugin_def NewPulsarClient_def)

lemma default_name: "C_Name (default_Consumer L) = ''default-consumer''"
  by (simp add: default_Consumer_def)

lemmas run_simps = startupWithContext_def Background_def Let_def initializeProducers_def
  initializeConsumers_def GetEnabledProducers_def GetEnabledConsumers_def enabled_default
  fresh_plugin_fields createProducer_def createConsumer_def getClient_def setClient_def
  ok_env_def refusing_env_def no_consumer_env_def outcome_def finish_startup_def
  register_resources_def RegisterSharedResource_def abort_startup_def default_name

lemma fresh_refused:
  "\<exists>p'. startupWithContext refusing_env durationpb_doc Background fresh_plugin =
     Inr (Some (RegisterSharedFailed ''refused''), p') \<and> client p' \<noteq> None"
  by (simp add: run_simps)

lemma fresh_fails:
  "outcome (startupWithContext no_consumer_env durationpb_doc Background fresh_plugin) =
     Some (Some (InitConsumersFailed (CreateConsumerFailed ''default-consumer''
       (ErrExternal ''no such topic''))))"
  by (simp add: run_simps)

section \<open>Start-up and the runtime contract\<close>

lemma startup_publishes:
  assumes "startupWithContext E L ctx p = Inr (r, p')" and "ctx 0 = None" and "rt p"
  shows "contract_is (r = None) p'"
  using assms(1,2)
proof (cases rule: startup_cases)
  case (no_client p1 opts err)
  then show ?thesis using assms(3) by (simp add: contract_published registers_fields)
next
  case (aborted q err)
  then have "rt (closeAllResources E q)"
    using assms(3) built_rt closeAllResources_state(1) [of q E] by (simp add: same_control_def)
  with aborted show ?thesis by (auto simp: abort_startup_def contract_published)
next
  case (finished q)
  then have "rt q" using assms(3) built_rt by blast
  from finished(3) show ?thesis
    by (cases rule: finish_cases) (auto simp: contract_published registers_fields \<open>rt q\<close>)
qed

text \<open>Claim C17: whenever a start-up with a runtime gets past its first cancellation check, the
  last value it offers for all four entries of the runtime contract (shared and private
  readiness and health) is true if it succeeded and false if it returned an error, on every
  path, whatever the broker and the runtime answered before.\<close>

theorem startup_publishes_outcome:
  assumes "startupWithContext E L ctx p = Inr (r, p')" and "ctx 0 = None" and "rt p"
  shows "contract_is (r = None) p'"
  using assms by (rule startup_publishes)

theorem startup_publishes_outcome_witness:
  "\<exists>e p'. startupWithContext refusing_env durationpb_doc Background fresh_plugin = Inr (Some e, p') \<and>
     contract_is False p'"
proof -
  from fresh_refused obtain e p' where run:
    "startupWithContext refusing_env durationpb_doc Background fresh_plugin = Inr (Some e, p')"
    by blast
  from startup_publishes_outcome [OF run] show ?thesis
    using run by (auto simp: Background_def fresh_plugin_fields)
qed

lemma startup_accepted:
  assumes "accepting E" and "no_nil_entries (config p)" and "\<forall>n. ctx n = None"
  shows "\<exists>p'. startupWithContext E L ctx p = Inr (None, p')"
proof -
  from startup_total [OF assms(2)] obtain r p' where run: "startupWithContext E L ctx p = Inr (r, p')"
    by blast
  let ?p1 = "publishRuntimeContract E False False p"
  obtain h where h: "e_NewClient E (events ?p1) (buildClientOptions (e_auth E (events ?p1)) L (config p)) = Inr (Some h)"
    using accepting_answers(1) [OF assms(1)] by blast
  let ?p3 = "setClient (Some h) (emit (EvNewClient (buildClientOptions (e_auth E (events ?p1)) L (config p)) (Inr (Some h))) ?p1)"
  have c3: "client ?p3 \<noteq> None" by (simp add: setClient_def)
  from run h assms(3) obtain r4 p4 where i4: "initializeProducers E L ?p3 = Inr (r4, p4)"
    by (auto simp: startupWithContext_def Let_def bindE_Inr_iff)
  from initialize_succeeds(1) [OF assms(1) c3 i4] i4 have i4: "initializeProducers E L ?p3 = Inr (None, p4)"
    by simp
  have c4: "client p4 \<noteq> None" using initializeProducers_frame(2) [OF i4] c3 by simp
  from run h assms(3) i4 obtain r5 p5 where i5: "initializeConsumers E L p4 = Inr (r5, p5)"
    by (auto simp: startupWithContext_def Let_def bindE_Inr_iff)
  from initialize_succeeds(2) [OF assms(1) c4 i5] i5 have i5: "initializeConsumers E L p4 = Inr (None, p5)"
    by simp
  have c5: "client p5 \<noteq> None" using initializeConsumers_frame(2) [OF i5] c4 by simp
  from run h assms(3) i4 i5 have fin: "finish_startup E p5 = (r, p')"
    by (auto simp: startupWithContext_def Let_def)
  then have "r = None"
  proof (cases rule: finish_cases)
    case (register_failed q1 e)
    then show ?thesis by (simp add: RegisterSharedResource_def accepting_answers(4) [OF assms(1)])
  qed (use c5 in auto)
  with run show ?thesis by blast
qed

lemma ok_env_accepting: "accepting ok_env"
  by (simp add: accepting_def ok_env_def)

lemma fresh_no_nil: "no_nil_entries (config fresh_plugin)"
  by (simp add: no_nil_entries_def fresh_plugin_fields default_defs)

lemma fresh_runs:
  "\<exists>p'. startupWithContext ok_env durationpb_doc Background fresh_plugin = Inr (None, p')"
  by (rule startup_accepted [OF ok_env_accepting fresh_no_nil]) (simp add: Background_def)

section \<open>A successful start-up\<close>

lemma startup_ready:
  assumes "startupWithContext E L ctx p = Inr (None, p')"
  shows "GetClient p' \<noteq> None \<and> all_registered p' \<and> CheckHealth p' = None \<and>
    IsConnected p' = (\<not> isClosed p) \<and> config p' = config p \<and> loops p' = loops p \<and>
    closeChan_closed p' = closeChan_closed p"
proof -
  from assms have "ctx 0 = None" by (auto simp: startupWithContext_def split: option.splits)
  with assms show ?thesis
  proof (cases rule: startup_cases)
    case (aborted q err)
    then show ?thesis by (simp add: abort_startup_def)
  next
    case (finished q)
    from finished(1) have q: "config q = config p" "loops q = loops p" "closed q = closed p"
      "closeChan_closed q = closeChan_closed p" by (auto simp: built_def grown_def same_control_def)
    from finished(3) show ?thesis
    proof (cases rule: finish_cases)
      case (success q1)
      have "registers (started q) p'" by (rule finish_registers [OF finished(3)])
      note f = registers_fields [OF this] CheckHealth_started [OF this]
      have "IsConnected p' = (\<not> closed q)"
        using success(3) by (auto simp: IsConnected_def f ConnectionManager_IsConnected_def
            ConnectionManager_Start_def split: option.splits)
      with success(3) finished(2) q show ?thesis
        by (simp add: f GetClient_def getClient_def isClosed_def all_registered_def)
    qed simp_all
  qed simp
qed

text \<open>Claim C1: when a start-up returns no error the client exists, every enabled producer and
  consumer has an entry in the registry, the health check passes, the plugin reports itself
  connected unless it had been closed before, and the configuration, the receive loops and the
  state of the shutdown channel are as they were.\<close>

theorem startup_success_ready:
  assumes "startupWithContext E L ctx p = Inr (None, p')"
  shows "GetClient p' \<noteq> None \<and> all_registered p' \<and> CheckHealth p' = None \<and>
    IsConnected p' = (\<not> isClosed p) \<and> config p' = config p \<and> loops p' = loops p \<and>
    closeChan_closed p' = closeChan_closed p"
  using assms by (rule startup_ready)

theorem startup_success_ready_witness:
  "\<exists>p'. startupWithContext ok_env durationpb_doc Background fresh_plugin = Inr (None, p') \<and>
     IsConnected p' \<and> all_registered p'"
proof -
  from fresh_runs obtain p' where
    run: "startupWithContext ok_env durationpb_doc Background fresh_plugin = Inr (None, p')" ..
  from startup_success_ready [OF run] run show ?thesis
    by (auto simp: isClosed_def fresh_plugin_fields)
qed

text \<open>A start-up that is not cancelled, with a configuration without nil entries, a
  broker that accepts every creation and a runtime that accepts the plugin, returns success:
  the plugin adds no failure of its own.\<close>

theorem startup_succeeds:
  assumes "accepting E" and "no_nil_entries (config p)" and "\<forall>n. ctx n = None"
  shows "\<exists>p'. startupWithContext E L ctx p = Inr (None, p')"
  using assms by (rule startup_accepted)

theorem startup_succeeds_witness:
  "\<exists>p'. startupWithContext ok_env durationpb_doc Background fresh_plugin = Inr (None, p')"
  by (rule startup_succeeds [OF ok_env_accepting fresh_no_nil]) (simp add: Background_def)

section \<open>A failed start-up\<close>

text \<open>What \<open>closeAllResources\<close> releases when no regex loop is running.\<close>

lemma closeAllResources_releases:
  assumes "go_wf (producers q)" and "go_wf (consumers q)" and "regex_names (loops q) = []"
  obtains evs where "events (closeAllResources E q) = events q @ evs"
    and "\<forall>h. client q = Some h \<longrightarrow> EvClientClose h \<in> set evs"
    and "\<forall>n h. go_get (producers q) n = Some (Some h) \<longrightarrow> EvProducerClose h \<in> set evs"
    and "\<forall>n h. go_get (consumers q) n = Some (Some h) \<longrightarrow> EvConsumerClose h \<in> set evs"
    and "made_by made_client evs = {}" and "made_by made_producer evs = {}"
    and "made_by made_consumer evs = {}"
proof -
  obtain ids ks ks' where ev: "events (closeAllResources E q) =
     events q @ map EvCancel ids @
     close_events EvConsumerClose (go_range ks (remaining_consumers q)) @
     close_events EvProducerClose (go_range ks' (producers q)) @
     (case client q of None \<Rightarrow> [] | Some c \<Rightarrow> [EvClientClose c])"
    by (rule closeAllResources_events)
  have rc: "remaining_consumers q = consumers q"
    using assms(3) by (simp add: remaining_consumers_def)
  let ?evs = "map EvCancel ids @ close_events EvConsumerClose (go_range ks (consumers q)) @
     close_events EvProducerClose (go_range ks' (producers q)) @
     (case client q of None \<Rightarrow> [] | Some c \<Rightarrow> [EvClientClose c])"
  show ?thesis
  proof (rule that [of ?evs])
    show "\<forall>n h. go_get (producers q) n = Some (Some h) \<longrightarrow> EvProducerClose h \<in> set ?evs"
      using assms(1) by (auto simp: set_close_events go_get_in_set)
    show "\<forall>n h. go_get (consumers q) n = Some (Some h) \<longrightarrow> EvConsumerClose h \<in> set ?evs"
      using assms(2) by (auto simp: set_close_events go_get_in_set)
  qed (auto simp: ev rc made_by_def set_close_events split: option.splits)
qed

lemma abort_releases:
  assumes "built p q" and "abort_startup E err q = (r, p')"
    and "go_wf (producers p)" and "go_wf (consumers p)" and "regex_names (loops p) = []"
  shows "\<exists>evs evs'. events p' = events p @ evs @ evs' \<and> (distinct_names (config p) \<longrightarrow>
    (\<forall>h\<in>made_by made_client evs. EvClientClose h \<in> set evs') \<and>
    (\<forall>h\<in>made_by made_producer evs. EvProducerClose h \<in> set evs') \<and>
    (\<forall>h\<in>made_by made_consumer evs. EvConsumerClose h \<in> set evs')) \<and>
    made_by made_client evs' = {} \<and> made_by made_producer evs' = {} \<and>
    made_by made_consumer evs' = {}"
proof -
  from assms(1) obtain evs where evs: "events q = events p @ evs"
    "distinct_names (config p) \<longrightarrow> holds_made q evs" by (auto simp: built_def)
  from assms(1,3-5) have "go_wf (producers q)" "go_wf (consumers q)" "regex_names (loops q) = []"
    by (auto simp: built_def grown_def)
  then obtain es where es: "events (closeAllResources E q) = events q @ es"
    "\<forall>h. client q = Some h \<longrightarrow> EvClientClose h \<in> set es"
    "\<forall>n h. go_get (producers q) n = Some (Some h) \<longrightarrow> EvProducerClose h \<in> set es"
    "\<forall>n h. go_get (consumers q) n = Some (Some h) \<longrightarrow> EvConsumerClose h \<in> set es"
    "made_by made_client es = {}" "made_by made_producer es = {}" "made_by made_consumer es = {}"
    by (rule closeAllResources_releases)
  from registers_fields(17) [OF registers_contract] obtain es' where es':
    "events p' = events (closeAllResources E q) @ es'" "\<forall>e\<in>set es'. is_registration e"
    using assms(2) by (fastforce simp: abort_startup_def)
  show ?thesis
    using evs es es'(1) made_by_registration [OF es'(2)]
    by (intro exI [of _ evs] exI [of _ "es @ es'"]) (auto simp: holds_made_def)
qed

text \<open>Claim C11: when a start-up returns an error other than the runtime's refusal of the plugin,
  every client, producer and consumer that it created is closed after its creation: with
  distinct names, well-formed registries and no regex loop running, nothing is leaked.\<close>

theorem failed_startup_releases:
  assumes "startupWithContext E L ctx p = Inr (Some err, p')"
    and "\<forall>e. err \<noteq> RegisterSharedFailed e"
    and "distinct_names (config p)" and "go_wf (producers p)" and "go_wf (consumers p)"
    and "regex_names (loops p) = []"
  shows "\<exists>evs evs'. events p' = events p @ evs @ evs' \<and>
    (\<forall>h\<in>made_by made_client evs. EvClientClose h \<in> set evs') \<and>
    (\<forall>h\<in>made_by made_producer evs. EvProducerClose h \<in> set evs') \<and>
    (\<forall>h\<in>made_by made_consumer evs. EvConsumerClose h \<in> set evs') \<and>
    made_by made_client evs' = {} \<and> made_by made_producer evs' = {} \<and>
    made_by made_consumer evs' = {}"
proof (cases "ctx 0")
  case (Some e)
  with assms(1) show ?thesis
    by (intro exI [of _ "[]"]) (simp add: startupWithContext_def)
next
  case None
  have quiet: ?thesis if "events p' = events p @ evs" "made_by made_client evs = {}"
    "made_by made_producer evs = {}" "made_by made_consumer evs = {}" for evs
    using that by (intro exI [of _ evs] exI [of _ "[]"]) simp
  from assms(1) None show ?thesis
  proof (cases rule: startup_cases)
    case (no_client p1 opts e)
    from registers_fields(17) [OF no_client(1)] obtain es where es: "events p1 = events p @ es"
      "\<forall>e\<in>set es. is_registration e" by blast
    obtain es' where "events p' = events p1 @ [EvNewClient opts (Inl e)] @ es'"
      "\<forall>e\<in>set es'. is_registration e"
      using registers_fields(17) [OF registers_contract
          [of "emit (EvNewClient opts (Inl e)) p1" E False False]] no_client(3) by auto
    with es show ?thesis
      by (intro quiet [of "es @ [EvNewClient opts (Inl e)] @ es'"])
        (simp_all add: made_by_registration)
  next
    case (aborted q e)
    from abort_releases [OF this(1,2) assms(4-6)] assms(3) show ?thesis by simp
  next
    case (finished q)
    from finished(1) obtain evs where evs: "events q = events p @ evs" "holds_made q evs"
      using assms(3) by (auto simp: built_def)
    from finished(3) show ?thesis
    proof (cases rule: finish_cases)
      case (unhealthy q1)
      from registers_fields(17) [OF finish_registers [OF finished(3)]] obtain es where
        es: "events p' = events (started q) @ es" "\<forall>e\<in>set es. is_registration e" by blast
      have "made_by made (probe_started q) = {}" if "\<And>d. made (EvGoProbe d) = None" for made
        using that by (auto simp: made_by_def probe_started_def split: option.splits if_splits)
      moreover have "made_by made_client evs = {}"
        using evs(2) unhealthy(3) by (auto simp: holds_made_def)
      ultimately show ?thesis
        using es evs unhealthy(3) made_by_registration [OF es(2)]
        by (intro quiet [of "evs @ probe_started q @ es"])
          (simp_all add: started_events holds_made_def)
    qed (use assms(2) in auto)
  qed
qed

lemma default_names: "distinct_names (config fresh_plugin)"
  by (simp add: distinct_names_def fresh_plugin_fields enabled_default)

theorem failed_startup_releases_witness:
  "\<exists>p' evs evs' e. startupWithContext no_consumer_env durationpb_doc Background fresh_plugin =
      Inr (Some (InitConsumersFailed e), p') \<and>
     events p' = events fresh_plugin @ evs @ evs' \<and>
     (\<forall>h\<in>made_by made_producer evs. EvProducerClose h \<in> set evs')"
proof -
  from fresh_fails obtain e p' where run:
    "startupWithContext no_consumer_env durationpb_doc Background fresh_plugin =
      Inr (Some (InitConsumersFailed e), p')"
    by (auto simp: outcome_Some)
  from failed_startup_releases [OF run _ default_names] show ?thesis
    using run by (auto simp: fresh_plugin_fields regex_names_def)
qed

text \<open>The steps after the creation of the resources close none of them.\<close>

lemma started_keeps:
  assumes "built p q" and "registers (started q) p'"
  shows "\<exists>evs. events p' = events p @ evs \<and> (\<forall>e\<in>set evs. \<not> is_close e) \<and>
    (distinct_names (config p) \<longrightarrow> holds_made p' evs)"
proof -
  from assms(1) obtain evs where evs: "events q = events p @ evs" "\<forall>e\<in>set evs. \<not> is_close e"
    "distinct_names (config p) \<longrightarrow> holds_made q evs" by (auto simp: built_def)
  note f = registers_fields(1-16) [OF assms(2)]
  from registers_fields(17) [OF assms(2)] obtain es where es: "events p' = events (started q) @ es"
    "\<forall>e\<in>set es. is_registration e" by blast
  let ?es = "probe_started q @ es"
  have quiet: "\<forall>e\<in>set (probe_started q). \<not> is_close e \<and> made_client e = None \<and>
      made_producer e = None \<and> made_consumer e = None"
    by (auto simp: probe_started_def split: option.splits)
  then have none: "made_by made_client (probe_started q) = {}"
    "made_by made_producer (probe_started q) = {}" "made_by made_consumer (probe_started q) = {}"
    by (auto simp: made_by_def)
  have "made_by made_client ?es = {}" "made_by made_producer ?es = {}" "made_by made_consumer ?es = {}"
    using none made_by_registration [OF es(2)] by simp_all
  with evs(3) have "distinct_names (config p) \<longrightarrow> holds_made p' (evs @ ?es)"
    using holds_made_extend [of q evs p' ?es] by (simp add: f)
  moreover have "\<forall>e\<in>set (evs @ ?es). \<not> is_close e" using evs(2) es(2) quiet not_close by auto
  moreover have "events p' = events p @ (evs @ ?es)" by (simp add: es(1) evs(1) started_events)
  ultimately show ?thesis by blast
qed

text \<open>Claim C31: when the runtime refuses the plugin, the start-up returns that error and releases
  nothing: it makes no close call; with distinct names of the enabled entries, every client,
  producer and consumer that it created is still in its place in the plugin, and every
  enabled entry has a registration in any case. The contract it publishes says that it is not
  ready; yet the health check passes exactly if there is a client, and the plugin reports
  itself connected exactly if there is a client and it had not been closed before.\<close>

theorem refused_startup_keeps_open:
  assumes "startupWithContext E L ctx p = Inr (Some (RegisterSharedFailed e), p')"
  shows "(\<exists>evs. events p' = events p @ evs \<and> (\<forall>e\<in>set evs. \<not> is_close e) \<and>
      (distinct_names (config p) \<longrightarrow> holds_made p' evs)) \<and>
    all_registered p' \<and> CheckHealth p' = (if client p' = None then Some ClientNotInitialized else None) \<and>
    IsConnected p' = (client p' \<noteq> None \<and> \<not> isClosed p) \<and> contract_is False p'"
proof -
  from assms have "ctx 0 = None" by (auto simp: startupWithContext_def split: option.splits)
  with assms show ?thesis
  proof (cases rule: startup_cases)
    case (aborted q err)
    then show ?thesis by (simp add: abort_startup_def)
  next
    case (finished q)
    have reg: "registers (started q) p'" by (rule finish_registers [OF finished(3)])
    note f = registers_fields(1-16) [OF reg]
    have "closed q = closed p" using finished(1) by (simp add: built_def grown_def same_control_def)
    then have "IsConnected p' = (client p' \<noteq> None \<and> \<not> isClosed p)"
      "CheckHealth p' = (if client p' = None then Some ClientNotInitialized else None)"
      using CheckHealth_started [OF reg]
      by (auto simp: IsConnected_def isClosed_def f ConnectionManager_IsConnected_def
          ConnectionManager_Start_def split: option.splits)
    moreover have "contract_is False p'"
      using finished(3)
      by (cases rule: finish_cases) (auto simp: contract_published registers_fields)
    ultimately show ?thesis
      using started_keeps [OF finished(1) reg] finished(2) by (simp add: all_registered_def f)
  qed simp
qed

theorem refused_startup_keeps_open_witness:
  "\<exists>p'. startupWithContext refusing_env durationpb_doc Background fresh_plugin =
      Inr (Some (RegisterSharedFailed ''refused''), p') \<and> IsConnected p' \<and> contract_is False p'"
proof -
  from fresh_refused obtain p' where run:
    "startupWithContext refusing_env durationpb_doc Background fresh_plugin =
      Inr (Some (RegisterSharedFailed ''refused''), p')" "client p' \<noteq> None" by blast
  have "\<not> isClosed fresh_plugin" by (simp add: isClosed_def fresh_plugin_fields)
  with refused_startup_keeps_open [OF run(1)] run show ?thesis by blast
qed

end
