(* ===== verification/CleanupSpec.thy ===== *)
theory CleanupSpec
  imports StartupSpec
begin

text \<open>
  What a clean-up promises: it cannot panic on a well-formed plugin, releases every resource
  exactly once, the receive loops first, then consumers, producers and the client, leaves the
  plugin empty and closed, and a second clean-up calls nothing but the runtime.
\<close>

section \<open>Panic freedom\<close>

lemma close_once_ok:
  assumes "closeChan_closed p = closeOnce_done p"
  shows "close_once p = Inr (p\<lparr>closeOnce_done := True, closeChan_closed := True\<rparr>)"
  using assms by (cases "closeOnce_done p") (simp_all add: close_once_def close_chan_def)

lemma stop_health_checker_ok:
  assumes "\<forall>h. healthChecker p = Some h \<longrightarrow> hc_inv h"
  obtains hc where "stop_health_checker p = Inr (p\<lparr>healthChecker := hc\<rparr>)"
    and "\<forall>h. hc = Some h \<longrightarrow> hc_inv h \<and> HC_stopped h"
    and "map_option HC_interval hc = map_option HC_interval (healthChecker p)"
proof (cases "healthChecker p")
  case None
  then have "stop_health_checker p = Inr (p\<lparr>healthChecker := None\<rparr>)"
    by (simp add: stop_health_checker_def)
  then show ?thesis using None by (intro that) auto
next
  case (Some h)
  with assms have inv: "hc_inv h" by simp
  from hc.step_ok [OF inv, of HcStop] obtain h' where h': "HealthChecker_Stop h = Inr h'" "hc_inv h'"
    by auto
  moreover have "HC_stopped h'" by (rule hc_Stop_stops [OF inv]) (simp add: h')
  moreover have "HC_interval h' = HC_interval h"
    using h'(1) by (auto simp: HealthChecker_Stop_def bindE_Inr_iff split: if_splits)
  ultimately show ?thesis using Some by (intro that) (auto simp: stop_health_checker_def)
qed

lemma stop_connection_manager_ok:
  assumes "\<forall>c. connectionManager p = Some c \<longrightarrow> cm_inv c"
  obtains cm where "stop_connection_manager p = Inr (p\<lparr>connectionManager := cm\<rparr>)"
    and "\<forall>c. cm = Some c \<longrightarrow> cm_inv c \<and> \<not> ConnectionManager_IsConnected c \<and> CM_stopped c"
proof (cases "connectionManager p")
  case None
  then have "stop_connection_manager p = Inr (p\<lparr>connectionManager := None\<rparr>)"
    by (simp add: stop_connection_manager_def)
  then show ?thesis by (rule that) simp
next
  case (Some c)
  with assms have inv: "cm_inv c" by simp
  from cm.step_ok [OF inv, of CmStop] obtain c' where c': "ConnectionManager_Stop c = Inr c'" "cm_inv c'"
    by auto
  moreover have "\<not> ConnectionManager_IsConnected c'"
    using cm.step_sets [OF inv, of CmStop c'] c' by simp
  moreover have "CM_stopped c'"
    using c'(1) by (auto simp: ConnectionManager_Stop_def Let_def bindE_Inr_iff split: if_splits)
  ultimately show ?thesis using Some by (intro that) (auto simp: stop_connection_manager_def)
qed

section \<open>What a clean-up does\<close>

text \<open>The state that \<open>closeAllResources\<close> starts from, and the result.\<close>

lemma cleanup_result:
  assumes "client_wf p" and "ctx 0 = None"
  obtains q hc cm where "cleanupWithContext E ctx p = Inr (None, closeAllResources E q)"
    and "q = (publishRuntimeContract E False False p)
      \<lparr>closeOnce_done := True, closeChan_closed := True, closed := True,
       healthChecker := hc, connectionManager := cm\<rparr>"
    and "\<forall>h. hc = Some h \<longrightarrow> hc_inv h \<and> HC_stopped h"
    and "map_option HC_interval hc = map_option HC_interval (healthChecker p)"
    and "\<forall>c. cm = Some c \<longrightarrow> cm_inv c \<and> \<not> ConnectionManager_IsConnected c \<and> CM_stopped c"
proof -
  let ?p0 = "publishRuntimeContract E False False p"
  let ?p1 = "?p0\<lparr>closeOnce_done := True, closeChan_closed := True\<rparr>"
  let ?p2 = "?p1\<lparr>closed := True\<rparr>"
  have once: "close_once ?p0 = Inr ?p1"
    using assms(1) by (intro close_once_ok) (simp add: client_wf_def)
  have "\<forall>h. healthChecker ?p2 = Some h \<longrightarrow> hc_inv h" using assms(1) by (simp add: client_wf_def)
  then obtain hc where hc: "stop_health_checker ?p2 = Inr (?p2\<lparr>healthChecker := hc\<rparr>)"
    "\<forall>h. hc = Some h \<longrightarrow> hc_inv h \<and> HC_stopped h"
    "map_option HC_interval hc = map_option HC_interval (healthChecker ?p2)"
    by (rule stop_health_checker_ok)
  let ?p3 = "?p2\<lparr>healthChecker := hc\<rparr>"
  have "\<forall>c. connectionManager ?p3 = Some c \<longrightarrow> cm_inv c" using assms(1) by (simp add: client_wf_def)
  then obtain cm where cm: "stop_connection_manager ?p3 = Inr (?p3\<lparr>connectionManager := cm\<rparr>)"
    "\<forall>c. cm = Some c \<longrightarrow> cm_inv c \<and> \<not> ConnectionManager_IsConnected c \<and> CM_stopped c"
    by (rule stop_connection_manager_ok)
  have "cleanupWithContext E ctx p = Inr (None, closeAllResources E (?p3\<lparr>connectionManager := cm\<rparr>))"
    by (simp add: cleanupWithContext_def assms(2) once hc(1) cm(1))
  from that [OF this refl hc(2) _ cm(2)] hc(3) show ?thesis by simp
qed

text \<open>The emptied plugin is well formed.\<close>

lemma cleanup_state:
  assumes "client_wf p" and "ctx 0 = None"
  obtains p' where "cleanupWithContext E ctx p = Inr (None, p')"
    and "closed p'" and "client p' = None" and "producers p' = []" and "consumers p' = []"
    and "subscriptions p' = []" and "loops p' = []" and "closeChan_closed p'" and "closeOnce_done p'"
    and "config p' = config p" and "rt p' = rt p" and "metrics p' = metrics p"
    and "healthStatus p' = healthStatus p"
    and "\<forall>h. healthChecker p' = Some h \<longrightarrow> hc_inv h \<and> HC_stopped h"
    and "map_option HC_interval (healthChecker p') = map_option HC_interval (healthChecker p)"
    and "\<forall>c. connectionManager p' = Some c \<longrightarrow> cm_inv c \<and> \<not> ConnectionManager_IsConnected c \<and> CM_stopped c"
proof -
  obtain q hc cm where
    r: "cleanupWithContext E ctx p = Inr (None, closeAllResources E q)"
    and q: "q = (publishRuntimeContract E False False p)
      \<lparr>closeOnce_done := True, closeChan_closed := True, closed := True,
       healthChecker := hc, connectionManager := cm\<rparr>"
    and hc: "\<forall>h. hc = Some h \<longrightarrow> hc_inv h \<and> HC_stopped h"
    "map_option HC_interval hc = map_option HC_interval (healthChecker p)"
    and cm: "\<forall>c. cm = Some c \<longrightarrow> cm_inv c \<and> \<not> ConnectionManager_IsConnected c \<and> CM_stopped c"
    by (rule cleanup_result [where p = p and ctx = ctx and E = E, OF assms])
  have "same_control q (closeAllResources E q)" by (rule closeAllResources_state)
  then show ?thesis
    using hc cm by (intro that [OF r]) (simp_all add: q same_control_def closeAllResources_state)
qed

text \<open>Claim C15: a clean-up that is not cancelled never panics on a well-formed plugin (neither
  channel is closed twice) and returns no error; afterwards the plugin is closed, not
  connected, holds no client, producer, consumer, subscription or receive loop, its shutdown
  channel is closed, its health checker is stopped, and it is still well formed.\<close>

theorem cleanup_empties:
  assumes "client_wf p" and "ctx 0 = None"
  shows "\<exists>p'. cleanupWithContext E ctx p = Inr (None, p') \<and>
    isClosed p' \<and> \<not> IsConnected p' \<and> GetClient p' = None \<and> producers p' = [] \<and>
    consumers p' = [] \<and> subscriptions p' = [] \<and> loops p' = [] \<and> closeChan_closed p' \<and>
    (\<forall>h. healthChecker p' = Some h \<longrightarrow> HC_stopped h) \<and> client_wf p'"
  using assms
  by (rule cleanup_state [where E = E])
    (auto simp: isClosed_def IsConnected_def GetClient_def getClient_def client_wf_def)

lemma fresh_plugin_wf: "client_wf fresh_plugin"
  by (simp add: client_wf_def fresh_plugin_def NewPulsarClient_def)

text \<open>A plugin in use: one producer, two consumers (one of them nil), one of them drained by a
  receive loop.\<close>

definition busy_plugin :: PulsarClient where
  "busy_plugin = fresh_plugin
     \<lparr>client := Some 7, producers := [(''out'', Some 3)],
      consumers := [(''in'', Some 4), (''idle'', None)],
      subscriptions := [(''in'', 0)], next_loop := 1,
      loops := [\<lparr>loop_id = 0, loop_name = ''in'', loop_consumer = Some 4, loop_regex = False\<rparr>]\<rparr>"

lemma busy_plugin_wf: "client_wf busy_plugin"
  by (auto simp: client_wf_def busy_plugin_def fresh_plugin_def NewPulsarClient_def go_wf_def
      go_keys_def go_get_def)

theorem cleanup_empties_witness:
  "\<exists>p'. cleanupWithContext ok_env Background busy_plugin = Inr (None, p') \<and> loops p' = [] \<and>
     consumers p' = [] \<and> \<not> IsConnected p'"
  using cleanup_empties [OF busy_plugin_wf, of Background ok_env] by (auto simp: Background_def)

section \<open>Order and completeness of the release\<close>

lemma mset_go_range: "go_wf m \<Longrightarrow> mset (go_range ks m) = mset m"
  by (rule set_eq_iff_mset_eq_distinct [THEN iffD1])
    (simp_all add: distinct_go_range distinct_map go_wf_def go_keys_def)

lemma mset_close_events: "go_wf m \<Longrightarrow> mset (close_events ev (go_range ks m)) = mset (close_events ev m)"
proof -
  have eq: "mset (close_events ev es) = {#ev (the (snd e)). e \<in># filter_mset (\<lambda>e. snd e \<noteq> None) (mset es)#}"
    for es by (induction es) (auto simp: close_events_def split: option.split)
  show "go_wf m \<Longrightarrow> ?thesis" by (simp add: eq mset_go_range)
qed

text \<open>The calls of a clean-up.\<close>

lemma cleanup_calls:
  assumes "client_wf p" and "ctx 0 = None" and "cleanupWithContext E ctx p = Inr (r, p')"
  shows "\<exists>regs ids cs ps. events p' =
      events p @ regs @ map EvCancel ids @ cs @ ps @
      (case GetClient p of None \<Rightarrow> [] | Some c \<Rightarrow> [EvClientClose c]) \<and>
    (\<forall>e\<in>set regs. is_registration e) \<and>
    mset cs = mset (close_events EvConsumerClose (remaining_consumers p)) \<and>
    mset ps = mset (close_events EvProducerClose (producers p))"
proof -
  obtain q hc cm where
    r: "cleanupWithContext E ctx p = Inr (None, closeAllResources E q)"
    and q: "q = (publishRuntimeContract E False False p)
      \<lparr>closeOnce_done := True, closeChan_closed := True, closed := True,
       healthChecker := hc, connectionManager := cm\<rparr>"
    by (rule cleanup_result [where p = p and ctx = ctx and E = E, OF assms(1,2)])
  have p': "p' = closeAllResources E q" using assms(3) r by simp
  have rc: "remaining_consumers q = remaining_consumers p" by (simp add: q remaining_consumers_def)
  have cq: "client q = client p" "producers q = producers p" by (simp_all add: q)
  have wf: "go_wf (producers p)" "go_wf (remaining_consumers p)"
    using assms(1) by (simp_all add: client_wf_def go_wf_remaining)
  obtain regs where regs: "events q = events p @ regs" "\<forall>e\<in>set regs. is_registration e"
    using registers_fields(17) [OF registers_contract [of p E False False]] by (auto simp: q)
  obtain ids ks ks' where ev: "events (closeAllResources E q) = events q @ map EvCancel ids @
     close_events EvConsumerClose (go_range ks (remaining_consumers q)) @
     close_events EvProducerClose (go_range ks' (producers q)) @
     (case client q of None \<Rightarrow> [] | Some c \<Rightarrow> [EvClientClose c])"
    by (rule closeAllResources_events)
  show ?thesis
    by (rule exI [of _ regs], rule exI [of _ ids],
        rule exI [of _ "close_events EvConsumerClose (go_range ks (remaining_consumers p))"],
        rule exI [of _ "close_events EvProducerClose (go_range ks' (producers p))"])
      (simp add: p' ev regs rc cq mset_close_events wf GetClient_def getClient_def)
qed

text \<open>Claim C6: the calls of a clean-up are, in this order: registrations with the runtime, the
  cancellations of the receive loops, one close per open consumer (the consumers of regex
  loops apart, which their loops have removed by then), one close per open producer, and one
  close of the client if there is one. Each close happens exactly once, in any order within
  its group.\<close>

theorem cleanup_release_order:
  assumes "client_wf p" and "ctx 0 = None" and "cleanupWithContext E ctx p = Inr (r, p')"
  shows "\<exists>regs ids cs ps. events p' =
      events p @ regs @ map EvCancel ids @ cs @ ps @
      (case GetClient p of None \<Rightarrow> [] | Some c \<Rightarrow> [EvClientClose c]) \<and>
    (\<forall>e\<in>set regs. is_registration e) \<and>
    mset cs = mset (close_events EvConsumerClose (remaining_consumers p)) \<and>
    mset ps = mset (close_events EvProducerClose (producers p))"
  using assms by (rule cleanup_calls)

theorem cleanup_release_order_witness:
  "\<exists>p' regs ids. cleanupWithContext ok_env Background busy_plugin = Inr (None, p') \<and>
     events p' = regs @ map EvCancel ids @ [EvConsumerClose 4, EvProducerClose 3, EvClientClose 7]"
proof -
  have bg: "Background 0 = None" by (simp add: Background_def)
  from busy_plugin_wf bg obtain p' where
    run: "cleanupWithContext ok_env Background busy_plugin = Inr (None, p')"
    by (rule cleanup_state [where E = ok_env])
  from cleanup_release_order [OF busy_plugin_wf bg run] show ?thesis
    using run by (auto simp: busy_plugin_def fresh_plugin_def NewPulsarClient_def GetClient_def
        getClient_def close_events_def remaining_consumers_def regex_names_def)
qed

lemma closeAllResources_empty:
  assumes "subscriptions p = []" "loops p = []" "consumers p = []" "producers p = []" "client p = None"
  shows "closeAllResources E p = p"
  by (rule PulsarClient.equality)
    (simp_all add: closeAllResources_def stopReceivers_def Let_def assms close_events_def)

lemma stop_stopped:
  "\<forall>h. healthChecker p = Some h \<longrightarrow> HC_stopped h \<Longrightarrow> stop_health_checker p = Inr p"
  "\<forall>c. connectionManager p = Some c \<longrightarrow> \<not> ConnectionManager_IsConnected c \<and> CM_stopped c \<Longrightarrow>
     stop_connection_manager p = Inr p"
  by (cases "healthChecker p"; cases "connectionManager p";
      simp add: stop_health_checker_def stop_connection_manager_def HealthChecker_Stop_def
        ConnectionManager_Stop_def ConnectionManager_IsConnected_def)+

text \<open>A second clean-up closes nothing again: the calls it makes are registrations with
  the runtime only, and every field of the plugin stays as the first clean-up left it.\<close>

theorem cleanup_twice:
  assumes "client_wf p" and "ctx 0 = None" and "ctx' 0 = None"
    and "cleanupWithContext E ctx p = Inr (r, p')"
  shows "\<exists>p''. cleanupWithContext E ctx' p' = Inr (None, p'') \<and> registers p' p''"
proof -
  from assms(1,2) obtain q where q: "cleanupWithContext E ctx p = Inr (None, q)"
    "closed q" "client q = None" "producers q = []" "consumers q = []"
    "subscriptions q = []" "loops q = []" "closeOnce_done q"
    "\<forall>h. healthChecker q = Some h \<longrightarrow> hc_inv h \<and> HC_stopped h"
    "\<forall>c. connectionManager q = Some c \<longrightarrow>
       cm_inv c \<and> \<not> ConnectionManager_IsConnected c \<and> CM_stopped c"
    by (rule cleanup_state [where E = E])
  let ?q = "publishRuntimeContract E False False q"
  have "?q\<lparr>closed := True\<rparr> = ?q" using q(2) by (intro PulsarClient.equality) simp_all
  moreover have "close_once ?q = Inr ?q" using q(8) by (simp add: close_once_def)
  moreover have "stop_health_checker ?q = Inr ?q" "stop_connection_manager ?q = Inr ?q"
    using q(9,10) by (intro stop_stopped; simp)+
  moreover have "closeAllResources E ?q = ?q"
    using q(3-7) by (intro closeAllResources_empty) simp_all
  ultimately have "cleanupWithContext E ctx' q = Inr (None, ?q)"
    by (simp add: cleanupWithContext_def assms(3))
  with assms(4) q(1) registers_contract show ?thesis by auto
qed

theorem cleanup_twice_witness:
  "\<exists>p' p''. cleanupWithContext ok_env Background busy_plugin = Inr (None, p') \<and>
     cleanupWithContext ok_env Background p' = Inr (None, p'') \<and> registers p' p''"
proof -
  have bg: "Background 0 = None" by (simp add: Background_def)
  from busy_plugin_wf bg obtain p' where
    run: "cleanupWithContext ok_env Background busy_plugin = Inr (None, p')"
    by (rule cleanup_state [where E = ok_env])
  from cleanup_twice [where ctx' = Background, OF busy_plugin_wf bg bg run] run show ?thesis by blast
qed

end
