(* ===== verification/Producing.thy ===== *)
theory Producing
  imports CleanupSpec
begin

text \<open>
  Sending messages (\<open>producer.go\<close>): the default producer, the synchronous, batched and
  asynchronous sends, the metrics they count, and the removal of a producer. The message id of
  a send is ignored by the code; latencies are observed without their value. The broker's
  answer to a send may depend on everything that happened before.
\<close>

section \<open>The operations\<close>

definition GetProducer :: "string \<Rightarrow> PulsarClient \<Rightarrow> handle option" where
  "GetProducer name p = (case go_get (producers p) name of Some h \<Rightarrow> h | None \<Rightarrow> None)"

definition IsProducerReady :: "string \<Rightarrow> PulsarClient \<Rightarrow> bool" where
  "IsProducerReady name p =
     (case go_get (producers p) name of Some producer \<Rightarrow> producer \<noteq> None | None \<Rightarrow> False)"

text \<open>\<open>for name := range p.producers { return name }\<close> takes the first entry of the iteration.\<close>

definition defaultProducerName :: "env \<Rightarrow> PulsarClient \<Rightarrow> string" where
  "defaultProducerName E p =
     (case go_range (e_order E (events p) (go_keys (producers p))) (producers p) of
        (name, _) # _ \<Rightarrow> name
      | [] \<Rightarrow> '''')"

definition new_message :: "bytes \<Rightarrow> bytes \<Rightarrow> string go_map option \<Rightarrow> ProducerMessage" where
  "new_message key value properties =
     \<lparr>MsgPayload = value, MsgKey = (if length key > 0 then key else ''''), MsgProperties = properties\<rparr>"

text \<open>\<open>producer.Send\<close> and the metrics of its outcome.\<close>

definition send_counted ::
  "env \<Rightarrow> handle \<Rightarrow> ProducerMessage option \<Rightarrow> PulsarClient \<Rightarrow> string option \<times> PulsarClient" where
  "send_counted E producer msg p =
     (let ans = e_Send E (events p) producer msg;
          p1 = emit (EvProducerSend producer msg ans) p
      in case ans of
           Some err \<Rightarrow> (Some err, emit (EvInc ProducerFailed) p1)
         | None \<Rightarrow> (None, emit (EvObserve ProducerLatency) (emit (EvInc ProducerSent) p1)))"

definition ProduceWith ::
  "env \<Rightarrow> string \<Rightarrow> string \<Rightarrow> bytes \<Rightarrow> bytes \<Rightarrow> PulsarClient \<Rightarrow> go_error option \<times> PulsarClient" where
  "ProduceWith E producerName topic key value p =
     (case go_get (producers p) producerName of
        Some (Some producer) \<Rightarrow>
          (case send_counted E producer (Some (new_message key value None)) p of
             (Some err, p1) \<Rightarrow> (Some (SendFailed err), p1)
           | (None, p1) \<Rightarrow> (None, p1))
      | _ \<Rightarrow> (Some (ProducerNotFound producerName), p))"

definition Produce ::
  "env \<Rightarrow> string \<Rightarrow> bytes \<Rightarrow> bytes \<Rightarrow> PulsarClient \<Rightarrow> go_error option \<times> PulsarClient" where
  "Produce E topic key value p = ProduceWith E (defaultProducerName E p) topic key value p"

definition ProduceWithProperties ::
  "env \<Rightarrow> string \<Rightarrow> bytes \<Rightarrow> bytes \<Rightarrow> string go_map option \<Rightarrow> PulsarClient \<Rightarrow>
   go_error option \<times> PulsarClient" where
  "ProduceWithProperties E topic key value properties p =
     (case GetProducer (defaultProducerName E p) p of
        None \<Rightarrow> (Some NoDefaultProducer, p)
      | Some producer \<Rightarrow>
          (case send_counted E producer (Some (new_message key value properties)) p of
             (Some err, p1) \<Rightarrow> (Some (SendFailed err), p1)
           | (None, p1) \<Rightarrow> (None, p1)))"

definition ProduceAsync ::
  "env \<Rightarrow> string \<Rightarrow> bytes \<Rightarrow> bytes \<Rightarrow> PulsarClient \<Rightarrow> go_error option \<times> PulsarClient" where
  "ProduceAsync E topic key value p =
     (case GetProducer (defaultProducerName E p) p of
        None \<Rightarrow> (Some NoDefaultProducer, p)
      | Some producer \<Rightarrow>
          (None, emit (EvProducerSendAsync producer (new_message key value None)) p))"

text \<open>The function that \<open>ProduceAsync\<close> passes to \<open>SendAsync\<close>, called with the broker's error; the
  flag says whether the user gave a callback.\<close>

definition async_completion :: "bool \<Rightarrow> string option \<Rightarrow> PulsarClient \<Rightarrow> PulsarClient" where
  "async_completion has_callback err p =
     (let p1 = emit (EvInc (if err \<noteq> None then ProducerFailed else ProducerSent)) p
      in if has_callback then emit (EvCallback err) p1 else p1)"

fun send_batch ::
  "env \<Rightarrow> handle \<Rightarrow> nat \<Rightarrow> ProducerMessage option list \<Rightarrow> PulsarClient \<Rightarrow>
   go_error option \<times> PulsarClient" where
  "send_batch E producer i [] p = (None, p)"
| "send_batch E producer i (msg # msgs) p =
     (case send_counted E producer msg p of
        (Some err, p1) \<Rightarrow> (Some (BatchSendFailed i err), p1)
      | (None, p1) \<Rightarrow> send_batch E producer (Suc i) msgs p1)"

definition ProduceBatch ::
  "env \<Rightarrow> string \<Rightarrow> ProducerMessage option list \<Rightarrow> PulsarClient \<Rightarrow>
   go_error option \<times> PulsarClient" where
  "ProduceBatch E topic messages p =
     (case GetProducer (defaultProducerName E p) p of
        None \<Rightarrow> (Some NoDefaultProducer, p)
      | Some producer \<Rightarrow> send_batch E producer 0 messages p)"

text \<open>\<open>Close\<close> of a producer; it always returns nil.\<close>

definition CloseProducer :: "string \<Rightarrow> PulsarClient \<Rightarrow> PulsarClient" where
  "CloseProducer name p =
     (case go_get (producers p) name of
        None \<Rightarrow> p
      | Some producer \<Rightarrow>
          let p1 = p\<lparr>producers := go_del name (producers p)\<rparr>
          in case producer of Some h \<Rightarrow> emit (EvProducerClose h) p1 | None \<Rightarrow> p1)"

end
