(* ===== verification/ProducingSpec.thy ===== *)
theory ProducingSpec
  imports Producing
begin

text \<open>
  Properties of the producing side: the outcome of each kind of send on every branch, the exact
  account of the metrics over any sequence of calls, the choice of the default producer, and
  the removal of a producer.
\<close>

section \<open>One send\<close>

lemma send_counted_calls:
  "send_counted E h msg p = (r, q) \<Longrightarrow>
     q = emits (case r of
        Some err \<Rightarrow> [EvProducerSend h msg (Some err), EvInc ProducerFailed]
      | None \<Rightarrow> [EvProducerSend h msg None, EvInc ProducerSent, EvObserve ProducerLatency]) p"
  by (auto simp: send_counted_def Let_def emit_emits split: option.splits)

lemma send_counted_answer: "fst (send_counted E h msg p) = e_Send E (events p) h msg"
  by (simp add: send_counted_def Let_def split: option.split)

text \<open>Sending by name makes no call and reports the name when no producer is registered
  under it or the registered one is nil; otherwise it makes exactly one send, to that
  producer, of the value with the key (none if the key is empty), returns an error exactly if
  the broker did, and counts either one failure or one success with its latency.\<close>

theorem produce_with_outcome:
  "ProduceWith E name topic key value p =
     (if IsProducerReady name p then
        let h = the (GetProducer name p);
            msg = Some \<lparr>MsgPayload = value, MsgKey = key, MsgProperties = None\<rparr>
        in case e_Send E (events p) h msg of
             None \<Rightarrow> (None, p\<lparr>events := events p @
               [EvProducerSend h msg None, EvInc ProducerSent, EvObserve ProducerLatency]\<rparr>)
           | Some err \<Rightarrow> (Some (SendFailed err), p\<lparr>events := events p @
               [EvProducerSend h msg (Some err), EvInc ProducerFailed]\<rparr>)
      else (Some (ProducerNotFound name), p))"
  by (auto simp: ProduceWith_def IsProducerReady_def GetProducer_def new_message_def
      send_counted_def Let_def emit_def split: option.splits)

section \<open>Batches\<close>

fun send_answer :: "event \<Rightarrow> string option option" where
  "send_answer (EvProducerSend _ _ ans) = Some ans"
| "send_answer _ = None"

definition answers :: "event list \<Rightarrow> string option list" where
  "answers evs = List.map_filter send_answer evs"

lemma map_filter_append: "List.map_filter f (xs @ ys) = List.map_filter f xs @ List.map_filter f ys"
  by (induction xs) (auto simp: List.map_filter_simps split: option.splits)

lemma answers_simps [simp]:
  "answers [] = []" "answers (evs @ evs') = answers evs @ answers evs'"
  "answers (EvProducerSend h m a # evs) = a # answers evs"
  "answers (EvInc c # evs) = answers evs" "answers (EvObserve k # evs) = answers evs"
  by (simp_all add: answers_def map_filter_append List.map_filter_simps)

text \<open>The calls of the accepted messages of a batch: each is sent and counted with its latency.\<close>

definition accepted :: "handle \<Rightarrow> ProducerMessage option list \<Rightarrow> event list" where
  "accepted h msgs =
     concat (map (\<lambda>m. [EvProducerSend h m None, EvInc ProducerSent, EvObserve ProducerLatency]) msgs)"

lemma accepted_simps [simp]:
  "accepted h [] = []"
  "accepted h (m # ms) = EvProducerSend h m None # EvInc ProducerSent # EvObserve ProducerLatency # accepted h ms"
  by (simp_all add: accepted_def)

text \<open>The run of a batch as the broker's answers decide it: \<open>k\<close> messages are accepted, the one after
  them is refused with \<open>err\<close>.\<close>

definition all_accepted :: "env \<Rightarrow> handle \<Rightarrow> event list \<Rightarrow> ProducerMessage option list \<Rightarrow> bool" where
  "all_accepted E h evs msgs \<longleftrightarrow>
     (\<forall>j<length msgs. e_Send E (evs @ accepted h (take j msgs)) h (msgs ! j) = None)"

definition refused_at ::
  "env \<Rightarrow> handle \<Rightarrow> event list \<Rightarrow> ProducerMessage option list \<Rightarrow> nat \<Rightarrow> string \<Rightarrow> bool" where
  "refused_at E h evs msgs k err \<longleftrightarrow>
     k < length msgs \<and> all_accepted E h evs (take k msgs) \<and>
     e_Send E (evs @ accepted h (take k msgs)) h (msgs ! k) = Some err"

lemma all_accepted_Cons:
  "all_accepted E h evs (m # ms) \<longleftrightarrow> e_Send E evs h m = None \<and>
     all_accepted E h (evs @ accepted h [m]) ms"
  by (simp add: all_accepted_def All_less_Suc2)

lemma refused_at_Cons:
  "refused_at E h evs (m # ms) 0 err \<longleftrightarrow> e_Send E evs h m = Some err"
  "refused_at E h evs (m # ms) (Suc k) err \<longleftrightarrow> e_Send E evs h m = None \<and>
     refused_at E h (evs @ accepted h [m]) ms k err"
  by (auto simp: refused_at_def all_accepted_Cons) (simp_all add: all_accepted_def)

lemma send_batch_calls:
  assumes "send_batch E h i msgs p = (r, q)"
  shows "(r = None \<and> all_accepted E h (events p) msgs \<and> q = emits (accepted h msgs) p) \<or>
    (\<exists>k err. r = Some (BatchSendFailed (i + k) err) \<and> refused_at E h (events p) msgs k err \<and>
       q = emits (accepted h (take k msgs) @
         [EvProducerSend h (msgs ! k) (Some err), EvInc ProducerFailed]) p)"
  using assms
proof (induction msgs arbitrary: i p)
  case Nil
  then show ?case by (simp add: all_accepted_def)
next
  case (Cons msg msgs)
  obtain r1 p1 where s: "send_counted E h msg p = (r1, p1)" by fastforce
  note p1 = send_counted_calls [OF s]
  have ans: "e_Send E (events p) h msg = r1" using send_counted_answer [of E h msg p] s by simp
  show ?case
  proof (cases r1)
    case (Some err)
    with Cons.prems s have "r = Some (BatchSendFailed i err)" "q = p1" by simp_all
    with p1 Some ans show ?thesis
      by (intro disjI2 exI [of _ 0] exI [of _ err]) (simp add: refused_at_Cons)
  next
    case None
    with Cons.prems s have rest: "send_batch E h (Suc i) msgs p1 = (r, q)" by simp
    have p1: "p1 = emits (accepted h [msg]) p" using p1 None by simp
    then have ev: "events p1 = events p @ accepted h [msg]" by simp
    from Cons.IH [OF rest] show ?thesis
    proof (elim disjE exE conjE)
      assume "r = None" "all_accepted E h (events p1) msgs" "q = emits (accepted h msgs) p1"
      with ans None show ?thesis by (simp add: all_accepted_Cons ev) (simp add: p1)
    next
      fix k err
      assume "r = Some (BatchSendFailed (Suc i + k) err)" "refused_at E h (events p1) msgs k err"
        "q = emits (accepted h (take k msgs) @
           [EvProducerSend h (msgs ! k) (Some err), EvInc ProducerFailed]) p1"
      with ans None show ?thesis
        by (intro disjI2 exI [of _ "Suc k"] exI [of _ err])
          (simp add: refused_at_Cons ev del: accepted_simps(1), simp add: p1)
    qed
  qed
qed

text \<open>Claim C26: what a batch does, on every branch. If there is no default producer (or a nil one) it
  returns that error and does nothing. Otherwise it sends the messages one by one to the default
  producer: if the broker accepts them all, it returns no error and has sent each message
  once, in order, and counted each as sent, with its latency; if the broker refuses one, it
  returns the index of the first refused message with the broker's error, has sent and counted
  the messages before it, has sent the refused one and counted it as failed, and neither sends
  nor counts anything else. No other result is possible.\<close>

theorem batch_stops_at_first_failure:
  assumes "ProduceBatch E topic msgs p = (r, q)"
  shows "case GetProducer (defaultProducerName E p) p of
      None \<Rightarrow> r = Some NoDefaultProducer \<and> q = p
    | Some h \<Rightarrow>
        (r = None \<and> all_accepted E h (events p) msgs \<and>
          q = p\<lparr>events := events p @ accepted h msgs\<rparr>) \<or>
        (\<exists>k err. r = Some (BatchSendFailed k err) \<and> refused_at E h (events p) msgs k err \<and>
          q = p\<lparr>events := events p @ accepted h (take k msgs) @
            [EvProducerSend h (msgs ! k) (Some err), EvInc ProducerFailed]\<rparr>)"
proof (cases "GetProducer (defaultProducerName E p) p")
  case None
  with assms show ?thesis by (simp add: ProduceBatch_def)
next
  case (Some h)
  with assms have "send_batch E h 0 msgs p = (r, q)" by (simp add: ProduceBatch_def)
  from send_batch_calls [OF this, unfolded emits_def add_0] Some show ?thesis by simp
qed

text \<open>The broker refuses the payload \<open>''x''\<close>.\<close>

definition picky_env :: env where
  "picky_env = ok_env\<lparr>e_Send := (\<lambda>evs h msg.
     case msg of Some m \<Rightarrow> if MsgPayload m = ''x'' then Some ''refused'' else None | None \<Rightarrow> None)\<rparr>"

definition batch_of :: "bytes list \<Rightarrow> ProducerMessage option list" where
  "batch_of = map (\<lambda>v. Some (new_message [] v None))"

theorem batch_stops_at_first_failure_witness:
  "\<exists>q. ProduceBatch picky_env [] (batch_of [''a'', ''x'', ''b'']) busy_plugin =
       (Some (BatchSendFailed 1 ''refused''), q) \<and>
     q = busy_plugin\<lparr>events := events busy_plugin @
       accepted 3 (batch_of [''a'']) @
       [EvProducerSend 3 (Some (new_message [] ''x'' None)) (Some ''refused''), EvInc ProducerFailed]\<rparr>"
proof -
  have run: "\<exists>q. ProduceBatch picky_env [] (batch_of [''a'', ''x'', ''b'']) busy_plugin =
       (Some (BatchSendFailed 1 ''refused''), q)"
    by (simp add: ProduceBatch_def GetProducer_def defaultProducerName_def busy_plugin_def
        go_range_def go_keys_def go_get_def List.map_filter_simps picky_env_def ok_env_def
        batch_of_def send_counted_def new_message_def Let_def)
  then obtain q where q: "ProduceBatch picky_env [] (batch_of [''a'', ''x'', ''b'']) busy_plugin =
       (Some (BatchSendFailed 1 ''refused''), q)" by blast
  have "GetProducer (defaultProducerName picky_env busy_plugin) busy_plugin = Some 3"
    by (simp add: GetProducer_def defaultProducerName_def busy_plugin_def go_range_def go_keys_def
        go_get_def List.map_filter_simps picky_env_def ok_env_def)
  with batch_stops_at_first_failure [OF q] q show ?thesis by (auto simp: batch_of_def)
qed


section \<open>The account of the metrics\<close>

datatype produce_op =
    OpProduceWith string string bytes bytes
  | OpProduce string bytes bytes
  | OpProduceWithProperties string bytes bytes "string go_map option"
  | OpProduceBatch string "ProducerMessage option list"
  | OpProduceAsync string bytes bytes
  | OpAsyncCompletion bool "string option"
  | OpCloseProducer string

fun produce_step :: "env \<Rightarrow> produce_op \<Rightarrow> PulsarClient \<Rightarrow> PulsarClient" where
  "produce_step E (OpProduceWith name topic key value) p = snd (ProduceWith E name topic key value p)"
| "produce_step E (OpProduce topic key value) p = snd (Produce E topic key value p)"
| "produce_step E (OpProduceWithProperties topic key value props) p =
     snd (ProduceWithProperties E topic key value props p)"
| "produce_step E (OpProduceBatch topic msgs) p = snd (ProduceBatch E topic msgs p)"
| "produce_step E (OpProduceAsync topic key value) p = snd (ProduceAsync E topic key value p)"
| "produce_step E (OpAsyncCompletion cb err) p = async_completion cb err p"
| "produce_step E (OpCloseProducer name) p = CloseProducer name p"

definition produce_run :: "env \<Rightarrow> produce_op list \<Rightarrow> PulsarClient \<Rightarrow> PulsarClient" where
  "produce_run E ops p = fold (produce_step E) ops p"

text \<open>The broker's acknowledgements and refusals: the answers to synchronous sends, and the errors
  with which the asynchronous sends complete.\<close>

fun async_answer :: "produce_op \<Rightarrow> string option list" where
  "async_answer (OpAsyncCompletion cb err) = [err]"
| "async_answer _ = []"

definition async_answers :: "produce_op list \<Rightarrow> string option list" where
  "async_answers ops = concat (map async_answer ops)"

definition inc_count :: "counter \<Rightarrow> event list \<Rightarrow> nat" where
  "inc_count c evs = count_list evs (EvInc c)"

definition accounted :: "event list \<Rightarrow> string option list \<Rightarrow> bool" where
  "accounted evs async \<longleftrightarrow>
     inc_count ProducerSent evs = count_list (answers evs @ async) None \<and>
     inc_count ProducerFailed evs = length (filter (\<lambda>a. a \<noteq> None) (answers evs @ async)) \<and>
     count_list evs (EvObserve ProducerLatency) = count_list (answers evs) None"

lemma accounted_append:
  "accounted evs as \<Longrightarrow> accounted evs' as' \<Longrightarrow> accounted (evs @ evs') (as @ as')"
  by (auto simp: accounted_def inc_count_def)

definition producing_frame :: "PulsarClient \<Rightarrow> event list \<Rightarrow> PulsarClient \<Rightarrow> bool" where
  "producing_frame p evs q \<longleftrightarrow> (\<exists>ps. q = p\<lparr>producers := ps, events := events p @ evs\<rparr>)"

lemma producing_frame_emits: "producing_frame p evs (emits evs p)"
  unfolding producing_frame_def emits_def by (rule exI [of _ "producers p"]) simp

lemma producing_frame_trans:
  "producing_frame p evs q \<Longrightarrow> producing_frame q evs' r \<Longrightarrow> producing_frame p (evs @ evs') r"
  by (auto simp: producing_frame_def)

lemma send_counted_account:
  assumes "send_counted E h msg p = (r, q)"
  shows "\<exists>evs. q = emits evs p \<and> accounted evs []"
proof (rule exI, rule conjI [OF send_counted_calls [OF assms]])
  show "accounted (case r of
        Some err \<Rightarrow> [EvProducerSend h msg (Some err), EvInc ProducerFailed]
      | None \<Rightarrow> [EvProducerSend h msg None, EvInc ProducerSent, EvObserve ProducerLatency]) []"
    by (cases r) (simp_all add: accounted_def inc_count_def)
qed

lemma send_batch_account:
  assumes "send_batch E h i msgs p = (r, q)"
  shows "\<exists>evs. q = emits evs p \<and> accounted evs []"
  using assms
proof (induction msgs arbitrary: i p)
  case Nil
  then show ?case by (intro exI [of _ "[]"]) (simp add: accounted_def inc_count_def)
next
  case (Cons msg msgs)
  obtain r1 p1 where s: "send_counted E h msg p = (r1, p1)" by fastforce
  from send_counted_account [OF s] obtain evs where evs: "p1 = emits evs p" "accounted evs []" by blast
  show ?case
  proof (cases r1)
    case (Some err)
    with Cons.prems s evs show ?thesis by auto
  next
    case None
    with Cons.prems s have "send_batch E h (Suc i) msgs p1 = (r, q)" by simp
    from Cons.IH [OF this] obtain evs' where "q = emits evs' p1" "accounted evs' []" by blast
    with evs accounted_append [OF evs(2), of evs' "[]"] show ?thesis
      by (intro exI [of _ "evs @ evs'"]) simp
  qed
qed

lemma accounted_nil: "accounted [] []"
  by (simp add: accounted_def inc_count_def)

lemma produce_step_account:
  "\<exists>evs. producing_frame p evs (produce_step E op p) \<and> accounted evs (async_answer op)"
proof -
  define ok where "ok q \<longleftrightarrow> (\<exists>evs. producing_frame p evs q \<and> accounted evs [])" for q
  have quiet: "ok p"
    unfolding ok_def producing_frame_def
    by (intro exI [of _ "[]"] conjI exI [of _ "producers p"]) (simp_all add: accounted_nil)
  have silent: "ok (emit (EvProducerSendAsync h m) p)" for h m
    unfolding ok_def using producing_frame_emits [of p "[EvProducerSendAsync h m]"]
    by (intro exI [of _ "[EvProducerSendAsync h m]"])
      (simp add: emit_emits accounted_def inc_count_def answers_def List.map_filter_simps)
  have send: "ok (snd (case send_counted E h m p of
      (Some err, p1) \<Rightarrow> (Some (f err), p1) | (None, p1) \<Rightarrow> (None, p1)))" for h m f
  proof -
    obtain r q where s: "send_counted E h m p = (r, q)" by fastforce
    then have "ok q" using send_counted_account [OF s] producing_frame_emits
      unfolding ok_def by blast
    then show ?thesis by (simp add: s split: option.split)
  qed
  have batch: "ok (snd (send_batch E h i msgs p))" for h i msgs
    using send_batch_account [of E h i msgs p] producing_frame_emits
    unfolding ok_def by (metis prod.collapse)
  have closed: "ok (CloseProducer name p)" for name
  proof -
    have "\<exists>ps. CloseProducer name p = p\<lparr>producers := ps, events := events p @ []\<rparr>"
      if "\<forall>h. go_get (producers p) name \<noteq> Some (Some h)"
      using that
      by (cases "go_get (producers p) name")
        (auto simp: CloseProducer_def Let_def split: option.split intro: exI [of _ "producers p"])
    moreover have "\<exists>ps. CloseProducer name p = p\<lparr>producers := ps, events := events p @ [EvProducerClose h]\<rparr>"
      if "go_get (producers p) name = Some (Some h)" for h
      using that by (auto simp: CloseProducer_def emit_def)
    moreover have "accounted [EvProducerClose h] []" for h
      by (simp add: accounted_def inc_count_def answers_def List.map_filter_simps)
    ultimately show ?thesis unfolding ok_def producing_frame_def using accounted_nil by blast
  qed
  have completed: "\<exists>evs. producing_frame p evs (async_completion cb err p) \<and> accounted evs [err]" for cb err
  proof -
    let ?evs = "EvInc (if err \<noteq> None then ProducerFailed else ProducerSent) #
      (if cb then [EvCallback err] else [])"
    have "async_completion cb err p = emits ?evs p"
      by (simp add: async_completion_def emit_emits)
    moreover have "accounted ?evs [err]"
      by (simp add: accounted_def inc_count_def answers_def List.map_filter_simps)
    ultimately show ?thesis using producing_frame_emits [of p ?evs] by auto
  qed
  have "ok (produce_step E op p)" if "async_answer op = []"
    using that
    by (cases op)
      (simp_all add: ProduceWith_def Produce_def ProduceWithProperties_def ProduceBatch_def
        ProduceAsync_def send batch quiet silent closed split: option.split)
  then show ?thesis using completed unfolding ok_def by (cases op) simp_all
qed

text \<open>Claim C14: over any sequence of producing calls and asynchronous completions, whatever the
  broker answers, the sent counter grows by the number of accepted messages, the failure
  counter by the number of refused ones, and one latency is observed per accepted synchronous
  send; apart from the producer map and the record of calls nothing of the plugin changes.\<close>

theorem produce_metrics_exact:
  "\<exists>evs. produce_run E ops p = p\<lparr>producers := producers (produce_run E ops p), events := events p @ evs\<rparr> \<and>
     inc_count ProducerSent evs = count_list (answers evs @ async_answers ops) None \<and>
     inc_count ProducerFailed evs =
       length (filter (\<lambda>a. a \<noteq> None) (answers evs @ async_answers ops)) \<and>
     count_list evs (EvObserve ProducerLatency) = count_list (answers evs) None"
proof -
  have "\<exists>evs. producing_frame p evs (produce_run E ops p) \<and> accounted evs (async_answers ops)"
  proof (induction ops arbitrary: p)
    case Nil
    then show ?case
      by (intro exI [of _ "[]"])
        (use producing_frame_emits [of p "[]"] in
          \<open>simp add: produce_run_def accounted_nil async_answers_def\<close>)
  next
    case (Cons op ops)
    let ?q = "produce_step E op p"
    from produce_step_account [of p E op] obtain evs where
      evs: "producing_frame p evs ?q" "accounted evs (async_answer op)" by blast
    from Cons.IH [of ?q] obtain evs' where
      evs': "producing_frame ?q evs' (produce_run E ops ?q)" "accounted evs' (async_answers ops)"
      by blast
    have "async_answers (op # ops) = async_answer op @ async_answers ops"
      by (simp add: async_answers_def)
    with producing_frame_trans [OF evs(1) evs'(1)] accounted_append [OF evs(2) evs'(2)] show ?case
      by (intro exI [of _ "evs @ evs'"]) (simp add: produce_run_def)
  qed
  then show ?thesis unfolding producing_frame_def accounted_def by force
qed

lemma send_counted_producers: "send_counted E h m p = (r, q) \<Longrightarrow> producers q = producers p"
  by (drule send_counted_calls) simp

lemma send_batch_producers: "producers (snd (send_batch E h i msgs p)) = producers p"
proof (cases "send_batch E h i msgs p")
  case (Pair r q)
  from send_batch_calls [OF this] obtain evs where "q = emits evs p" by blast
  with Pair show ?thesis by simp
qed

text \<open>Only the removal of a producer changes the producer map.\<close>

lemma produce_step_producers:
  assumes "\<nexists>name. op = OpCloseProducer name"
  shows "producers (produce_step E op p) = producers p"
  using assms
  by (cases op)
    (auto simp: ProduceWith_def Produce_def ProduceWithProperties_def ProduceBatch_def
      ProduceAsync_def async_completion_def Let_def send_batch_producers
      dest: send_counted_producers split: option.splits prod.splits)

section \<open>The default producer and removal\<close>

text \<open>The name that a send without a name uses is that of a registered producer, or
  empty if there is none; but it is any of them: for every registered name there is an
  iteration order of the map under which that one is taken, so with several producers the
  choice is arbitrary rather than the first configured one.\<close>

theorem default_producer_arbitrary:
  assumes "go_wf (producers p)"
  shows "(producers p = [] \<longrightarrow> defaultProducerName E p = '''') \<and>
    (producers p \<noteq> [] \<longrightarrow> go_get (producers p) (defaultProducerName E p) \<noteq> None) \<and>
    (\<forall>name h. go_get (producers p) name = Some h \<longrightarrow>
       (\<exists>order. defaultProducerName (E\<lparr>e_order := order\<rparr>) p = name))"
proof (intro conjI allI impI)
  assume ne: "producers p \<noteq> []"
  then obtain n h rest where r: "go_range (e_order E (events p) (go_keys (producers p))) (producers p) =
      (n, h) # rest" by (metis go_range_Nil_iff list.exhaust surj_pair)
  with set_go_range [OF assms] have "(n, h) \<in> set (producers p)" by (metis list.set_intros(1))
  with assms r show "go_get (producers p) (defaultProducerName E p) \<noteq> None"
    by (auto simp: defaultProducerName_def go_get_in_set [symmetric])
next
  fix name h assume "go_get (producers p) name = Some h"
  from go_range_starts_with [OF assms this] obtain ks rest where
    "go_range ks (producers p) = (name, h) # rest" by blast
  then show "\<exists>order. defaultProducerName (E\<lparr>e_order := order\<rparr>) p = name"
    by (intro exI [of _ "\<lambda>_ _. ks"]) (simp add: defaultProducerName_def)
qed (simp add: defaultProducerName_def)

theorem default_producer_arbitrary_witness:
  "\<exists>o1 o2. let p = busy_plugin\<lparr>producers := [(''a'', Some 1), (''b'', Some 2)]\<rparr> in
     defaultProducerName (ok_env\<lparr>e_order := o1\<rparr>) p = ''a'' \<and>
     defaultProducerName (ok_env\<lparr>e_order := o2\<rparr>) p = ''b''"
proof -
  let ?p = "busy_plugin\<lparr>producers := [(''a'', Some 1), (''b'', Some 2)]\<rparr>"
  have "go_wf (producers ?p)" by (simp add: go_wf_def go_keys_def)
  from default_producer_arbitrary [OF this, of ok_env]
  have any: "\<exists>order. defaultProducerName (ok_env\<lparr>e_order := order\<rparr>) ?p = name"
    if "go_get (producers ?p) name = Some h" for name h using that by blast
  have "go_get (producers ?p) ''a'' = Some (Some 1)" "go_get (producers ?p) ''b'' = Some (Some 2)"
    by (simp_all add: go_get_def)
  from any [OF this(1)] any [OF this(2)] show ?thesis by (auto simp: Let_def)
qed

text \<open>Closing a producer closes exactly the registered one, once, and removes its name
  only: afterwards a send by that name reports it missing, every other producer stays ready,
  and closing it again does nothing.\<close>

theorem close_producer_removes:
  "\<not> IsProducerReady name (CloseProducer name p) \<and>
   ProduceWith E name topic key value (CloseProducer name p) =
     (Some (ProducerNotFound name), CloseProducer name p) \<and>
   (\<forall>n. n \<noteq> name \<longrightarrow> GetProducer n (CloseProducer name p) = GetProducer n p) \<and>
   events (CloseProducer name p) = events p @
     (case GetProducer name p of Some h \<Rightarrow> [EvProducerClose h] | None \<Rightarrow> []) \<and>
   CloseProducer name (CloseProducer name p) = CloseProducer name p"
  by (auto simp: CloseProducer_def IsProducerReady_def GetProducer_def ProduceWith_def Let_def
      split: option.splits)


end
