(* ===== verification/Consuming.thy ===== *)
theory Consuming
  imports CleanupSpec
begin

text \<open>
  Receiving messages (\<open>consumer.go\<close>): subscriptions, the receive loop with its deferred calls,
  dispatch to the user's handler with panic recovery, and the removal of a consumer. The
  handler is a parameter; its answer may depend on all calls made so far. The mutexes make each
  operation atomic; one pass of a receive loop is one step, driven by the case its \<open>select\<close>
  takes.
\<close>

section \<open>Lookup\<close>

definition GetConsumer :: "string \<Rightarrow> PulsarClient \<Rightarrow> handle option" where
  "GetConsumer name p = (case go_get (consumers p) name of Some h \<Rightarrow> h | None \<Rightarrow> None)"

definition IsConsumerReady :: "string \<Rightarrow> PulsarClient \<Rightarrow> bool" where
  "IsConsumerReady name p =
     (case go_get (consumers p) name of Some c \<Rightarrow> c \<noteq> None | None \<Rightarrow> False)"

definition defaultConsumerName :: "env \<Rightarrow> PulsarClient \<Rightarrow> string" where
  "defaultConsumerName E p =
     (case go_range (e_order E (events p) (go_keys (consumers p))) (consumers p) of
        (name, _) # _ \<Rightarrow> name
      | [] \<Rightarrow> '''')"

section \<open>Dispatch\<close>

datatype handler_result = HandlerOk | HandlerErr string | HandlerPanics string

type_synonym handler = "event list \<Rightarrow> message \<Rightarrow> handler_result"

text \<open>A panic is counted by the recovering function and again as the error that it became.\<close>

definition invokeHandler ::
  "handler \<Rightarrow> message \<Rightarrow> PulsarClient \<Rightarrow> go_error option \<times> PulsarClient" where
  "invokeHandler handler msg p =
     (let (handlerErr, p1) =
        (case handler (events p) msg of
           HandlerOk \<Rightarrow> (None, p)
         | HandlerErr err \<Rightarrow> (Some (HandlerFailed err), p)
         | HandlerPanics rec \<Rightarrow> (Some (HandlerPanicked rec), emit (EvInc ConsumerFailed) p))
      in case handlerErr of
           Some err \<Rightarrow> (Some err, emit (EvInc ConsumerFailed) p1)
         | None \<Rightarrow> (None, emit (EvObserve ConsumerLatency) (emit (EvInc ConsumerReceived) p1)))"

definition dispatchMessage ::
  "handler \<Rightarrow> handle \<Rightarrow> message \<Rightarrow> PulsarClient \<Rightarrow> PulsarClient" where
  "dispatchMessage handler consumer msg p =
     (case invokeHandler handler msg p of
        (Some err, p1) \<Rightarrow> emit (EvNack consumer msg) p1
      | (None, p1) \<Rightarrow> emit (EvAck consumer msg) p1)"

section \<open>Subscriptions\<close>

definition start_loop :: "string \<Rightarrow> handle option \<Rightarrow> bool \<Rightarrow> PulsarClient \<Rightarrow> PulsarClient" where
  \<comment> \<open>registers the cancel function and starts the goroutine\<close>
  "start_loop name consumer regex p =
     p\<lparr>subscriptions := go_put name (next_loop p) (subscriptions p),
       loops := loops p @ [\<lparr>loop_id = next_loop p, loop_name = name, loop_consumer = consumer,
                            loop_regex = regex\<rparr>],
       next_loop := Suc (next_loop p)\<rparr>"

definition SubscribeWith ::
  "string \<Rightarrow> string list \<Rightarrow> handler option \<Rightarrow> PulsarClient \<Rightarrow> go_error option \<times> PulsarClient" where
  "SubscribeWith consumerName topics handler p =
     (if handler = None then (Some HandlerIsNil, p)
      else if isClosed p then (Some ShuttingDown, p)
      else
        case go_get (consumers p) consumerName of
          Some (Some consumer) \<Rightarrow>
            (if go_get (subscriptions p) consumerName \<noteq> None
             then (Some (SubscriptionActive consumerName), p)
             else (None, start_loop consumerName (Some consumer) False p))
        | _ \<Rightarrow> (Some (ConsumerNotFound consumerName), p))"

definition Subscribe ::
  "env \<Rightarrow> string list \<Rightarrow> handler option \<Rightarrow> PulsarClient \<Rightarrow> go_error option \<times> PulsarClient" where
  "Subscribe E topics handler p = SubscribeWith (defaultConsumerName E p) topics handler p"

definition regex_options :: "string \<Rightarrow> PulsarConsumerOptions" where
  "regex_options topicsPattern = zero_PulsarConsumerOptions
     \<lparr>PC_TopicsPattern := topicsPattern, PC_SubscriptionName := ''lynx-regex-subscription''\<rparr>"

text \<open>A duplicate is noticed only after the broker created a second consumer, which is closed
  again; \<open>Close\<close> of a nil consumer panics.\<close>

definition SubscribeWithRegex ::
  "env \<Rightarrow> string \<Rightarrow> handler option \<Rightarrow> PulsarClient \<Rightarrow> go_panic + go_error option \<times> PulsarClient" where
  "SubscribeWithRegex E topicsPattern handler p =
     (if handler = None then Inr (Some HandlerIsNil, p)
      else if isClosed p then Inr (Some ShuttingDown, p)
      else
        case getClient p of
          None \<Rightarrow> Inr (Some RegexClientNil, p)
        | Some c \<Rightarrow>
            let options = regex_options topicsPattern;
                ans = e_Subscribe E (events p) c options;
                p1 = emit (EvSubscribe c options ans) p
            in case ans of
                 Inl err \<Rightarrow> Inr (Some (RegexSubscribeFailed topicsPattern err), p1)
               | Inr consumer \<Rightarrow>
                   let name = ''regex:'' @ topicsPattern
                   in if go_get (subscriptions p1) name \<noteq> None
                      then
                        let p2 = (emit (EvCancel (next_loop p1)) p1)\<lparr>next_loop := Suc (next_loop p1)\<rparr>
                        in case consumer of
                             None \<Rightarrow> Inl NilPointerDereference
                           | Some h \<Rightarrow> Inr (Some (RegexActive topicsPattern),
                                            emit (EvConsumerClose h) p2)
                      else Inr (None, start_loop name consumer True
                                        (p1\<lparr>consumers := go_put name consumer (consumers p1)\<rparr>)))"

section \<open>The receive loop\<close>

datatype select_case =
    CloseChanClosed      \<comment> \<open>\<open><-p.closeChan\<close>\<close>
  | LoopCtxDone          \<comment> \<open>\<open><-loopCtx.Done()\<close>\<close>
  | ChanClosed           \<comment> \<open>\<open>consumer.Chan()\<close> is closed\<close>
  | Received message

text \<open>
  One pass of the loop \<open>l\<close>: the new state and whether the goroutine goes on. A nil consumer
  panics at \<open>consumer.Chan()\<close>; the deferred function recovers and the goroutine returns.
\<close>

definition recv_step ::
  "handler \<Rightarrow> recv_loop \<Rightarrow> select_case \<Rightarrow> PulsarClient \<Rightarrow> bool \<times> PulsarClient" where
  "recv_step handler l sel p =
     (case loop_consumer l of
        None \<Rightarrow> (False, exit_loop l p)
      | Some consumer \<Rightarrow>
          (case sel of
             CloseChanClosed \<Rightarrow> (False, exit_loop l p)
           | LoopCtxDone \<Rightarrow> (False, exit_loop l p)
           | ChanClosed \<Rightarrow> (False, exit_loop l p)
           | Received msg \<Rightarrow>
               if isClosed p then (False, exit_loop l p)
               else (True, dispatchMessage handler consumer msg p)))"

fun recv_run ::
  "handler \<Rightarrow> recv_loop \<Rightarrow> select_case list \<Rightarrow> PulsarClient \<Rightarrow> bool \<times> PulsarClient" where
  "recv_run handler l [] p = (True, p)"
| "recv_run handler l (sel # sels) p =
     (case recv_step handler l sel p of
        (False, p1) \<Rightarrow> (False, p1)
      | (True, p1) \<Rightarrow> recv_run handler l sels p1)"

section \<open>Removal\<close>

text \<open>\<open>Unsubscribe\<close> removes the consumer and asks the broker; the receive loop is left alone.\<close>

definition Unsubscribe :: "env \<Rightarrow> string \<Rightarrow> PulsarClient \<Rightarrow> go_error option \<times> PulsarClient" where
  "Unsubscribe E name p =
     (case go_get (consumers p) name of
        None \<Rightarrow> (None, p)
      | Some consumer \<Rightarrow>
          let p1 = p\<lparr>consumers := go_del name (consumers p)\<rparr>
          in case consumer of
               None \<Rightarrow> (None, p1)
             | Some h \<Rightarrow>
                 let ans = e_Unsubscribe E (events p1) h
                 in (map_option ErrExternal ans, emit (EvConsumerUnsubscribe h ans) p1))"

end
