(* ===== verification/ConsumingSpec.thy ===== *)
theory ConsumingSpec
  imports Consuming
begin

text \<open>
  Properties of the consuming side: when a subscription is accepted, what a dispatch does on
  every branch, that a receive loop answers every message exactly once and none after the
  plugin is closed, and the two ways in which a consumer is dropped without being closed.
\<close>

section \<open>Subscribing\<close>

lemma start_loop_fields [simp]:
  "config (start_loop n c r p) = config p" "rt (start_loop n c r p) = rt p"
  "client (start_loop n c r p) = client p" "producers (start_loop n c r p) = producers p"
  "consumers (start_loop n c r p) = consumers p" "closed (start_loop n c r p) = closed p"
  "closeChan_closed (start_loop n c r p) = closeChan_closed p"
  "closeOnce_done (start_loop n c r p) = closeOnce_done p"
  "metrics (start_loop n c r p) = metrics p" "healthStatus (start_loop n c r p) = healthStatus p"
  "healthChecker (start_loop n c r p) = healthChecker p"
  "connectionManager (start_loop n c r p) = connectionManager p"
  "retryManager (start_loop n c r p) = retryManager p" "events (start_loop n c r p) = events p"
  "subscriptions (start_loop n c r p) = go_put n (next_loop p) (subscriptions p)"
  "loops (start_loop n c r p) = loops p @
     [\<lparr>loop_id = next_loop p, loop_name = n, loop_consumer = c, loop_regex = r\<rparr>]"
  "next_loop (start_loop n c r p) = Suc (next_loop p)"
  by (simp_all add: start_loop_def)

text \<open>A subscription is accepted exactly when there is a handler, the plugin is not
  closed, the named consumer is registered and not nil, and no loop is registered for that
  name. A rejected one changes nothing; an accepted one calls nothing, starts exactly one
  receive loop, on that consumer, and makes every further subscription to the name fail.\<close>

theorem subscribe_guards:
  assumes "SubscribeWith name topics handler p = (r, q)"
  shows "(r = None \<longleftrightarrow> handler \<noteq> None \<and> \<not> isClosed p \<and> IsConsumerReady name p \<and>
      go_get (subscriptions p) name = None) \<and>
    (if r = None
     then events q = events p \<and> consumers q = consumers p \<and>
       (\<exists>l. loops q = loops p @ [l] \<and> loop_name l = name \<and>
          loop_consumer l = GetConsumer name p \<and> \<not> loop_regex l) \<and>
       (\<forall>topics' handler'. fst (SubscribeWith name topics' (Some handler') q) =
          Some (SubscriptionActive name))
     else q = p)"
  using assms
  by (auto simp: SubscribeWith_def IsConsumerReady_def GetConsumer_def isClosed_def
      split: option.splits prod.splits if_splits)

definition idle_plugin :: PulsarClient where
  "idle_plugin = busy_plugin\<lparr>subscriptions := [], loops := []\<rparr>"

theorem subscribe_guards_witness:
  "\<exists>q l. SubscribeWith ''in'' [] (Some (\<lambda>_ _. HandlerOk)) idle_plugin = (None, q) \<and>
     loops q = [l] \<and> loop_consumer l = Some 4 \<and>
     fst (SubscribeWith ''in'' [] (Some (\<lambda>_ _. HandlerPanics ''x'')) q) =
       Some (SubscriptionActive ''in'')"
proof -
  obtain r q where run: "SubscribeWith ''in'' [] (Some (\<lambda>_ _. HandlerOk)) idle_plugin = (r, q)"
    by fastforce
  have facts: "consumers idle_plugin = [(''in'', Some 4), (''idle'', None)]"
    "subscriptions idle_plugin = []" "loops idle_plugin = []" "closed idle_plugin = False"
    by (simp_all add: idle_plugin_def busy_plugin_def fresh_plugin_fields)
  from subscribe_guards [OF run] have "r = None"
    by (simp add: facts isClosed_def IsConsumerReady_def go_get_def)
  with subscribe_guards [OF run] run show ?thesis
    by (auto simp: facts GetConsumer_def go_get_def)
qed

section \<open>Dispatch\<close>

text \<open>A dispatched message is acknowledged exactly once if the handler returns no error
  and negatively acknowledged exactly once otherwise, a panic of the handler never escapes, a
  success is counted once with its latency, an error once as a failure; a panic is counted as
  two failures.\<close>

theorem dispatch_outcome:
  "dispatchMessage handler consumer msg p = p\<lparr>events := events p @
     (case handler (events p) msg of
        HandlerOk \<Rightarrow> [EvInc ConsumerReceived, EvObserve ConsumerLatency, EvAck consumer msg]
      | HandlerErr err \<Rightarrow> [EvInc ConsumerFailed, EvNack consumer msg]
      | HandlerPanics rec \<Rightarrow> [EvInc ConsumerFailed, EvInc ConsumerFailed, EvNack consumer msg])\<rparr>"
  by (simp add: dispatchMessage_def invokeHandler_def Let_def emit_def split: handler_result.split)

fun verdict :: "event \<Rightarrow> (bool \<times> handle \<times> message) option" where
  "verdict (EvAck h m) = Some (True, h, m)"
| "verdict (EvNack h m) = Some (False, h, m)"
| "verdict _ = None"

definition verdicts :: "event list \<Rightarrow> (bool \<times> handle \<times> message) list" where
  "verdicts evs = List.map_filter verdict evs"

lemma verdicts_simps [simp]:
  "verdicts [] = []" "verdicts (evs @ evs') = verdicts evs @ verdicts evs'"
  "verdicts (EvCancel i # evs) = verdicts evs"
proof -
  have "List.map_filter f (xs @ ys) = List.map_filter f xs @ List.map_filter f ys"
    for f :: "event \<Rightarrow> (bool \<times> handle \<times> message) option" and xs ys
    by (induction xs) (auto simp: List.map_filter_simps split: option.splits)
  then show "verdicts (evs @ evs') = verdicts evs @ verdicts evs'" by (simp add: verdicts_def)
qed (simp_all add: verdicts_def List.map_filter_simps)

lemma dispatch_verdict:
  obtains evs where "dispatchMessage handler h m p = emits evs p"
    and "verdicts evs = [(handler (events p) m = HandlerOk, h, m)]"
proof (cases "handler (events p) m")
  case HandlerOk
  then show ?thesis
    by (intro that [of "[EvInc ConsumerReceived, EvObserve ConsumerLatency, EvAck h m]"])
      (simp_all add: dispatchMessage_def invokeHandler_def emit_emits verdicts_def
        List.map_filter_simps)
next
  case (HandlerErr err)
  then show ?thesis
    by (intro that [of "[EvInc ConsumerFailed, EvNack h m]"])
      (simp_all add: dispatchMessage_def invokeHandler_def emit_emits verdicts_def
        List.map_filter_simps)
next
  case (HandlerPanics rec)
  then show ?thesis
    by (intro that [of "[EvInc ConsumerFailed, EvInc ConsumerFailed, EvNack h m]"])
      (simp_all add: dispatchMessage_def invokeHandler_def emit_emits verdicts_def
        List.map_filter_simps)
qed

section \<open>The receive loop\<close>

fun received_prefix :: "select_case list \<Rightarrow> message list" where
  "received_prefix (Received m # sels) = m # received_prefix sels"
| "received_prefix _ = []"

fun is_received :: "select_case \<Rightarrow> bool" where
  "is_received (Received m) = True"
| "is_received _ = False"

lemma recv_run_calls:
  assumes "loop_consumer l = Some h" and "\<not> isClosed p" and "recv_run handler l sels p = (alive, q)"
  shows "\<exists>evs. verdicts evs = map (\<lambda>(b, m). (b, h, m)) (zip (map fst (verdicts evs)) (received_prefix sels)) \<and>
    length (verdicts evs) = length (received_prefix sels) \<and>
    (alive \<longleftrightarrow> (\<forall>sel\<in>set sels. is_received sel)) \<and>
    q = (if alive then emits evs p else exit_loop l (emits evs p))"
  using assms(2,3)
proof (induction sels arbitrary: p)
  case Nil
  then show ?case by (intro exI [of _ "[]"]) simp
next
  case (Cons sel sels)
  show ?case
  proof (cases sel)
    case (Received m)
    obtain evs where evs: "dispatchMessage handler h m p = emits evs p"
      "verdicts evs = [(handler (events p) m = HandlerOk, h, m)]"
      by (rule dispatch_verdict)
    with Cons.prems Received assms(1)
    have rest: "recv_run handler l sels (emits evs p) = (alive, q)" "\<not> isClosed (emits evs p)"
      by (simp_all add: recv_step_def isClosed_def)
    from Cons.IH [OF rest(2,1)] obtain evs' where evs':
      "verdicts evs' = map (\<lambda>(b, m). (b, h, m)) (zip (map fst (verdicts evs')) (received_prefix sels))"
      "length (verdicts evs') = length (received_prefix sels)"
      "alive \<longleftrightarrow> (\<forall>sel\<in>set sels. is_received sel)"
      "q = (if alive then emits evs' (emits evs p) else exit_loop l (emits evs' (emits evs p)))"
      by blast
    with evs(2) Received show ?thesis
      by (intro exI [of _ "evs @ evs'"]) simp
  qed (use Cons.prems assms(1) in \<open>intro exI [of _ "[]"]; simp add: recv_step_def\<close>)+
qed

text \<open>Claim C12: while the plugin is open a receive loop takes the messages of its consumer in the
  order they arrive and gives each exactly one verdict (an acknowledgement or a negative
  one), on that consumer; it goes on for as long as it receives messages, and at the first
  other event it stops, gives no further verdict and removes itself and its subscription.\<close>

theorem receive_loop_answers_once:
  assumes "loop_consumer l = Some h" and "\<not> isClosed p" and "l \<in> set (loops p)" and "client_wf p"
    and "recv_run handler l sels p = (alive, q)"
  shows "\<exists>evs. events q = events p @ evs \<and>
    map snd (verdicts evs) = map (Pair h) (received_prefix sels) \<and>
    (alive \<longleftrightarrow> (\<forall>sel\<in>set sels. is_received sel)) \<and>
    (if alive then loops q = loops p \<and> subscriptions q = subscriptions p
     else l \<notin> set (loops q) \<and> go_get (subscriptions q) (loop_name l) = None)"
proof -
  from recv_run_calls [OF assms(1,2,5)] obtain evs where evs:
    "verdicts evs = map (\<lambda>(b, m). (b, h, m)) (zip (map fst (verdicts evs)) (received_prefix sels))"
    "length (verdicts evs) = length (received_prefix sels)"
    "alive \<longleftrightarrow> (\<forall>sel\<in>set sels. is_received sel)"
    "q = (if alive then emits evs p else exit_loop l (emits evs p))" by blast
  have "map snd (verdicts evs) = map (Pair h) (received_prefix sels)"
  proof -
    have "map snd (map (\<lambda>(b, m). (b, h, m)) (zip bs ms)) = map (Pair h) ms"
      if "length bs = length ms" for bs :: "bool list" and ms :: "message list"
      using that by (induction bs ms rule: list_induct2) auto
    with evs(1,2) show ?thesis by (metis length_map)
  qed
  moreover have "distinct (loops p)"
    using assms(4) by (auto simp: client_wf_def distinct_map)
  ultimately show ?thesis
    using evs(3,4)
    by (intro exI [of _ "if alive then evs else evs @ [EvCancel (loop_id l)]"])
      (auto simp: exit_loop_def Let_def)
qed


definition busy_loop :: recv_loop where
  "busy_loop = \<lparr>loop_id = 0, loop_name = ''in'', loop_consumer = Some 4, loop_regex = False\<rparr>"

definition even_handler :: handler where
  "even_handler = (\<lambda>evs m. if even m then HandlerOk else HandlerErr ''odd'')"

lemma busy_loop_facts:
  "loop_consumer busy_loop = Some 4" "\<not> isClosed busy_plugin" "busy_loop \<in> set (loops busy_plugin)"
  by (simp_all add: busy_loop_def busy_plugin_def isClosed_def fresh_plugin_fields)

theorem receive_loop_answers_once_witness:
  "\<exists>q evs. recv_run even_handler busy_loop [Received 1, Received 2, ChanClosed, Received 3]
       busy_plugin = (False, q) \<and> events q = events busy_plugin @ evs \<and>
     map snd (verdicts evs) = [(4, 1), (4, 2)] \<and> busy_loop \<notin> set (loops q)"
proof -
  let ?sels = "[Received 1, Received 2, ChanClosed, Received 3]"
  obtain alive q where run: "recv_run even_handler busy_loop ?sels busy_plugin = (alive, q)"
    by fastforce
  from receive_loop_answers_once [OF busy_loop_facts busy_plugin_wf run] run show ?thesis by auto
qed

text \<open>Once the plugin is closed no receive loop dispatches another message, whichever
  case its \<open>select\<close> takes next: it calls neither the handler nor the broker, and returns.\<close>

theorem closed_loop_dispatches_nothing:
  assumes "isClosed p" and "sels \<noteq> []"
  shows "recv_run handler l sels p = (False, exit_loop l p) \<and>
    events (exit_loop l p) = events p @ [EvCancel (loop_id l)]"
  using assms
  by (cases sels; cases "hd sels")
    (auto simp: recv_step_def exit_loop_fields split: option.split)

theorem closed_loop_dispatches_nothing_witness:
  "recv_run even_handler busy_loop [Received 2] (busy_plugin\<lparr>closed := True\<rparr>) =
     (False, exit_loop busy_loop (busy_plugin\<lparr>closed := True\<rparr>))"
  using closed_loop_dispatches_nothing [of "busy_plugin\<lparr>closed := True\<rparr>" "[Received 2]"]
  by (simp add: isClosed_def)

section \<open>Consumers that are dropped\<close>

text \<open>What a clean-up closes, in the terms of the state before it.\<close>

lemma cleanup_closes:
  assumes "client_wf p" and "ctx 0 = None" and "cleanupWithContext E ctx p = Inr (r, p')"
  obtains evs where "events p' = events p @ evs"
    and "\<And>h. EvConsumerClose h \<in> set evs \<longleftrightarrow>
      (\<exists>n. go_get (consumers p) n = Some (Some h) \<and> n \<notin> set (regex_names (loops p)))"
proof -
  have wf: "go_wf (remaining_consumers p)"
    using assms(1) by (simp add: client_wf_def go_wf_remaining)
  have rem: "(n, Some h) \<in> set (remaining_consumers p) \<longleftrightarrow>
      go_get (consumers p) n = Some (Some h) \<and> n \<notin> set (regex_names (loops p))" for n h
    unfolding go_get_in_set [OF wf, symmetric]
    by (auto simp: remaining_consumers_def go_get_del_all)
  from cleanup_calls [OF assms] obtain regs ids cs ps where calls:
    "events p' = events p @ (regs @ map EvCancel ids @ cs @ ps @
      (case GetClient p of None \<Rightarrow> [] | Some c \<Rightarrow> [EvClientClose c]))"
    "\<forall>e\<in>set regs. is_registration e"
    "mset cs = mset (close_events EvConsumerClose (remaining_consumers p))"
    "mset ps = mset (close_events EvProducerClose (producers p))"
    by blast
  have "EvConsumerClose h \<notin> set regs" "EvConsumerClose h \<notin> set ps" for h
    using calls(2) by (auto simp: mset_eq_setD [OF calls(4)] set_close_events)
  then show ?thesis
    by (intro that [OF calls(1)])
      (auto simp: mset_eq_setD [OF calls(3)] set_close_events rem split: option.split)
qed

text \<open>Accepted subscriptions keep the plugin well formed.\<close>

lemma client_wf_start_loop:
  assumes "client_wf p" and "go_get (subscriptions p) n = None"
  shows "client_wf (start_loop n c r p)"
proof -
  have fresh: "\<forall>l\<in>set (loops p). loop_name l \<noteq> n"
    using assms by (auto simp: client_wf_def)
  have "next_loop p \<notin> loop_id ` set (loops p)"
    using assms(1) by (auto simp: client_wf_def)
  with assms fresh show ?thesis
    by (auto simp: client_wf_def less_Suc_eq)
qed

lemma client_wf_consumers:
  "client_wf p \<Longrightarrow> go_wf cs \<Longrightarrow> client_wf (p\<lparr>consumers := cs\<rparr>)"
  by (simp add: client_wf_def)

lemma client_wf_emit [simp]: "client_wf (emit e p) = client_wf p"
  by (simp add: client_wf_def)

lemma regex_success:
  assumes "SubscribeWithRegex E pat handler p = Inr (None, q)"
  obtains c ev where "q = start_loop (''regex:'' @ pat) c True
      ((emit ev p)\<lparr>consumers := go_put (''regex:'' @ pat) c (consumers p)\<rparr>)"
    and "go_get (subscriptions p) (''regex:'' @ pat) = None" and "verdict ev = None"
  using assms
  by (auto simp: SubscribeWithRegex_def Let_def split: if_splits option.splits sum.splits)

text \<open>Claim C33: the consumer that a regex subscription creates is never closed by the plugin: if
  its handle is not registered under another name, a clean-up right after the subscription
  makes no close call for it, because its receive loop removes it from the registry first.\<close>

theorem regex_consumer_never_closed:
  assumes "SubscribeWithRegex E pat (Some handler) p = Inr (None, q)"
    and "GetConsumer (''regex:'' @ pat) q = Some h"
    and "\<forall>n. n \<noteq> ''regex:'' @ pat \<longrightarrow> GetConsumer n p \<noteq> Some h"
    and "client_wf p" and "ctx 0 = None"
  shows "\<exists>q' evs. cleanupWithContext E ctx q = Inr (None, q') \<and> events q' = events q @ evs \<and>
    EvConsumerClose h \<notin> set evs \<and> consumers q' = []"
proof -
  let ?n = "''regex:'' @ pat"
  obtain c ev where q: "q = start_loop ?n c True
      ((emit ev p)\<lparr>consumers := go_put ?n c (consumers p)\<rparr>)"
    and fresh: "go_get (subscriptions p) ?n = None"
    using regex_success [OF assms(1)] by blast
  have wf: "client_wf q"
    unfolding q using assms(4) fresh
    by (intro client_wf_start_loop client_wf_consumers) (simp_all add: client_wf_def)
  obtain q' where run: "cleanupWithContext E ctx q = Inr (None, q')" and empty: "consumers q' = []"
    by (rule cleanup_state [where E = E and p = q and ctx = ctx, OF wf assms(5)]) blast
  obtain evs where evs: "events q' = events q @ evs" and closes:
    "\<And>h. EvConsumerClose h \<in> set evs \<longleftrightarrow>
      (\<exists>n. go_get (consumers q) n = Some (Some h) \<and> n \<notin> set (regex_names (loops q)))"
    by (rule cleanup_closes [where E = E and p = q and ctx = ctx, OF wf assms(5) run]) blast
  have "EvConsumerClose h \<notin> set evs"
  proof
    assume "EvConsumerClose h \<in> set evs"
    then obtain n where n: "go_get (consumers q) n = Some (Some h)" "n \<notin> set (regex_names (loops q))"
      using closes by blast
    from n(2) have "n \<noteq> ?n" by (auto simp: q regex_names_def)
    with n(1) have "GetConsumer n p = Some h" by (simp add: q GetConsumer_def)
    with assms(3) \<open>n \<noteq> ?n\<close> show False by blast
  qed
  with run empty evs show ?thesis by blast
qed

lemma busy_get_consumer: "GetConsumer n busy_plugin = (if n = ''in'' then Some 4 else None)"
  by (simp add: GetConsumer_def go_get_def busy_plugin_def)

text \<open>A broker that hands out the consumer 9.\<close>

definition nine_env :: env where
  "nine_env = ok_env\<lparr>e_Subscribe := (\<lambda>evs c opts. Inr (Some 9))\<rparr>"

lemma busy_regex:
  "\<exists>q. SubscribeWithRegex nine_env ''a.*'' (Some even_handler) busy_plugin = Inr (None, q) \<and>
     GetConsumer ''regex:a.*'' q = Some 9"
  by (simp add: SubscribeWithRegex_def busy_plugin_def isClosed_def getClient_def nine_env_def
      ok_env_def Let_def go_get_def fresh_plugin_fields GetConsumer_def start_loop_def go_put_def)

theorem regex_consumer_never_closed_witness:
  "\<exists>q q' evs. SubscribeWithRegex nine_env ''a.*'' (Some even_handler) busy_plugin = Inr (None, q) \<and>
     GetConsumer ''regex:a.*'' q = Some 9 \<and>
     cleanupWithContext nine_env Background q = Inr (None, q') \<and> events q' = events q @ evs \<and>
     EvConsumerClose 9 \<notin> set evs \<and> consumers q' = []"
proof -
  from busy_regex obtain q where q:
    "SubscribeWithRegex nine_env ''a.*'' (Some even_handler) busy_plugin = Inr (None, q)"
    "GetConsumer (''regex:'' @ ''a.*'') q = Some 9" by auto
  have other: "\<forall>n. n \<noteq> ''regex:'' @ ''a.*'' \<longrightarrow> GetConsumer n busy_plugin \<noteq> Some 9"
    by (simp add: busy_get_consumer)
  have bg: "Background 0 = None" by (simp add: Background_def)
  from regex_consumer_never_closed [where ctx = Background, OF q other busy_plugin_wf bg] q
  show ?thesis by auto
qed

text \<open>Claim C32: let the consumer of a name be drained by a receive loop, while the plugin is open and
  the handle is registered under no other name. \<open>Unsubscribe\<close> of that name asks the broker once,
  returns its answer and forgets the consumer, so that it cannot be subscribed to any more, but
  leaves its receive loop and subscription in place: the loop still hands the next message to
  the handler, gives it exactly one verdict on the dropped consumer, an acknowledgement if the
  handler succeeds and a negative one otherwise, and goes on; and a clean-up after the
  \<open>Unsubscribe\<close> makes no close call for the consumer.\<close>

theorem unsubscribe_leaves_loop:
  assumes "client_wf p" and "go_get (consumers p) name = Some (Some h)"
    and "\<forall>n. n \<noteq> name \<longrightarrow> GetConsumer n p \<noteq> Some h"
    and "l \<in> set (loops p)" and "loop_name l = name" and "loop_consumer l = Some h"
    and "\<not> isClosed p" and "ctx 0 = None" and "Unsubscribe E name p = (r, q)"
  shows "(\<exists>ans. events q = events p @ [EvConsumerUnsubscribe h ans] \<and> r = map_option ErrExternal ans) \<and>
    l \<in> set (loops q) \<and> go_get (subscriptions q) name = Some (loop_id l) \<and>
    fst (SubscribeWith name topics (Some handler) q) = Some (ConsumerNotFound name) \<and>
    (\<exists>evs. recv_step handler l (Received m) q = (True, q\<lparr>events := events q @ evs\<rparr>) \<and>
       verdicts evs = [(handler (events q) m = HandlerOk, h, m)]) \<and>
    (\<exists>q' evs. cleanupWithContext E ctx q = Inr (None, q') \<and> events q' = events q @ evs \<and>
       EvConsumerClose h \<notin> set evs)"
proof -
  let ?ans = "e_Unsubscribe E (events p) h"
  have r: "r = map_option ErrExternal ?ans"
    and q: "q = emit (EvConsumerUnsubscribe h ?ans) (p\<lparr>consumers := go_del name (consumers p)\<rparr>)"
    using assms(2,9) by (auto simp: Unsubscribe_def Let_def)
  have "go_wf (consumers p)" using assms(1) by (simp add: client_wf_def)
  then have wf: "client_wf q" unfolding q using assms(1) by (simp add: client_wf_consumers)
  obtain q' where run: "cleanupWithContext E ctx q = Inr (None, q')"
    by (rule cleanup_state [where E = E and p = q and ctx = ctx, OF wf assms(8)]) blast
  obtain evs where evs: "events q' = events q @ evs" and closes:
    "\<And>h. EvConsumerClose h \<in> set evs \<longleftrightarrow>
      (\<exists>n. go_get (consumers q) n = Some (Some h) \<and> n \<notin> set (regex_names (loops q)))"
    by (rule cleanup_closes [where E = E and p = q and ctx = ctx, OF wf assms(8) run]) blast
  have "EvConsumerClose h \<notin> set evs"
  proof
    assume "EvConsumerClose h \<in> set evs"
    then obtain n where "go_get (consumers q) n = Some (Some h)" using closes by blast
    then have "n \<noteq> name" "GetConsumer n p = Some h"
      by (auto simp: q GetConsumer_def split: if_splits)
    with assms(3) show False by blast
  qed
  moreover have "go_get (subscriptions p) name = Some (loop_id l)"
    using assms(1,4,5) by (auto simp: client_wf_def)
  moreover have "fst (SubscribeWith name topics (Some handler) q) = Some (ConsumerNotFound name)"
    using assms(7) by (simp add: SubscribeWith_def q isClosed_def)
  moreover have "\<exists>evs. recv_step handler l (Received m) q = (True, q\<lparr>events := events q @ evs\<rparr>) \<and>
      verdicts evs = [(handler (events q) m = HandlerOk, h, m)]"
  proof -
    have "recv_step handler l (Received m) q = (True, dispatchMessage handler h m q)"
      using assms(6,7) by (simp add: recv_step_def q isClosed_def)
    with dispatch_verdict [of handler h m q] show ?thesis by (metis emits_def)
  qed
  moreover have "l \<in> set (loops q)" using assms(4) by (simp add: q)
  ultimately show ?thesis using r run evs by (auto simp: q)
qed

theorem unsubscribe_leaves_loop_witness:
  "\<exists>r q. Unsubscribe ok_env ''in'' busy_plugin = (r, q) \<and> busy_loop \<in> set (loops q) \<and>
     (\<exists>evs. recv_step even_handler busy_loop (Received 2) q = (True, q\<lparr>events := events q @ evs\<rparr>) \<and>
        verdicts evs = [(True, 4, 2)])"
proof -
  obtain r q where run: "Unsubscribe ok_env ''in'' busy_plugin = (r, q)" by fastforce
  have get: "go_get (consumers busy_plugin) ''in'' = Some (Some 4)"
    by (simp add: busy_plugin_def go_get_def)
  have other: "\<forall>n. n \<noteq> ''in'' \<longrightarrow> GetConsumer n busy_plugin \<noteq> Some 4"
    by (simp add: busy_get_consumer)
  have name: "loop_name busy_loop = ''in''" by (simp add: busy_loop_def)
  have bg: "Background 0 = None" by (simp add: Background_def)
  from unsubscribe_leaves_loop [where ctx = Background, OF busy_plugin_wf get other busy_loop_facts(3) name
      busy_loop_facts(1,2) bg run, where handler = even_handler and m = 2] run
  show ?thesis by (auto simp: even_handler_def)
qed


end
