(* ===== verification/Plugin.thy ===== *)
theory Plugin
  imports ProducingSpec ConsumingSpec
begin

text \<open>
  The whole plugin as an object: every exported operation and every pass of a receive loop is a
  step, and any sequence of steps is a run. The invariant says that the configuration is
  normalized, the registries and receive loops are consistent and the health checker's
  interval is positive; the contract \<open>panic_free\<close> then gives that no run panics, and the frame
  and latch facts below that a closed plugin stays closed.
\<close>

section \<open>Steps\<close>

datatype plugin_op =
    OpConfigure config_arg
  | OpInitializeResources "runtime option"
  | OpStartContext ctx
  | OpStopContext ctx
  | OpProducing produce_op
  | OpSubscribeWith string "string list" "handler option"
  | OpSubscribeWithRegex string "handler option"
  | OpReceive nat handler select_case    \<comment> \<open>a pass of the \<open>i\<close>th running receive loop\<close>
  | OpUnsubscribe string

text \<open>The third-party code besides the broker and the runtime.\<close>

record libs =
  lib_durationpb :: durationpb_lib
  lib_Clone :: "Pulsar \<Rightarrow> Pulsar option"
  lib_BaseInit :: "runtime option \<Rightarrow> string option"

fun plugin_step :: "env \<Rightarrow> libs \<Rightarrow> PulsarClient \<Rightarrow> plugin_op \<Rightarrow> go_panic + PulsarClient" where
  "plugin_step E X p (OpConfigure c) = Inr (snd (Configure (lib_durationpb X) (lib_Clone X) c p))"
| "plugin_step E X p (OpInitializeResources r) =
     Inr (snd (InitializeResources (lib_durationpb X) (lib_BaseInit X) r p))"
| "plugin_step E X p (OpStartContext ctx) =
     map_sum id snd (StartContext E (lib_durationpb X) ctx p)"
| "plugin_step E X p (OpStopContext ctx) = map_sum id snd (StopContext E ctx p)"
| "plugin_step E X p (OpProducing op) = Inr (produce_step E op p)"
| "plugin_step E X p (OpSubscribeWith name topics handler) =
     Inr (snd (SubscribeWith name topics handler p))"
| "plugin_step E X p (OpSubscribeWithRegex pat handler) =
     map_sum id snd (SubscribeWithRegex E pat handler p)"
| "plugin_step E X p (OpReceive i handler sel) =
     Inr (if i < length (loops p) then snd (recv_step handler (loops p ! i) sel p) else p)"
| "plugin_step E X p (OpUnsubscribe name) = Inr (snd (Unsubscribe E name p))"

definition plugin_run :: "env \<Rightarrow> libs \<Rightarrow> PulsarClient \<Rightarrow> plugin_op list \<Rightarrow> go_panic + PulsarClient" where
  "plugin_run E X = run_ops (plugin_step E X)"

section \<open>The invariant\<close>

definition plugin_inv :: "durationpb_lib \<Rightarrow> PulsarClient \<Rightarrow> bool" where
  "plugin_inv L p \<longleftrightarrow> client_wf p \<and> normal_config L (config p) \<and>
     (\<forall>h. healthChecker p = Some h \<longrightarrow> 0 < sint (HC_interval h))"

lemma plugin_inv_grown:
  assumes "plugin_inv L p" and "grown p q"
  shows "plugin_inv L q"
  using assms by (simp add: plugin_inv_def client_wf_def grown_def same_control_def)

lemma plugin_inv_registers: "plugin_inv L p \<Longrightarrow> registers p q \<Longrightarrow> plugin_inv L q"
  by (blast intro: plugin_inv_grown grown_registers)

lemma plugin_inv_closeAll: "plugin_inv L p \<Longrightarrow> plugin_inv L (closeAllResources E p)"
  using closeAllResources_state [where p = p and E = E]
  by (simp add: plugin_inv_def client_wf_def same_control_def)

lemma plugin_inv_emit [simp]: "plugin_inv L (emit e p) = plugin_inv L p"
  by (simp add: plugin_inv_def)

lemma plugin_inv_started: "plugin_inv L p \<Longrightarrow> plugin_inv L (started p)"
  by (auto simp: plugin_inv_def client_wf_def cm_inv_def ConnectionManager_Start_def)

lemma plugin_inv_startup:
  assumes "plugin_inv L p" and "startupWithContext E L' ctx p = Inr (r, p')"
  shows "plugin_inv L p'"
proof (cases "ctx 0")
  case (Some err)
  with assms show ?thesis by (simp add: startupWithContext_def)
next
  case None
  with assms(2) show ?thesis
  proof (cases rule: startup_cases)
    case (no_client p1 opts err)
    with assms(1) show ?thesis
      using plugin_inv_registers registers_contract by (metis plugin_inv_emit)
  next
    case (aborted q err)
    have "plugin_inv L (closeAllResources E q)"
      using assms(1) aborted(1) by (simp add: built_def plugin_inv_grown plugin_inv_closeAll)
    from plugin_inv_registers [OF this registers_contract] aborted(2) show ?thesis
      by (auto simp: abort_startup_def)
  next
    case (finished q)
    have "plugin_inv L (started q)"
      using assms(1) finished(1) by (simp add: built_def plugin_inv_grown plugin_inv_started)
    from plugin_inv_registers [OF this finish_registers [OF finished(3)]] show ?thesis .
  qed
qed

lemma plugin_inv_cleanup:
  assumes "plugin_inv L p"
  shows "\<exists>r p'. cleanupWithContext E ctx p = Inr (r, p') \<and> plugin_inv L p'"
proof (cases "ctx 0")
  case (Some err)
  with assms show ?thesis by (simp add: cleanupWithContext_def)
next
  case None
  from assms have wf: "client_wf p" by (simp add: plugin_inv_def)
  show ?thesis
  proof (rule cleanup_state [where E = E and p = p and ctx = ctx, OF wf None])
    fix p'
    assume run: "cleanupWithContext E ctx p = Inr (None, p')"
      and maps: "producers p' = []" "consumers p' = []" "subscriptions p' = []" "loops p' = []"
      and flags: "closeChan_closed p'" "closeOnce_done p'" and cfg: "config p' = config p"
      and hc: "\<forall>h. healthChecker p' = Some h \<longrightarrow> hc_inv h \<and> HC_stopped h"
      and iv: "map_option HC_interval (healthChecker p') = map_option HC_interval (healthChecker p)"
      and cm: "\<forall>c. connectionManager p' = Some c \<longrightarrow>
        cm_inv c \<and> \<not> ConnectionManager_IsConnected c \<and> CM_stopped c"
    have "\<forall>h. healthChecker p' = Some h \<longrightarrow> 0 < sint (HC_interval h)"
      using assms iv by (cases "healthChecker p") (auto simp: plugin_inv_def)
    then have "plugin_inv L p'"
      using assms maps flags cfg hc cm by (simp add: plugin_inv_def client_wf_def)
    with run show ?thesis by blast
  qed
qed

lemma plugin_inv_stop:
  assumes "plugin_inv L p"
  shows "\<exists>r p'. StopContext E ctx p = Inr (r, p') \<and> plugin_inv L p'"
proof (cases "ctx 0")
  case None
  then show ?thesis using plugin_inv_cleanup [OF assms] by (simp add: StopContext_def)
qed (use assms in \<open>simp add: StopContext_def\<close>)

lemma plugin_inv_exit_loop:
  assumes "plugin_inv L p" and "l \<in> set (loops p)"
  shows "plugin_inv L (exit_loop l p)"
proof -
  have wf: "client_wf p" using assms(1) by (simp add: plugin_inv_def)
  have d: "distinct (map loop_id (loops p))" "distinct (loops p)"
    using wf by (auto simp: client_wf_def distinct_map)
  have names: "loop_name l' \<noteq> loop_name l" if "l' \<in> set (loops p)" "l' \<noteq> l" for l'
  proof
    assume eq: "loop_name l' = loop_name l"
    have subs: "\<forall>l\<in>set (loops p). go_get (subscriptions p) (loop_name l) = Some (loop_id l)"
      using wf by (simp add: client_wf_def)
    from subs that(1) assms(2) eq have "loop_id l' = loop_id l" by (metis option.inject)
    with d(1) that assms(2) show False by (auto simp: distinct_map inj_on_def)
  qed
  have sub: "subscriptions (exit_loop l p) = go_del (loop_name l) (subscriptions p)"
    using wf assms(2) by (auto simp: exit_loop_def Let_def client_wf_def)
  have ids: "distinct (map loop_id (remove1 l (loops p)))"
    using d by (simp add: distinct_map inj_on_def)
  have set: "set (remove1 l (loops p)) = set (loops p) - {l}"
    using d(2) by (rule set_remove1_eq)
  have reg: "\<exists>l'\<in>set (loops p) - {l}. loop_name l' = n \<and> loop_id l' = i"
    if "n \<noteq> loop_name l" "go_get (subscriptions p) n = Some i" for n i
    using wf that by (force simp: client_wf_def)
  have "client_wf (exit_loop l p)"
    using wf ids names reg exit_loop_control [of p l]
    by (simp add: client_wf_def exit_loop_fields sub same_control_def set)
  with assms(1) exit_loop_control [of p l] show ?thesis
    by (simp add: plugin_inv_def same_control_def)
qed


lemma plugin_inv_consumers:
  "plugin_inv L p \<Longrightarrow> go_wf cs \<Longrightarrow> plugin_inv L (p\<lparr>consumers := cs\<rparr>)"
  by (simp add: plugin_inv_def client_wf_consumers)

lemma plugin_inv_start_loop:
  "plugin_inv L p \<Longrightarrow> go_get (subscriptions p) n = None \<Longrightarrow> plugin_inv L (start_loop n c r p)"
  by (simp add: plugin_inv_def client_wf_start_loop)

lemma plugin_inv_dispatch: "plugin_inv L p \<Longrightarrow> plugin_inv L (dispatchMessage handler h m p)"
  by (simp add: dispatchMessage_def invokeHandler_def Let_def split: handler_result.split)

lemma plugin_inv_receive:
  assumes "plugin_inv L p" and "l \<in> set (loops p)"
  shows "plugin_inv L (snd (recv_step handler l sel p))"
  using assms
  by (simp add: recv_step_def plugin_inv_exit_loop plugin_inv_dispatch
      split: option.split select_case.split)

lemma plugin_inv_producing:
  assumes "plugin_inv L p"
  shows "plugin_inv L (produce_step E op p)"
proof -
  obtain evs ps where q: "produce_step E op p = p\<lparr>producers := ps, events := events p @ evs\<rparr>"
    using produce_step_account [of p E op] by (auto simp: producing_frame_def)
  have "go_wf (producers (produce_step E op p))"
  proof (cases "\<exists>name. op = OpCloseProducer name")
    case True
    with assms show ?thesis
      by (auto simp: CloseProducer_def Let_def plugin_inv_def client_wf_def split: option.split)
  next
    case False
    then have "producers (produce_step E op p) = producers p"
      by (rule produce_step_producers)
    with assms show ?thesis by (simp add: plugin_inv_def client_wf_def)
  qed
  with assms show ?thesis by (simp add: q plugin_inv_def client_wf_def)
qed

lemma plugin_inv_subscribe:
  assumes "plugin_inv L p"
  shows "plugin_inv L (snd (SubscribeWith name topics handler p))"
  using assms
  by (simp add: SubscribeWith_def plugin_inv_start_loop split: option.split)

text \<open>The documented behaviour of the broker client that the panic freedom needs: a subscription
  returns an error or a consumer.\<close>

definition no_nil_consumer :: "env \<Rightarrow> bool" where
  "no_nil_consumer E \<longleftrightarrow> (\<forall>evs c opts. e_Subscribe E evs c opts \<noteq> Inr None)"

lemma plugin_inv_regex:
  assumes "plugin_inv L p" and "no_nil_consumer E"
  shows "\<exists>r q. SubscribeWithRegex E pat handler p = Inr (r, q) \<and> plugin_inv L q"
proof -
  have wf: "go_wf (consumers p)" using assms(1) by (simp add: plugin_inv_def client_wf_def)
  have fresh_id: "plugin_inv L (q\<lparr>next_loop := Suc n\<rparr>)" if "plugin_inv L q" "next_loop q \<le> n" for q n
    using that by (fastforce simp: plugin_inv_def client_wf_def)
  show ?thesis
  proof (cases "handler = None \<or> isClosed p \<or> getClient p = None")
    case True
    with assms(1) show ?thesis by (auto simp: SubscribeWithRegex_def)
  next
    case False
    then obtain c where c: "getClient p = Some c" by blast
    let ?ans = "e_Subscribe E (events p) c (regex_options pat)"
    show ?thesis
    proof (cases ?ans)
      case (Inl err)
      with False c assms(1) show ?thesis by (auto simp: SubscribeWithRegex_def Let_def)
    next
      case (Inr co)
      with assms(2) obtain h where co: "co = Some h"
        by (cases co) (auto simp: no_nil_consumer_def)
      with False c Inr assms(1) wf fresh_id show ?thesis
        by (auto simp: SubscribeWithRegex_def Let_def plugin_inv_start_loop plugin_inv_consumers)
    qed
  qed
qed

lemma plugin_inv_unsubscribe:
  assumes "plugin_inv L p"
  shows "plugin_inv L (snd (Unsubscribe E name p))"
proof -
  have "go_wf (consumers p)" using assms by (simp add: plugin_inv_def client_wf_def)
  with assms show ?thesis
    by (simp add: Unsubscribe_def Let_def plugin_inv_consumers split: option.split)
qed

context durationpb
begin

lemma plugin_inv_configure:
  assumes "plugin_inv L p"
  shows "plugin_inv L (snd (Configure L clone c p))"
  using assms
  by (auto simp: Configure_def plugin_inv_def client_wf_def dest: normalize_establishes
      split: config_arg.split option.split sum.split)

lemma interval_New: "HC_interval (NewHealthChecker d) = d"
  by (simp add: NewHealthChecker_def)

lemma normal_interval:
  "normal_config L c \<Longrightarrow> MonitoringConf c = Some m \<Longrightarrow> 0 < sint (AsDuration L (M_HealthCheckInterval m))"
  by (auto simp: normal_config_def normal_Monitoring_def intro: set_dur_pos)

lemma plugin_inv_initialize:
  assumes "plugin_inv L p"
  shows "plugin_inv L (snd (InitializeResources L base_init r p))"
proof -
  have rt: "plugin_inv L (p\<lparr>rt := b\<rparr>)" for b
    using assms by (simp add: plugin_inv_def client_wf_def)
  show ?thesis
  proof (cases "base_init r")
    case (Some err)
    with assms show ?thesis by (simp add: InitializeResources_def)
  next
    case None
    show ?thesis
    proof (cases "scan_config r (defaultPulsarConfig L)")
      case (Inl err)
      with None rt show ?thesis by (simp add: InitializeResources_def)
    next
      case (Inr cfg)
      show ?thesis
      proof (cases "normalizePulsarConfig L (Some cfg)")
        case (Inl err)
        with None Inr rt show ?thesis by (simp add: InitializeResources_def)
      next
        case n: (Inr cfg')
        from normalize_establishes [OF n] have "normal_config L cfg'" .
        with None Inr n assms show ?thesis
          by (auto simp: InitializeResources_def Let_def plugin_inv_def client_wf_def hc_inv_New
              cm_inv_New interval_New normal_interval split: option.split)
      qed
    qed
  qed
qed

end


section \<open>No run panics\<close>

lemma plugin_step_ok:
  assumes "plugin_inv (lib_durationpb X) p" and "durationpb (lib_durationpb X)" and "no_nil_consumer E"
  shows "\<exists>q. plugin_step E X p op = Inr q \<and> plugin_inv (lib_durationpb X) q"
proof (cases op)
  case (OpConfigure c)
  with durationpb.plugin_inv_configure [OF assms(2,1)] show ?thesis by simp
next
  case (OpInitializeResources r)
  with durationpb.plugin_inv_initialize [OF assms(2,1)] show ?thesis by simp
next
  case (OpStartContext ctx)
  have "no_nil_entries (config p)" using assms(1) by (auto simp: plugin_inv_def intro: normal_no_nil)
  then obtain r q where run: "startupWithContext E (lib_durationpb X) ctx p = Inr (r, q)"
    using startup_total by blast
  with OpStartContext plugin_inv_startup [OF assms(1) run] show ?thesis
    by (simp add: StartContext_def)
next
  case (OpStopContext ctx)
  with plugin_inv_stop [OF assms(1), of E ctx] show ?thesis by auto
next
  case (OpSubscribeWithRegex pat handler)
  with plugin_inv_regex [OF assms(1,3), of pat handler] show ?thesis by auto
qed (use assms(1) in \<open>simp_all add: plugin_inv_producing plugin_inv_subscribe plugin_inv_receive
      plugin_inv_unsubscribe\<close>)

text \<open>The contract of panic-free objects, on the whole plugin.\<close>

interpretation plug: panic_free "plugin_step E X"
  "\<lambda>p. plugin_inv (lib_durationpb X) p \<and> durationpb (lib_durationpb X) \<and> no_nil_consumer E"
  for E X
  by unfold_locales (use plugin_step_ok in auto)

lemma plugin_inv_New: "durationpb L \<Longrightarrow> plugin_inv L (NewPulsarClient L)"
  by (simp add: plugin_inv_def client_wf_def NewPulsarClient_def durationpb.normal_default)

lemma loop_names_distinct:
  assumes "client_wf p"
  shows "distinct (map loop_name (loops p))"
proof -
  have "inj_on loop_name (set (loops p))"
  proof (rule inj_onI)
    fix l l' assume l: "l \<in> set (loops p)" "l' \<in> set (loops p)" "loop_name l = loop_name l'"
    have "\<forall>l\<in>set (loops p). go_get (subscriptions p) (loop_name l) = Some (loop_id l)"
      using assms by (simp add: client_wf_def)
    with l have "loop_id l = loop_id l'" by (metis option.inject)
    with l(1,2) assms show "l = l'" by (auto simp: client_wf_def distinct_map inj_on_def)
  qed
  moreover have "distinct (loops p)" using assms by (simp add: client_wf_def distinct_map)
  ultimately show ?thesis by (simp add: distinct_map)
qed

text \<open>Claim C4: no sequence of operations on a new plugin (configuration, initialization, starts
  and stops with any context, sends, subscriptions, passes of receive loops, removals) panics,
  whatever the broker and the runtime answer, as long as a successful broker subscription
  returns a consumer; at every point the configuration is normalized, at most one receive loop
  runs per consumer name, and the health checker's probe loop can be started without panic.\<close>

theorem plugin_never_panics:
  assumes "durationpb (lib_durationpb X)" and "no_nil_consumer E"
  shows "\<exists>p. plugin_run E X (NewPulsarClient (lib_durationpb X)) ops = Inr p \<and>
    normal_config (lib_durationpb X) (config p) \<and> distinct (map loop_name (loops p)) \<and>
    (\<forall>h es. healthChecker p = Some h \<longrightarrow> is_ok (HealthChecker_run h es))"
proof -
  from plug.run_ok [of X "NewPulsarClient (lib_durationpb X)" E ops]
  obtain p where p: "plugin_run E X (NewPulsarClient (lib_durationpb X)) ops = Inr p"
    "plugin_inv (lib_durationpb X) p"
    using assms plugin_inv_New by (auto simp: plugin_run_def)
  then have "\<forall>h es. healthChecker p = Some h \<longrightarrow> is_ok (HealthChecker_run h es)"
    by (auto simp: plugin_inv_def HealthChecker_run_def)
  with p show ?thesis by (auto simp: plugin_inv_def loop_names_distinct)
qed

text \<open>Claim C16: the state is well formed after every run from a new plugin: names in the three
  registries occur once; a name has a subscription entry exactly when a receive loop of that
  name runs, and the entry is the cancel function of that loop; no two loops share an identity;
  the shutdown channel is closed exactly when its \<open>sync.Once\<close> is spent.\<close>

theorem state_well_formed:
  assumes "durationpb (lib_durationpb X)" and "no_nil_consumer E"
    and "plugin_run E X (NewPulsarClient (lib_durationpb X)) ops = Inr p"
  shows "distinct (go_keys (producers p)) \<and> distinct (go_keys (consumers p)) \<and>
    distinct (go_keys (subscriptions p)) \<and> distinct (map loop_id (loops p)) \<and>
    (\<forall>n i. go_get (subscriptions p) n = Some i \<longleftrightarrow>
       (\<exists>l\<in>set (loops p). loop_name l = n \<and> loop_id l = i)) \<and>
    closeChan_closed p = closeOnce_done p"
proof -
  have "plugin_inv (lib_durationpb X) p \<and> durationpb (lib_durationpb X) \<and> no_nil_consumer E"
    by (rule plug.run_inv [OF _ assms(3) [unfolded plugin_run_def]])
      (intro conjI plugin_inv_New assms(1,2))
  then have "client_wf p" by (simp add: plugin_inv_def)
  then have wf: "distinct (go_keys (producers p))" "distinct (go_keys (consumers p))"
    "distinct (go_keys (subscriptions p))" "distinct (map loop_id (loops p))"
    "closeChan_closed p = closeOnce_done p"
    and own: "\<forall>l\<in>set (loops p). go_get (subscriptions p) (loop_name l) = Some (loop_id l)"
    and run: "\<forall>n i. go_get (subscriptions p) n = Some i \<longrightarrow>
      (\<exists>l\<in>set (loops p). loop_name l = n \<and> loop_id l = i)"
    unfolding client_wf_def go_wf_def by blast+
  have "\<forall>n i. go_get (subscriptions p) n = Some i \<longleftrightarrow>
      (\<exists>l\<in>set (loops p). loop_name l = n \<and> loop_id l = i)"
    using own run by blast
  with wf show ?thesis by (intro conjI)
qed

definition sample_libs :: libs where
  "sample_libs = \<lparr>lib_durationpb = durationpb_doc, lib_Clone = Some, lib_BaseInit = (\<lambda>r. None)\<rparr>"

lemma sample_libs_durationpb: "durationpb (lib_durationpb sample_libs)"
  by (simp add: sample_libs_def doc.durationpb_axioms)

lemma ok_env_no_nil: "no_nil_consumer ok_env"
  by (simp add: no_nil_consumer_def ok_env_def)

theorem plugin_never_panics_witness:
  "\<exists>p. plugin_run ok_env sample_libs (NewPulsarClient durationpb_doc)
     [OpInitializeResources (Some \<lparr>rt_GetConfig = None\<rparr>), OpStartContext Background,
      OpSubscribeWith ''default-consumer'' [] (Some even_handler),
      OpReceive 0 even_handler (Received 5), OpStopContext Background,
      OpStopContext Background] = Inr p \<and> distinct (map loop_name (loops p))"
proof -
  have lib: "lib_durationpb sample_libs = durationpb_doc" by (simp add: sample_libs_def)
  show ?thesis
    using plugin_never_panics [OF sample_libs_durationpb ok_env_no_nil] unfolding lib by blast
qed

theorem state_well_formed_witness:
  "\<exists>p. plugin_run ok_env sample_libs (NewPulsarClient durationpb_doc)
     [OpInitializeResources None, OpStartContext Background,
      OpSubscribeWith ''default-consumer'' [] (Some even_handler),
      OpSubscribeWithRegex ''t.*'' (Some even_handler), OpUnsubscribe ''default-consumer''] = Inr p \<and>
     distinct (map loop_id (loops p))"
proof -
  let ?ops = "[OpInitializeResources None, OpStartContext Background,
      OpSubscribeWith ''default-consumer'' [] (Some even_handler),
      OpSubscribeWithRegex ''t.*'' (Some even_handler), OpUnsubscribe ''default-consumer'']"
  have lib: "lib_durationpb sample_libs = durationpb_doc" by (simp add: sample_libs_def)
  obtain p where run: "plugin_run ok_env sample_libs (NewPulsarClient (lib_durationpb sample_libs)) ?ops = Inr p"
    using plug.run_ok [of sample_libs "NewPulsarClient (lib_durationpb sample_libs)" ok_env ?ops]
      plugin_inv_New [OF sample_libs_durationpb] sample_libs_durationpb ok_env_no_nil
    by (auto simp: plugin_run_def)
  from state_well_formed [OF sample_libs_durationpb ok_env_no_nil run] run show ?thesis
    unfolding lib by blast
qed

section \<open>What no run undoes\<close>

definition keeps :: "PulsarClient \<Rightarrow> PulsarClient \<Rightarrow> bool" where
  "keeps p q \<longleftrightarrow> (closed p \<longrightarrow> closed q \<and> set (loops q) \<subseteq> set (loops p)) \<and>
     metrics q = metrics p \<and> healthStatus q = healthStatus p"

lemma keeps_refl [simp]: "keeps p p"
  by (simp add: keeps_def)

lemma keeps_trans: "keeps p q \<Longrightarrow> keeps q r \<Longrightarrow> keeps p r"
  by (auto simp: keeps_def)

lemma keeps_grown: "grown p q \<Longrightarrow> keeps p q"
  by (simp add: keeps_def grown_def same_control_def)

lemma keeps_registers: "registers p q \<Longrightarrow> keeps p q"
  by (simp add: keeps_grown grown_registers)

lemma keeps_closeAll: "keeps p (closeAllResources E p)"
  using closeAllResources_state [where p = p and E = E] by (simp add: keeps_def same_control_def)

lemma keeps_startup:
  assumes "startupWithContext E L ctx p = Inr (r, p')"
  shows "keeps p p'"
proof (cases "ctx 0")
  case (Some err)
  with assms show ?thesis by (simp add: startupWithContext_def)
next
  case None
  with assms show ?thesis
  proof (cases rule: startup_cases)
    case (no_client p1 opts err)
    have "keeps p (emit (EvNewClient opts (Inl err)) p1)"
      using keeps_registers [OF no_client(1)] by (simp add: keeps_def)
    with no_client(3) show ?thesis
      using keeps_trans keeps_registers registers_contract by blast
  next
    case (aborted q err)
    have "keeps p (closeAllResources E q)"
      using aborted(1) by (auto simp: built_def intro: keeps_trans [OF keeps_grown keeps_closeAll])
    with aborted(2) show ?thesis
      using keeps_trans keeps_registers registers_contract by (auto simp: abort_startup_def)
  next
    case (finished q)
    have "keeps p (started q)"
      using keeps_grown finished(1) by (auto simp: built_def keeps_def)
    then show ?thesis
      using keeps_trans keeps_registers finish_registers [OF finished(3)] by blast
  qed
qed

lemma keeps_stop:
  assumes "client_wf p" and "StopContext E ctx p = Inr (r, p')"
  shows "keeps p p'"
proof (cases "ctx 0 = None \<and> ctx 1 = None")
  case True
  then have c: "(\<lambda>n. ctx (Suc n)) 0 = None" by simp
  show ?thesis
    by (rule cleanup_state [where E = E and p = p and ctx = "\<lambda>n. ctx (Suc n)", OF assms(1) c])
      (use assms(2) True in \<open>simp add: StopContext_def keeps_def\<close>)
next
  case False
  with assms(2) show ?thesis
    by (auto simp: StopContext_def cleanupWithContext_def split: option.splits)
qed

lemma keeps_exit_loop: "keeps p (exit_loop l p)"
  using exit_loop_control [of p l] set_remove1_subset [of l "loops p"]
  by (simp add: keeps_def exit_loop_fields same_control_def)

lemma keeps_emit: "keeps p (emit e p)"
  by (simp add: keeps_def)

lemma keeps_dispatch: "keeps p (dispatchMessage handler h m p)"
  by (simp add: dispatchMessage_def invokeHandler_def Let_def keeps_def split: handler_result.split)

lemma keeps_subscribe: "keeps p (snd (SubscribeWith name topics handler p))"
  by (simp add: SubscribeWith_def isClosed_def keeps_def split: option.split)

lemma keeps_regex: "SubscribeWithRegex E pat handler p = Inr (r, q) \<Longrightarrow> keeps p q"
  by (auto simp: SubscribeWithRegex_def isClosed_def keeps_def Let_def
      split: if_splits option.splits sum.splits)

lemma keeps_producing: "keeps p (produce_step E op p)"
  using produce_step_account [of p E op] by (auto simp: producing_frame_def keeps_def)

lemma keeps_step:
  assumes "client_wf p" and "plugin_step E X p op = Inr q"
  shows "keeps p q"
proof (cases op)
  case (OpConfigure c)
  with assms(2) show ?thesis
    by (auto simp: Configure_def keeps_def split: config_arg.splits option.splits sum.splits)
next
  case (OpInitializeResources r)
  with assms(2) show ?thesis
    by (auto simp: InitializeResources_def keeps_def Let_def split: option.splits sum.splits)
next
  case (OpStartContext ctx)
  with assms(2) keeps_startup show ?thesis
    by (cases "startupWithContext E (lib_durationpb X) ctx p") (auto simp: StartContext_def)
next
  case (OpStopContext ctx)
  with assms keeps_stop show ?thesis by (cases "StopContext E ctx p") auto
next
  case (OpSubscribeWithRegex pat handler)
  with assms(2) keeps_regex show ?thesis by (cases "SubscribeWithRegex E pat handler p") auto
next
  case (OpReceive i handler sel)
  with assms(2) show ?thesis
    by (auto simp: recv_step_def keeps_exit_loop keeps_dispatch split: option.splits
        select_case.splits if_splits)
next
  case (OpUnsubscribe name)
  with assms(2) show ?thesis
    by (auto simp: Unsubscribe_def Let_def keeps_def split: option.splits)
qed (use assms(2) in \<open>auto simp: keeps_producing keeps_subscribe\<close>)

lemma keeps_run:
  assumes "plugin_inv (lib_durationpb X) p" and "durationpb (lib_durationpb X)"
    and "no_nil_consumer E" and "plugin_run E X p ops = Inr q"
  shows "keeps p q"
  using assms(1,4) unfolding plugin_run_def
proof (induction ops arbitrary: p)
  case (Cons op ops)
  from plugin_step_ok [OF Cons.prems(1) assms(2,3)] obtain p1 where
    p1: "plugin_step E X p op = Inr p1" "plugin_inv (lib_durationpb X) p1" by blast
  have "client_wf p" using Cons.prems(1) by (simp add: plugin_inv_def)
  with keeps_step p1(1) have "keeps p p1" by blast
  moreover have "keeps p1 q" using Cons.IH [OF p1(2)] Cons.prems(2) p1(1) by simp
  ultimately show ?case by (rule keeps_trans)
qed simp

text \<open>Claim C35: a closed plugin stays closed: no later run, not even initialization and a start-up
  that returns success, makes it report itself connected, accept a subscription or start a
  receive loop; the flag is never reset.\<close>

theorem closed_is_final:
  assumes "durationpb (lib_durationpb X)" and "no_nil_consumer E"
    and "plugin_inv (lib_durationpb X) p" and "isClosed p" and "plugin_run E X p ops = Inr q"
  shows "isClosed q \<and> \<not> IsConnected q \<and> set (loops q) \<subseteq> set (loops p) \<and>
    fst (SubscribeWith name topics (Some handler) q) = Some ShuttingDown \<and>
    SubscribeWithRegex E pat (Some handler) q = Inr (Some ShuttingDown, q)"
  using keeps_run [OF assms(3,1,2,5)] assms(4)
  by (simp add: keeps_def isClosed_def IsConnected_def SubscribeWith_def SubscribeWithRegex_def)

text \<open>The in-process metrics and the health status that \<open>GetMetrics\<close> and \<open>GetHealth\<close>
  return keep their zero values through every run: no operation ever updates them.\<close>

theorem snapshots_never_updated:
  assumes "durationpb (lib_durationpb X)" and "no_nil_consumer E"
    and "plugin_run E X (NewPulsarClient (lib_durationpb X)) ops = Inr p"
  shows "GetMetrics p = Some zero_Metrics \<and> GetHealth p = zero_HealthStatus"
  using keeps_run [OF plugin_inv_New [OF assms(1)] assms]
  by (simp add: keeps_def GetMetrics_def GetHealth_def NewPulsarClient_def)

text \<open>A run that stops the plugin, initializes it again and starts it again.\<close>

definition restart :: "plugin_op list" where
  "restart = [OpInitializeResources (Some \<lparr>rt_GetConfig = None\<rparr>), OpStartContext Background]"

lemma closed_plugin_inv: "plugin_inv durationpb_doc (fresh_plugin\<lparr>closed := True\<rparr>)"
  using doc.normal_default fresh_plugin_wf
  by (simp add: plugin_inv_def client_wf_def fresh_plugin_def NewPulsarClient_def)

theorem closed_is_final_witness:
  "\<exists>q. plugin_run ok_env sample_libs (fresh_plugin\<lparr>closed := True\<rparr>) restart = Inr q \<and>
     \<not> IsConnected q \<and>
     fst (SubscribeWith ''default-consumer'' [] (Some even_handler) q) = Some ShuttingDown"
proof -
  have lib: "lib_durationpb sample_libs = durationpb_doc" by (simp add: sample_libs_def)
  note inv = closed_plugin_inv [folded lib]
  obtain q where run: "plugin_run ok_env sample_libs (fresh_plugin\<lparr>closed := True\<rparr>) restart = Inr q"
    using plug.run_ok [of sample_libs "fresh_plugin\<lparr>closed := True\<rparr>" ok_env restart] inv
      sample_libs_durationpb ok_env_no_nil by (auto simp: plugin_run_def)
  have "isClosed (fresh_plugin\<lparr>closed := True\<rparr>)" by (simp add: isClosed_def)
  from closed_is_final [OF sample_libs_durationpb ok_env_no_nil inv this run] run show ?thesis
    by blast
qed

theorem snapshots_never_updated_witness:
  "\<exists>p. plugin_run ok_env sample_libs (NewPulsarClient durationpb_doc) restart = Inr p \<and>
     GetHealth p = zero_HealthStatus"
proof -
  have lib: "lib_durationpb sample_libs = durationpb_doc" by (simp add: sample_libs_def)
  obtain q where run: "plugin_run ok_env sample_libs (NewPulsarClient (lib_durationpb sample_libs)) restart = Inr q"
    using plug.run_ok [of sample_libs "NewPulsarClient (lib_durationpb sample_libs)" ok_env restart]
      plugin_inv_New [OF sample_libs_durationpb] sample_libs_durationpb ok_env_no_nil
    by (auto simp: plugin_run_def)
  from snapshots_never_updated [OF sample_libs_durationpb ok_env_no_nil run] run show ?thesis
    unfolding lib by blast
qed

end
