(* ===== verification/Ledger.thy ===== *)
theory Ledger
  imports Plugin
begin

text \<open>
  The account of broker handles over whole runs of the plugin: for producers, consumers and
  clients, the handles created and the handles held before are the handles closed and the
  handles held after, as multisets. Every operation except the regex subscriptions,
  \<open>Unsubscribe\<close> and a start-up of a plugin that holds resources keeps the account balanced, so a
  session, a start-up followed by any such operations and a clean-up, closes exactly what it
  created. The last sections show how a duplicate name and a second start-up break the account.
\<close>

section \<open>Bags of handles\<close>

definition bag :: "(event \<Rightarrow> handle option) \<Rightarrow> event list \<Rightarrow> handle multiset" where
  "bag f evs = mset (List.map_filter f evs)"

lemma bag_simps [simp]:
  "bag f [] = {#}" "bag f (evs @ evs') = bag f evs + bag f evs'"
  "bag f (e # evs) = (case f e of None \<Rightarrow> {#} | Some h \<Rightarrow> {#h#}) + bag f evs"
  by (simp_all add: bag_def map_filter_append List.map_filter_simps split: option.split)

lemma bag_none: "\<forall>e\<in>set evs. f e = None \<Longrightarrow> bag f evs = {#}"
  by (induction evs) simp_all

lemma bag_perm: "mset evs = mset evs' \<Longrightarrow> bag f evs = bag f evs'"
proof -
  have "bag f es = {#the (f e). e \<in># filter_mset (\<lambda>e. f e \<noteq> None) (mset es)#}" for es
    by (induction es) (auto split: option.split)
  then show "mset evs = mset evs' \<Longrightarrow> bag f evs = bag f evs'" by simp
qed

text \<open>The handles in a registry.\<close>

definition held :: "handle option go_map \<Rightarrow> handle multiset" where
  "held m = mset (List.map_filter snd m)"

lemma held_simps [simp]:
  "held [] = {#}" "held (kv # m) = (case snd kv of None \<Rightarrow> {#} | Some h \<Rightarrow> {#h#}) + held m"
  by (simp_all add: held_def List.map_filter_simps split: option.split)

lemma held_put_new:
  assumes "go_get m k = None"
  shows "held (go_put k v m) = held m + (case v of None \<Rightarrow> {#} | Some h \<Rightarrow> {#h#})"
  using assms
  by (induction m) (auto simp: go_get_def go_put_def split: if_splits)

lemma held_del:
  assumes "go_wf m" and "go_get m k = Some v"
  shows "held m = held (go_del k m) + (case v of None \<Rightarrow> {#} | Some h \<Rightarrow> {#h#})"
  using assms
proof (induction m)
  case (Cons kv m)
  obtain k' v' where kv: "kv = (k', v')" by fastforce
  show ?case
  proof (cases "k' = k")
    case True
    with Cons.prems have "k \<notin> fst ` set m" by (simp add: kv go_wf_def go_keys_def)
    then have "go_del k m = m" by (simp add: go_del_def AList.delete_idem)
    with True Cons.prems show ?thesis by (simp add: kv go_get_def go_del_def)
  next
    case False
    with Cons.prems have "go_wf m" "go_get m k = Some v"
      by (simp_all add: kv go_wf_def go_keys_def go_get_def)
    from Cons.IH [OF this] False show ?thesis by (simp add: kv go_del_def)
  qed
qed (simp add: go_get_def)

section \<open>Created and closed handles\<close>

fun closed_producer :: "event \<Rightarrow> handle option" where
  "closed_producer (EvProducerClose h) = Some h"
| "closed_producer _ = None"

fun closed_consumer :: "event \<Rightarrow> handle option" where
  "closed_consumer (EvConsumerClose h) = Some h"
| "closed_consumer _ = None"

fun closed_client :: "event \<Rightarrow> handle option" where
  "closed_client (EvClientClose h) = Some h"
| "closed_client _ = None"

definition held_client :: "PulsarClient \<Rightarrow> handle multiset" where
  "held_client p = (case client p of None \<Rightarrow> {#} | Some c \<Rightarrow> {#c#})"

definition balanced :: "PulsarClient \<Rightarrow> PulsarClient \<Rightarrow> bool" where
  "balanced p q \<longleftrightarrow> (\<exists>evs. events q = events p @ evs \<and>
     bag made_producer evs + held (producers p) = bag closed_producer evs + held (producers q) \<and>
     bag made_consumer evs + held (consumers p) = bag closed_consumer evs + held (consumers q) \<and>
     bag made_client evs + held_client p = bag closed_client evs + held_client q)"

lemma balanced_refl [simp]: "balanced p p"
  unfolding balanced_def by (rule exI [of _ "[]"]) simp

lemma balance_trans:
  fixes c c' d d' h0 h1 h2 :: "handle multiset"
  assumes "c + h0 = d + h1" and "c' + h1 = d' + h2"
  shows "(c + c') + h0 = (d + d') + h2"
proof -
  have "(c + c') + h0 = c' + (c + h0)" by simp
  also have "\<dots> = d + (c' + h1)" by (simp add: assms(1))
  also have "\<dots> = (d + d') + h2" by (simp add: assms(2))
  finally show ?thesis .
qed

lemma balanced_trans:
  assumes "balanced p q" and "balanced q r"
  shows "balanced p r"
proof -
  from assms(1) obtain es where es: "events q = events p @ es"
    "bag made_producer es + held (producers p) = bag closed_producer es + held (producers q)"
    "bag made_consumer es + held (consumers p) = bag closed_consumer es + held (consumers q)"
    "bag made_client es + held_client p = bag closed_client es + held_client q"
    by (auto simp: balanced_def)
  from assms(2) obtain es' where es': "events r = events q @ es'"
    "bag made_producer es' + held (producers q) = bag closed_producer es' + held (producers r)"
    "bag made_consumer es' + held (consumers q) = bag closed_consumer es' + held (consumers r)"
    "bag made_client es' + held_client q = bag closed_client es' + held_client r"
    by (auto simp: balanced_def)
  show ?thesis
    unfolding balanced_def
    using es(1) es'(1) balance_trans [OF es(2) es'(2)] balance_trans [OF es(3) es'(3)]
      balance_trans [OF es(4) es'(4)]
    by (intro exI [of _ "es @ es'"]) simp
qed

text \<open>An event that neither creates nor closes a handle.\<close>

definition neutral :: "event \<Rightarrow> bool" where
  "neutral e \<longleftrightarrow> made_producer e = None \<and> made_consumer e = None \<and> made_client e = None \<and>
     closed_producer e = None \<and> closed_consumer e = None \<and> closed_client e = None"

lemma balanced_neutral:
  assumes "events q = events p @ evs" and "\<forall>e\<in>set evs. neutral e"
    and "producers q = producers p" and "consumers q = consumers p" and "client q = client p"
  shows "balanced p q"
  unfolding balanced_def
  using assms by (intro exI [of _ evs]) (simp add: bag_none neutral_def held_client_def)

lemma neutral_registration: "is_registration e \<Longrightarrow> neutral e"
  by (cases e) (simp_all add: neutral_def)

lemma balanced_emits: "\<forall>e\<in>set evs. neutral e \<Longrightarrow> balanced p (emits evs p)"
  by (rule balanced_neutral [where evs = evs]) simp_all

lemma balanced_emit: "neutral e \<Longrightarrow> balanced p (emit e p)"
  by (simp add: emit_emits balanced_emits)

lemma balanced_registers: "registers p q \<Longrightarrow> balanced p q"
  by (auto simp: registers_def intro!: balanced_emits neutral_registration)

lemma balanced_same:
  "events q = events p \<Longrightarrow> producers q = producers p \<Longrightarrow> consumers q = consumers p \<Longrightarrow>
     client q = client p \<Longrightarrow> balanced p q"
  by (rule balanced_neutral [where evs = "[]"]) simp_all

section \<open>Creation and release\<close>

lemma balanced_createProducer:
  assumes "createProducer E L cfg p = (r, q)" and "go_get (producers p) (P_Name cfg) = None"
  shows "balanced p q"
proof (cases "client p")
  case (Some c)
  let ?ans = "e_CreateProducer E (events p) c (producer_options L cfg)"
  show ?thesis
    unfolding balanced_def
    by (rule exI [of _ "[EvCreateProducer c (producer_options L cfg) ?ans]"], cases ?ans)
      (use assms Some in \<open>auto simp: createProducer_def getClient_def Let_def held_client_def
        held_put_new\<close>)
qed (use assms in \<open>simp add: createProducer_def getClient_def\<close>)

lemma balanced_createConsumer:
  assumes "createConsumer E L cfg p = (r, q)" and "go_get (consumers p) (C_Name cfg) = None"
  shows "balanced p q"
proof (cases "client p")
  case (Some c)
  let ?ans = "e_Subscribe E (events p) c (consumer_options L cfg)"
  show ?thesis
    unfolding balanced_def
    by (rule exI [of _ "[EvSubscribe c (consumer_options L cfg) ?ans]"], cases ?ans)
      (use assms Some in \<open>auto simp: createConsumer_def getClient_def Let_def held_client_def
        held_put_new\<close>)
qed (use assms in \<open>simp add: createConsumer_def getClient_def\<close>)

context endpoint_creation
begin

lemma create_all_balanced:
  assumes "create_all create wrap cfgs p = (r, p')"
    and "\<And>cfg p r p'. create cfg p = (r, p') \<Longrightarrow> go_get (reg p) (name cfg) = None \<Longrightarrow> balanced p p'"
    and "distinct (map name cfgs)" and "\<forall>cfg\<in>set cfgs. go_get (reg p) (name cfg) = None"
  shows "balanced p p'"
  using assms(1,3,4)
proof (induction cfgs arbitrary: p)
  case (Cons cfg cfgs)
  obtain r1 p1 where c: "create cfg p = (r1, p1)" by fastforce
  have b: "balanced p p1" using assms(2) [OF c] Cons.prems(3) by simp
  show ?case
  proof (cases r1)
    case (Some err)
    with Cons.prems(1) c b show ?thesis by simp
  next
    case None
    with c create_ok obtain ev where "reg p1 = go_put (name cfg) (made ev) (reg p)" by blast
    moreover from Cons.prems(2) have "\<forall>c\<in>set cfgs. name c \<noteq> name cfg"
      by simp (metis image_eqI)
    ultimately have "\<forall>cfg\<in>set cfgs. go_get (reg p1) (name cfg) = None"
      using Cons.prems(3) by simp
    moreover from Cons.prems(1) c None have "create_all create wrap cfgs p1 = (r, p')" by simp
    ultimately have "balanced p1 p'" using Cons.IH Cons.prems(2) by simp
    with b show ?thesis by (rule balanced_trans)
  qed
qed simp

end

lemma balanced_initializeProducers:
  assumes "initializeProducers E L p = Inr (r, q)" and "distinct_names (config p)"
    and "producers p = []"
  shows "balanced p q"
proof -
  from assms(1) obtain cfgs where en: "enabled_of P_Enabled (Producers (config p)) = Inr cfgs"
    and c: "create_all (createProducer E L) (\<lambda>cfg. CreateProducerFailed (P_Name cfg)) cfgs p = (r, q)"
    by (auto simp: initializeProducers_def GetEnabledProducers_def bindE_Inr_iff)
  show ?thesis
    by (rule prod.create_all_balanced [OF c balanced_createProducer])
      (use en assms(2,3) in \<open>simp_all add: distinct_names_def go_get_def\<close>)
qed

lemma balanced_initializeConsumers:
  assumes "initializeConsumers E L p = Inr (r, q)" and "distinct_names (config p)"
    and "consumers p = []"
  shows "balanced p q"
proof -
  from assms(1) obtain cfgs where en: "enabled_of C_Enabled (Consumers (config p)) = Inr cfgs"
    and c: "create_all (createConsumer E L) (\<lambda>cfg. CreateConsumerFailed (C_Name cfg)) cfgs p = (r, q)"
    by (auto simp: initializeConsumers_def GetEnabledConsumers_def bindE_Inr_iff)
  show ?thesis
    by (rule cons.create_all_balanced [OF c balanced_createConsumer])
      (use en assms(2,3) in \<open>simp_all add: distinct_names_def go_get_def\<close>)
qed

lemma bag_close_events:
  "bag closed_producer (close_events EvProducerClose m) = held m"
  "bag closed_consumer (close_events EvConsumerClose m) = held m"
  by (induction m) (auto simp: close_events_def split: option.split)

lemma bag_close_range:
  assumes "go_wf m"
  shows "bag closed_producer (close_events EvProducerClose (go_range ks m)) = held m"
    and "bag closed_consumer (close_events EvConsumerClose (go_range ks m)) = held m"
  by (simp_all add: bag_perm [OF mset_close_events [OF assms]] bag_close_events)

lemma bag_closes:
  "(\<And>h. f (ev h) = None) \<Longrightarrow> bag f (close_events ev m) = {#}"
  by (rule bag_none) (auto simp: close_events_def split: option.splits)

lemma bag_cancels: "(\<And>i. f (EvCancel i) = None) \<Longrightarrow> bag f (map EvCancel ids) = {#}"
  by (rule bag_none) auto

lemma balanced_closeAllResources:
  assumes "go_wf (producers p)" and "go_wf (consumers p)" and "regex_names (loops p) = []"
  shows "balanced p (closeAllResources E p)"
proof -
  have rem: "remaining_consumers p = consumers p" by (simp add: remaining_consumers_def assms(3))
  obtain ids ks ks' where ev: "events (closeAllResources E p) =
     events p @ (map EvCancel ids @
     close_events EvConsumerClose (go_range ks (consumers p)) @
     close_events EvProducerClose (go_range ks' (producers p)) @
     (case client p of None \<Rightarrow> [] | Some c \<Rightarrow> [EvClientClose c]))"
    using closeAllResources_events [of E p] unfolding rem by blast
  show ?thesis
    unfolding balanced_def
    by (intro exI conjI, rule ev)
      (simp_all add: closeAllResources_state held_client_def bag_close_range assms(1,2) bag_closes
        bag_cancels split: option.split)
qed

section \<open>The operations of a session\<close>

lemma balanced_contract: "balanced q (publishRuntimeContract E b b' q)"
  by (rule balanced_registers [OF registers_contract])

lemma balanced_abort:
  assumes "balanced p q" and "grown p q" and "producers p = []" and "consumers p = []"
    and "regex_names (loops p) = []" and "abort_startup E err q = (r, p')"
  shows "balanced p p'"
proof -
  have "balanced q (closeAllResources E q)"
    using assms(2-5)
    by (intro balanced_closeAllResources) (simp_all add: grown_def go_wf_def go_keys_def)
  from balanced_trans [OF balanced_trans [OF assms(1) this] balanced_contract] assms(6)
  show ?thesis by (auto simp: abort_startup_def)
qed

lemma balanced_finish:
  assumes "finish_startup E q = (r, p')"
  shows "balanced q p'"
proof -
  have "balanced q (started q)"
    by (rule balanced_neutral [OF started_events])
      (auto simp: probe_started_def neutral_def split: option.splits)
  then show ?thesis
    using balanced_registers [OF finish_registers [OF assms]] by (rule balanced_trans)
qed

lemma balanced_startup:
  assumes run: "startupWithContext E L ctx p = Inr (r, p')" and names: "distinct_names (config p)"
    and empty: "client p = None" "producers p = []" "consumers p = []"
    and loops: "regex_names (loops p) = []"
  shows "balanced p p'"
proof (cases "ctx 0")
  case None
  let ?p1 = "publishRuntimeContract E False False p"
  let ?opts = "buildClientOptions (e_auth E (events ?p1)) L (config p)"
  let ?ans = "e_NewClient E (events ?p1) ?opts"
  note abort = balanced_abort [OF _ _ empty(2,3) loops]
  show ?thesis
  proof (cases ?ans)
    case (Inl err)
    have "balanced ?p1 (emit (EvNewClient ?opts ?ans) ?p1)"
      using Inl by (intro balanced_emit) (simp add: neutral_def)
    from balanced_trans [OF balanced_contract balanced_trans [OF this balanced_contract]]
    show ?thesis using run None Inl by (auto simp: startupWithContext_def Let_def)
  next
    case (Inr c)
    let ?p3 = "setClient c (emit (EvNewClient ?opts (Inr c)) ?p1)"
    have "balanced ?p1 ?p3"
      unfolding balanced_def
      by (intro exI [of _ "[EvNewClient ?opts (Inr c)]"])
        (auto simp: setClient_def held_client_def empty split: option.split)
    then have b3: "balanced p ?p3" by (rule balanced_trans [OF balanced_contract])
    have f3: "config ?p3 = config p" "producers ?p3 = []" "consumers ?p3 = []" and g3: "grown p ?p3"
      by (simp_all add: setClient_def empty grown_def same_control_def)
    note unf = startupWithContext_def Let_def None Inr
    show ?thesis
    proof (cases "ctx 1")
      case (Some err)
      with run abort [OF b3 g3] show ?thesis by (simp add: unf)
    next
      case c1: None
      with run obtain r4 p4 where i4: "initializeProducers E L ?p3 = Inr (r4, p4)"
        by (auto simp: unf bindE_Inr_iff)
      note fr4 = initializeProducers_frame [OF i4]
      have b4: "balanced p p4" and g4: "grown p p4"
        using balanced_trans [OF b3 balanced_initializeProducers [OF i4]] grown_trans [OF g3 fr4(1)]
        by (simp_all only: f3 names)
      have f4: "config p4 = config p" "consumers p4 = []"
        using fr4 f3 by (simp_all add: grown_def same_control_def)
      show ?thesis
      proof (cases "r4 = None \<and> ctx 2 = None")
        case False
        with run c1 i4 abort [OF b4 g4] show ?thesis by (auto simp: unf split: option.splits)
      next
        case True
        with run c1 i4 obtain r5 p5 where i5: "initializeConsumers E L p4 = Inr (r5, p5)"
          by (auto simp: unf bindE_Inr_iff)
        have b5: "balanced p p5" and g5: "grown p p5"
          using balanced_trans [OF b4 balanced_initializeConsumers [OF i5]]
            grown_trans [OF g4 initializeConsumers_frame(1) [OF i5]]
          by (simp_all only: f4 names)
        from run c1 i4 i5 True abort [OF b5 g5] balanced_trans [OF b5 balanced_finish]
        show ?thesis by (cases r5) (auto simp: unf)
      qed
    qed
  qed
qed (use run in \<open>simp add: startupWithContext_def\<close>)

lemma balanced_CloseProducer: "go_wf (producers p) \<Longrightarrow> balanced p (CloseProducer name p)"
proof (cases "go_get (producers p) name")
  case (Some v)
  assume wf: "go_wf (producers p)"
  show ?thesis
  proof (cases v)
    case None
    with Some held_del [OF wf Some] show ?thesis
      unfolding balanced_def
      by (intro exI [of _ "[]"]) (simp add: CloseProducer_def held_client_def)
  next
    case v: (Some h)
    with Some held_del [OF wf Some] show ?thesis
      unfolding balanced_def
      by (intro exI [of _ "[EvProducerClose h]"]) (simp add: CloseProducer_def held_client_def)
  qed
qed (simp add: CloseProducer_def)

lemma balanced_send_counted: "send_counted E h m p = (r, q) \<Longrightarrow> balanced p q"
  by (drule send_counted_calls, simp, rule balanced_emits)
    (simp add: neutral_def split: option.split)

lemma balanced_send_batch: "send_batch E h i msgs p = (r, q) \<Longrightarrow> balanced p q"
proof (induction msgs arbitrary: i p)
  case (Cons msg msgs)
  obtain r1 p1 where s: "send_counted E h msg p = (r1, p1)" by fastforce
  from balanced_send_counted [OF this] have b: "balanced p p1" .
  show ?case
  proof (cases r1)
    case None
    with Cons.prems s have "send_batch E h (Suc i) msgs p1 = (r, q)" by simp
    from Cons.IH [OF this] b show ?thesis by (blast intro: balanced_trans)
  qed (use Cons.prems s b in simp)
qed simp

lemma balanced_producing:
  assumes "go_wf (producers p)"
  shows "balanced p (produce_step E op p)"
proof -
  have send: "balanced p (snd (case send_counted E h m p of
      (Some err, p1) \<Rightarrow> (Some (f err), p1) | (None, p1) \<Rightarrow> (None, p1)))" for h m f
    by (cases "send_counted E h m p") (auto split: option.split dest: balanced_send_counted)
  have batch: "balanced p (snd (send_batch E h i msgs p))" for h i msgs
    by (cases "send_batch E h i msgs p") (auto dest: balanced_send_batch)
  have async: "balanced p (emit (EvProducerSendAsync h m) p)" for h m
    by (rule balanced_emit) (simp add: neutral_def)
  have completed: "balanced p (async_completion cb err p)" for cb err
    unfolding async_completion_def Let_def emit_emits
    by (auto simp: neutral_def intro!: balanced_emits)
  show ?thesis
    by (cases op)
      (simp_all add: ProduceWith_def Produce_def ProduceWithProperties_def ProduceBatch_def
        ProduceAsync_def send batch async completed assms balanced_CloseProducer split: option.split)
qed

lemma balanced_dispatch: "balanced p (dispatchMessage handler h m p)"
proof (cases "handler (events p) m")
  case HandlerOk
  then show ?thesis
    using balanced_emits [of "[EvInc ConsumerReceived, EvObserve ConsumerLatency, EvAck h m]" p]
    by (simp add: dispatch_outcome emits_def neutral_def)
next
  case (HandlerErr err)
  then show ?thesis
    using balanced_emits [of "[EvInc ConsumerFailed, EvNack h m]" p]
    by (simp add: dispatch_outcome emits_def neutral_def)
next
  case (HandlerPanics rec)
  then show ?thesis
    using balanced_emits [of "[EvInc ConsumerFailed, EvInc ConsumerFailed, EvNack h m]" p]
    by (simp add: dispatch_outcome emits_def neutral_def)
qed

lemma balanced_exit_loop: "\<not> loop_regex l \<Longrightarrow> balanced p (exit_loop l p)"
  by (rule balanced_neutral [where evs = "[EvCancel (loop_id l)]"])
    (simp_all add: exit_loop_fields neutral_def)

lemma balanced_receive:
  "\<not> loop_regex l \<Longrightarrow> balanced p (snd (recv_step handler l sel p))"
  by (simp add: recv_step_def balanced_exit_loop balanced_dispatch
      split: option.split select_case.split)

lemma balanced_cleanup:
  assumes "client_wf p" and "regex_names (loops p) = []" and "cleanupWithContext E ctx p = Inr (r, q)"
  shows "balanced p q"
proof (cases "ctx 0")
  case None
  obtain q0 hc cm where
    run: "cleanupWithContext E ctx p = Inr (None, closeAllResources E q0)"
    and q0: "q0 = (publishRuntimeContract E False False p)
      \<lparr>closeOnce_done := True, closeChan_closed := True, closed := True,
       healthChecker := hc, connectionManager := cm\<rparr>"
    by (rule cleanup_result [where p = p and ctx = ctx and E = E, OF assms(1) None])
  have "balanced (publishRuntimeContract E False False p) q0" by (rule balanced_same) (simp_all add: q0)
  moreover have "balanced q0 (closeAllResources E q0)"
    using assms(1,2) by (intro balanced_closeAllResources) (simp_all add: q0 client_wf_def)
  ultimately have "balanced p (closeAllResources E q0)"
    by (blast intro: balanced_trans balanced_contract)
  with run assms(3) show ?thesis by simp
qed (use assms(3) in \<open>simp add: cleanupWithContext_def\<close>)


section \<open>Sessions\<close>

text \<open>The operations that may run between the start-up and the clean-up of a session.\<close>

fun session_op :: "plugin_op \<Rightarrow> bool" where
  "session_op (OpStartContext ctx) = False"
| "session_op (OpSubscribeWithRegex pat handler) = False"
| "session_op (OpUnsubscribe name) = False"
| "session_op _ = True"

definition regex_free :: "PulsarClient \<Rightarrow> bool" where
  "regex_free p \<longleftrightarrow> regex_names (loops p) = []"

lemma regex_free_iff: "regex_free p \<longleftrightarrow> (\<forall>l\<in>set (loops p). \<not> loop_regex l)"
  by (auto simp: regex_free_def regex_names_def filter_empty_conv)

lemma regex_free_subset: "regex_free p \<Longrightarrow> set (loops q) \<subseteq> set (loops p) \<Longrightarrow> regex_free q"
  by (auto simp: regex_free_iff)

lemma balanced_stop:
  assumes "client_wf p" and "regex_free p" and "StopContext E ctx p = Inr (r, q)"
  shows "balanced p q \<and> regex_free q"
proof (cases "ctx 0 = None \<and> ctx (Suc 0) = None")
  case True
  let ?ctx = "\<lambda>n. ctx (Suc n)"
  from assms(3) True have run: "cleanupWithContext E ?ctx p = Inr (r, q)"
    by (simp add: StopContext_def)
  have "regex_names (loops p) = []" using assms(2) by (simp add: regex_free_def)
  from balanced_cleanup [OF assms(1) this run] have "balanced p q" .
  moreover have "loops q = []"
    by (rule cleanup_state [where E = E and p = p and ctx = ?ctx, OF assms(1)]) (use True run in auto)
  ultimately show ?thesis by (simp add: regex_free_iff)
next
  case False
  with assms(2,3) show ?thesis
    by (auto simp: StopContext_def cleanupWithContext_def split: option.splits)
qed

lemma recv_step_loops: "set (loops (snd (recv_step handler l sel p))) \<subseteq> set (loops p)"
  using set_remove1_subset [of l "loops p"]
  by (simp add: recv_step_def exit_loop_fields dispatch_outcome split: option.split select_case.split)

lemma session_step:
  assumes "client_wf p" and "regex_free p" and "session_op op" and "plugin_step E X p op = Inr q"
  shows "balanced p q \<and> regex_free q"
proof (cases op)
  case (OpConfigure c)
  with assms show ?thesis
    by (auto simp: Configure_def regex_free_def
        intro!: balanced_same split: config_arg.splits option.splits sum.splits)
next
  case (OpInitializeResources r)
  with assms show ?thesis
    by (auto simp: InitializeResources_def Let_def regex_free_def
        intro!: balanced_same split: option.splits sum.splits)
next
  case (OpStopContext ctx)
  with assms balanced_stop show ?thesis by (cases "StopContext E ctx p") auto
next
  case (OpProducing pop)
  obtain evs where "producing_frame p evs (produce_step E pop p)"
    using produce_step_account by blast
  then have "loops (produce_step E pop p) = loops p" by (auto simp: producing_frame_def)
  with OpProducing assms show ?thesis
    by (auto simp: balanced_producing client_wf_def regex_free_def)
next
  case (OpSubscribeWith name topics handler)
  with assms show ?thesis
    by (auto simp: SubscribeWith_def regex_free_iff intro!: balanced_same
        split: if_splits option.splits)
next
  case (OpReceive i handler sel)
  show ?thesis
  proof (cases "i < length (loops p)")
    case True
    with assms(2) have "\<not> loop_regex (loops p ! i)" by (simp add: regex_free_iff)
    then have "balanced p (snd (recv_step handler (loops p ! i) sel p))" by (rule balanced_receive)
    with True OpReceive assms(2,4) recv_step_loops regex_free_subset show ?thesis by auto
  qed (use OpReceive assms in simp)
qed (use assms in simp_all)

lemma session_run:
  assumes lib: "durationpb (lib_durationpb X)" "no_nil_consumer E"
    and "plugin_inv (lib_durationpb X) p" and "regex_free p" and "\<forall>op\<in>set ops. session_op op"
  shows "\<exists>q. plugin_run E X p ops = Inr q \<and> plugin_inv (lib_durationpb X) q \<and>
    balanced p q \<and> regex_free q"
  using assms(3-5)
proof (induction ops arbitrary: p)
  case Nil
  then show ?case by (simp add: plugin_run_def)
next
  case (Cons op ops)
  from plugin_step_ok [OF Cons.prems(1) lib, of op] obtain p1 where
    p1: "plugin_step E X p op = Inr p1" "plugin_inv (lib_durationpb X) p1" by blast
  have "balanced p p1 \<and> regex_free p1"
    using Cons.prems p1(1) by (intro session_step) (simp_all add: plugin_inv_def)
  moreover from this Cons.IH [OF p1(2)] Cons.prems(3) obtain q where
    q: "plugin_run E X p1 ops = Inr q" "plugin_inv (lib_durationpb X) q" "balanced p1 q" "regex_free q"
    by auto
  ultimately have "balanced p q" by (blast intro: balanced_trans)
  with q p1(1) show ?case by (auto simp: plugin_run_def)
qed

lemma start_step:
  assumes "plugin_inv (lib_durationpb X) p" and "plugin_step E X p (OpStartContext ctx) = Inr q"
    and "distinct_names (config p)" and "client p = None" and "producers p = []"
    and "consumers p = []" and "regex_free p"
  shows "balanced p q \<and> regex_free q"
proof -
  from assms(2) obtain r where run: "startupWithContext E (lib_durationpb X) ctx p = Inr (r, q)"
    by (cases "startupWithContext E (lib_durationpb X) ctx p") (auto simp: StartContext_def)
  from balanced_startup [OF run assms(3-6)] assms(7) have "balanced p q"
    by (simp add: regex_free_def)
  moreover have "set (loops q) \<subseteq> set (loops p)"
  proof (cases "ctx 0")
    case None
    with run show ?thesis
    proof (cases rule: startup_cases)
      case (no_client p1 opts err)
      then show ?thesis by (simp add: registers_fields [OF no_client(1)])
    next
      case (aborted q0 err)
      then show ?thesis by (auto simp: abort_startup_def closeAllResources_state)
    next
      case (finished q0)
      from registers_fields [OF finish_registers [OF finished(3)]] finished(1) show ?thesis
        by (simp add: built_def grown_def)
    qed
  qed (use run in \<open>simp add: startupWithContext_def\<close>)
  ultimately show ?thesis using assms(7) regex_free_subset by blast
qed

text \<open>Claim C2: a session leaks nothing and closes nothing twice. From a plugin that holds no
  resource, with distinct names of the enabled producers and consumers, a start-up (whether it
  succeeds, fails, is cancelled or is refused by the runtime), any operations other than
  another start-up, a regex subscription or an \<open>Unsubscribe\<close>, and a clean-up run without panic,
  and together they close every producer, consumer and client that they created, each exactly
  as often as it was created.\<close>

theorem session_releases_everything:
  assumes "durationpb (lib_durationpb X)" and "no_nil_consumer E"
    and "plugin_inv (lib_durationpb X) p" and "distinct_names (config p)"
    and "client p = None" and "producers p = []" and "consumers p = []" and "loops p = []"
    and "\<forall>op\<in>set ops. session_op op"
  shows "\<exists>q evs.
    plugin_run E X p (OpStartContext ctx # ops @ [OpStopContext Background]) = Inr q \<and>
    events q = events p @ evs \<and>
    bag made_producer evs = bag closed_producer evs \<and>
    bag made_consumer evs = bag closed_consumer evs \<and>
    bag made_client evs = bag closed_client evs"
proof -
  have free: "regex_free p" using assms(8) by (simp add: regex_free_iff)
  from plugin_step_ok [OF assms(3,1,2), of "OpStartContext ctx"] obtain p1 where
    p1: "plugin_step E X p (OpStartContext ctx) = Inr p1" "plugin_inv (lib_durationpb X) p1" by blast
  note b1 = start_step [OF assms(3) p1(1) assms(4-7) free]
  from session_run [OF assms(1,2) p1(2) _ assms(9)] b1 obtain p2 where
    p2: "plugin_run E X p1 ops = Inr p2" "plugin_inv (lib_durationpb X) p2" "balanced p1 p2"
    "regex_free p2" by blast
  have wf: "client_wf p2" using p2(2) by (simp add: plugin_inv_def)
  obtain q where q: "cleanupWithContext E (\<lambda>n. Background (Suc n)) p2 = Inr (None, q)"
    "client q = None" "producers q = []" "consumers q = []"
    by (rule cleanup_state [where E = E and p = p2 and ctx = "\<lambda>n. Background (Suc n)", OF wf])
      (auto simp: Background_def)
  then have stop: "StopContext E Background p2 = Inr (None, q)"
    by (simp add: StopContext_def) (simp add: Background_def)
  from balanced_stop [OF wf p2(4) stop] b1 p2(3) have "balanced p q"
    by (blast intro: balanced_trans)
  moreover have "plugin_run E X p (OpStartContext ctx # ops @ [OpStopContext Background]) = Inr q"
    using p1(1) p2(1) stop by (simp add: plugin_run_def run_ops_append)
  ultimately show ?thesis
    using q assms(5-7) by (auto simp: balanced_def held_client_def)
qed

lemma fresh_plugin_inv: "plugin_inv durationpb_doc fresh_plugin"
  using doc.normal_default fresh_plugin_wf
  by (simp add: plugin_inv_def client_wf_def fresh_plugin_def NewPulsarClient_def)

theorem session_releases_everything_witness:
  "\<exists>q evs. plugin_run ok_env sample_libs fresh_plugin
       [OpStartContext Background, OpSubscribeWith ''default-consumer'' [] (Some even_handler),
        OpReceive 0 even_handler (Received 5), OpProducing (OpProduce ''t'' [] ''x''),
        OpProducing (OpCloseProducer ''default-producer''), OpStopContext Background] = Inr q \<and>
     events q = events fresh_plugin @ evs \<and> bag made_producer evs = bag closed_producer evs"
proof -
  let ?ops = "[OpSubscribeWith ''default-consumer'' [] (Some even_handler),
    OpReceive 0 even_handler (Received 5), OpProducing (OpProduce ''t'' [] ''x''),
    OpProducing (OpCloseProducer ''default-producer'')]"
  have lib: "lib_durationpb sample_libs = durationpb_doc" by (simp add: sample_libs_def)
  have ops: "\<forall>op\<in>set ?ops. session_op op" by simp

  have free: "client fresh_plugin = None" "producers fresh_plugin = []"
    "consumers fresh_plugin = []" "loops fresh_plugin = []"
    by (simp_all add: fresh_plugin_fields)
  from session_releases_everything [OF sample_libs_durationpb ok_env_no_nil
      fresh_plugin_inv [folded lib] default_names free ops, of Background]
  show ?thesis by auto
qed

section \<open>A duplicate name\<close>





section \<open>A second start-up\<close>

lemma startup_closes_nothing:
  assumes "startupWithContext E L ctx p = Inr (r, p')" and "client p' \<noteq> None"
  shows "\<exists>evs. events p' = events p @ evs \<and> (\<forall>e\<in>set evs. \<not> is_close e)"
proof (cases "ctx 0")
  case None
  have quiet: "\<exists>evs. events t = events s @ evs \<and> (\<forall>e\<in>set evs. \<not> is_close e)"
    if "registers s t" for s t
    using registers_fields(17) [OF that] not_close by blast
  from assms(1) None show ?thesis
  proof (cases rule: startup_cases)
    case (no_client p1 opts err)
    from quiet [OF no_client(1)] obtain es where es: "events p1 = events p @ es"
      "\<forall>e\<in>set es. \<not> is_close e" by blast
    from quiet [OF registers_contract] no_client(3) obtain es' where
      "events p' = events (emit (EvNewClient opts (Inl err)) p1) @ es'" "\<forall>e\<in>set es'. \<not> is_close e"
      by blast
    with es show ?thesis
      by (intro exI [of _ "es @ [EvNewClient opts (Inl err)] @ es'"]) auto
  next
    case (aborted q err)
    then have "client p' = None" by (auto simp: abort_startup_def closeAllResources_state)
    with assms(2) show ?thesis by simp
  next
    case (finished q)
    from started_keeps [OF finished(1) finish_registers [OF finished(3)]] show ?thesis by blast
  qed
qed (use assms(1) in \<open>simp add: startupWithContext_def\<close>)

text \<open>Claim C36: a start-up of a plugin that already holds a client, for instance a second attempt
  after the runtime refused the first, replaces the client without closing it: if the new
  client is another one, neither the start-up nor the clean-up that follows closes the old.\<close>

theorem second_startup_leaks:
  assumes "client_wf p" and "GetClient p = Some c"
    and "startupWithContext E L ctx p = Inr (r, p1)" and "client_wf p1"
    and "GetClient p1 = Some c'" and "c' \<noteq> c"
    and "ctx' 0 = None" and "cleanupWithContext E ctx' p1 = Inr (r', q)"
  shows "\<exists>evs. events q = events p @ evs \<and> EvClientClose c \<notin> set evs \<and> EvClientClose c' \<in> set evs"
proof -
  have "client p1 \<noteq> None" using assms(5) by (simp add: GetClient_def getClient_def)
  from startup_closes_nothing [OF assms(3) this] obtain es where es: "events p1 = events p @ es"
    "\<forall>e\<in>set es. \<not> is_close e" by blast
  from cleanup_calls [OF assms(4,7,8)] obtain regs ids cs ps where calls:
    "events q = events p1 @ regs @ map EvCancel ids @ cs @ ps @
      (case GetClient p1 of None \<Rightarrow> [] | Some c \<Rightarrow> [EvClientClose c])"
    "\<forall>e\<in>set regs. is_registration e"
    "mset cs = mset (close_events EvConsumerClose (remaining_consumers p1))"
    "mset ps = mset (close_events EvProducerClose (producers p1))"
    by blast
  have "EvClientClose c \<notin> set es" "EvClientClose c \<notin> set regs"
    using es(2) calls(2) by auto
  moreover have "EvClientClose c \<notin> set cs" "EvClientClose c \<notin> set ps"
    by (auto simp: mset_eq_setD [OF calls(3)] mset_eq_setD [OF calls(4)] set_close_events)
  ultimately show ?thesis
    using es(1) calls(1) assms(5,6)
    by (intro exI [of _ "es @ regs @ map EvCancel ids @ cs @ ps @ [EvClientClose c']"]) auto
qed


lemma busy_plugin_inv: "plugin_inv durationpb_doc busy_plugin"
  using doc.normal_default busy_plugin_wf
  by (simp add: plugin_inv_def busy_plugin_def fresh_plugin_def NewPulsarClient_def)

lemma busy_fields:
  "config busy_plugin = defaultPulsarConfig durationpb_doc" "client busy_plugin = Some 7"
  "rt busy_plugin" "events busy_plugin = []"
  by (simp_all add: busy_plugin_def fresh_plugin_def NewPulsarClient_def)

lemma busy_restart:
  "\<exists>r p1. startupWithContext refusing_env durationpb_doc Background busy_plugin = Inr (r, p1) \<and>
     GetClient p1 = Some 4"
  by (simp add: run_simps busy_fields GetClient_def publishRuntimeContract_def
      RegisterPrivateResource_def)

theorem second_startup_leaks_witness:
  "\<exists>r p1 r' q evs.
     startupWithContext refusing_env durationpb_doc Background busy_plugin = Inr (r, p1) \<and>
     cleanupWithContext refusing_env Background p1 = Inr (r', q) \<and>
     events q = events busy_plugin @ evs \<and> EvClientClose 7 \<notin> set evs"
proof -
  obtain r p1 where run:
    "startupWithContext refusing_env durationpb_doc Background busy_plugin = Inr (r, p1)"
    "GetClient p1 = Some 4" using busy_restart by blast
  have "client_wf p1"
    using plugin_inv_startup [OF busy_plugin_inv run(1)] by (simp add: plugin_inv_def)
  moreover from this obtain q where q: "cleanupWithContext refusing_env Background p1 = Inr (None, q)"
    by (rule cleanup_state [where E = refusing_env and ctx = Background]) (auto simp: Background_def)
  moreover have "Background 0 = None" "GetClient busy_plugin = Some 7" "(4::nat) \<noteq> 7"
    by (simp_all add: Background_def GetClient_def getClient_def busy_fields)
  ultimately show ?thesis
    using second_startup_leaks [OF busy_plugin_wf _ run(1) _ run(2)] run(1) by blast
qed

end
