(* ===== verification/ReceiveLoops.thy ===== *)
theory ReceiveLoops
  imports Client
begin

text \<open>
  The concurrent side of \<open>consumer.go\<close> and of \<open>stopReceivers\<close> and \<open>closeAllResources\<close>: callers of
  \<open>SubscribeWith\<close>, \<open>SubscribeWithRegex\<close> and \<open>Unsubscribe\<close>, their receive loops and one goroutine that shuts down,
  interleaved at the granularity of the mutexes. Every section under a lock, every channel
  operation and every call on \<open>recvWG\<close> is one step of the relation \<open>sys_step\<close>. Theories
  \<open>Resources\<close> and \<open>Consuming\<close> run each operation without interruption; this theory says what
  interleaving adds: which exclusion and shutdown guarantees survive, and which do not.
\<close>

section \<open>The system\<close>

text \<open>A caller: after its check of \<open>isClosed\<close> (a regex caller holds its new consumer by then), and
  after it registered its cancel function under the lock but has not started the goroutine.\<close>

datatype caller =
    Checked string
  | CheckedRegex string handle
  | RegisteredLoop nat string handle bool

text \<open>A receive loop: in \<open>select\<close>; with a message before the second check of \<open>isClosed\<close>; in
  \<open>dispatchMessage\<close>; returned, before its deferred function; after it removed its entries and
  before \<open>cancel\<close> and \<open>recvWG.Done\<close>.\<close>

datatype loop_pc = Selecting | Holding message | Dispatching message | Leaving | Left

record loop_state =
  ls_name :: string
  ls_consumer :: handle
  ls_regex :: bool
  ls_pc :: loop_pc

text \<open>The goroutine that shuts down: \<open>cleanupWithContext\<close> closes the channel, sets the flag and
  calls \<open>closeAllResources\<close>; a failed start-up calls \<open>closeAllResources\<close> at once.\<close>

datatype closer_pc =
    NotClosing | ChanClosedPc | Collecting | Cancelling "nat set" | Waiting | Releasing | Released

record system =
  sys_closed :: bool
  sys_chan_closed :: bool
  sys_consumers :: "string \<Rightarrow> handle option"
  sys_subs :: "string \<Rightarrow> nat option"
  sys_cancelled :: "nat set"
  sys_wg :: "nat set"                        \<comment> \<open>the loops that \<open>recvWG\<close> counts\<close>
  sys_callers :: "nat \<Rightarrow> caller option"
  sys_loops :: "nat \<Rightarrow> loop_state option"
  sys_next :: nat                            \<comment> \<open>the next fresh loop identity\<close>
  sys_closer :: closer_pc

definition sys_init :: "(string \<Rightarrow> handle option) \<Rightarrow> system" where
  "sys_init cs =
     \<lparr>sys_closed = False, sys_chan_closed = False, sys_consumers = cs, sys_subs = (\<lambda>_. None),
      sys_cancelled = {}, sys_wg = {}, sys_callers = (\<lambda>_. None), sys_loops = (\<lambda>_. None),
      sys_next = 0, sys_closer = NotClosing\<rparr>"

definition set_pc :: "nat \<Rightarrow> loop_state \<Rightarrow> loop_pc \<Rightarrow> system \<Rightarrow> system" where
  "set_pc i l pc s = s\<lparr>sys_loops := (sys_loops s)(i \<mapsto> l\<lparr>ls_pc := pc\<rparr>)\<rparr>"

definition register_loop :: "nat \<Rightarrow> string \<Rightarrow> handle \<Rightarrow> bool \<Rightarrow> system \<Rightarrow> system" where
  "register_loop t name h regex s =
     s\<lparr>sys_subs := (sys_subs s)(name \<mapsto> sys_next s),
       sys_callers := (sys_callers s)(t \<mapsto> RegisteredLoop (sys_next s) name h regex),
       sys_next := Suc (sys_next s)\<rparr>"

inductive sys_step :: "system \<Rightarrow> system \<Rightarrow> bool" where
  check: "sys_callers s t = None \<Longrightarrow> \<not> sys_closed s \<Longrightarrow>
    sys_step s (s\<lparr>sys_callers := (sys_callers s)(t \<mapsto> Checked name)\<rparr>)"
| check_regex: "sys_callers s t = None \<Longrightarrow> \<not> sys_closed s \<Longrightarrow>
    sys_step s (s\<lparr>sys_callers := (sys_callers s)(t \<mapsto> CheckedRegex name h)\<rparr>)"
| register: "sys_callers s t = Some (Checked name) \<Longrightarrow> sys_consumers s name = Some h \<Longrightarrow>
    sys_subs s name = None \<Longrightarrow> sys_step s (register_loop t name h False s)"
| register_regex: "sys_callers s t = Some (CheckedRegex name h) \<Longrightarrow> sys_subs s name = None \<Longrightarrow>
    sys_step s (register_loop t name h True
      (s\<lparr>sys_consumers := (sys_consumers s)(name \<mapsto> h)\<rparr>))"
| reject: "sys_callers s t = Some (Checked name) \<Longrightarrow>
    sys_consumers s name = None \<or> sys_subs s name \<noteq> None \<Longrightarrow>
    sys_step s (s\<lparr>sys_callers := (sys_callers s)(t := None)\<rparr>)"
| reject_regex: "sys_callers s t = Some (CheckedRegex name h) \<Longrightarrow> sys_subs s name \<noteq> None \<Longrightarrow>
    \<comment> \<open>the context made before the lock is taken is cancelled\<close>
    sys_step s (s\<lparr>sys_callers := (sys_callers s)(t := None),
      sys_cancelled := insert (sys_next s) (sys_cancelled s), sys_next := Suc (sys_next s)\<rparr>)"
| launch: "sys_callers s t = Some (RegisteredLoop i name h regex) \<Longrightarrow>
    sys_step s (s\<lparr>sys_wg := insert i (sys_wg s),
      sys_loops := (sys_loops s)(i \<mapsto>
        \<lparr>ls_name = name, ls_consumer = h, ls_regex = regex, ls_pc = Selecting\<rparr>),
      sys_callers := (sys_callers s)(t := None)\<rparr>)"
| receive: "sys_loops s i = Some l \<Longrightarrow> ls_pc l = Selecting \<Longrightarrow>
    sys_step s (set_pc i l (Holding m) s)"
| stop: "sys_loops s i = Some l \<Longrightarrow> ls_pc l = Selecting \<Longrightarrow>
    \<comment> \<open>the shutdown channel, the loop's context, the caller's context or the consumer's channel\<close>
    sys_step s (set_pc i l Leaving s)"
| drop: "sys_loops s i = Some l \<Longrightarrow> ls_pc l = Holding m \<Longrightarrow> sys_closed s \<Longrightarrow>
    sys_step s (set_pc i l Leaving s)"
| dispatch: "sys_loops s i = Some l \<Longrightarrow> ls_pc l = Holding m \<Longrightarrow> \<not> sys_closed s \<Longrightarrow>
    sys_step s (set_pc i l (Dispatching m) s)"
| answer: "sys_loops s i = Some l \<Longrightarrow> ls_pc l = Dispatching m \<Longrightarrow>
    sys_step s (set_pc i l Selecting s)"
| unregister: "sys_loops s i = Some l \<Longrightarrow> ls_pc l = Leaving \<Longrightarrow>
    sys_step s (set_pc i l Left (s\<lparr>sys_subs := (sys_subs s)(ls_name l := None),
      sys_consumers := (if ls_regex l then (sys_consumers s)(ls_name l := None)
                        else sys_consumers s)\<rparr>))"
| finish: "sys_loops s i = Some l \<Longrightarrow> ls_pc l = Left \<Longrightarrow>
    sys_step s (s\<lparr>sys_loops := (sys_loops s)(i := None), sys_wg := sys_wg s - {i},
      sys_cancelled := insert i (sys_cancelled s)\<rparr>)"
| forget: "sys_consumers s name = Some h \<Longrightarrow> \<comment> \<open>\<open>Unsubscribe\<close>\<close>
    sys_step s (s\<lparr>sys_consumers := (sys_consumers s)(name := None)\<rparr>)"
| close_chan: "sys_closer s = NotClosing \<Longrightarrow>
    sys_step s (s\<lparr>sys_chan_closed := True, sys_closer := ChanClosedPc\<rparr>)"
| set_closed: "sys_closer s = ChanClosedPc \<Longrightarrow>
    sys_step s (s\<lparr>sys_closed := True, sys_closer := Collecting\<rparr>)"
| abort: "sys_closer s = NotClosing \<Longrightarrow> sys_step s (s\<lparr>sys_closer := Collecting\<rparr>)"
| collect: "sys_closer s = Collecting \<Longrightarrow>
    sys_step s (s\<lparr>sys_subs := (\<lambda>_. None), sys_closer := Cancelling (ran (sys_subs s))\<rparr>)"
| cancel: "sys_closer s = Cancelling ids \<Longrightarrow>
    sys_step s (s\<lparr>sys_cancelled := sys_cancelled s \<union> ids, sys_closer := Waiting\<rparr>)"
| wait: "sys_closer s = Waiting \<Longrightarrow> sys_wg s = {} \<Longrightarrow> sys_step s (s\<lparr>sys_closer := Releasing\<rparr>)"
| release: "sys_closer s = Releasing \<Longrightarrow>
    sys_step s (s\<lparr>sys_consumers := (\<lambda>_. None), sys_closer := Released\<rparr>)"

definition sys_reachable :: "(string \<Rightarrow> handle option) \<Rightarrow> system \<Rightarrow> bool" where
  "sys_reachable cs s \<longleftrightarrow> sys_step\<^sup>*\<^sup>* (sys_init cs) s"

text \<open>A loop that has not yet removed its entries.\<close>

definition active :: "system \<Rightarrow> nat \<Rightarrow> loop_state \<Rightarrow> bool" where
  "active s i l \<longleftrightarrow> sys_loops s i = Some l \<and> ls_pc l \<noteq> Left"

section \<open>The wait group\<close>

text \<open>The wait group counts exactly the running loops, finitely many.\<close>

definition counted :: "system \<Rightarrow> bool" where
  "counted s \<longleftrightarrow> sys_wg s = dom (sys_loops s) \<and> finite (dom (sys_loops s))"

lemmas sys_defs = set_pc_def register_loop_def

lemma counted_step: "sys_step s t \<Longrightarrow> counted s \<Longrightarrow> counted t"
  by (induction rule: sys_step.induct) (simp_all add: counted_def sys_defs insert_absorb domI)

interpretation count: invariant sys_step counted
  by unfold_locales (rule counted_step)

lemma counted_init: "counted (sys_init cs)"
  by (simp add: counted_def sys_init_def)

section \<open>Shutdown\<close>

text \<open>Once the flag is set and the wait is over nothing is dispatched any more.\<close>

definition quiet :: "system \<Rightarrow> bool" where
  "quiet s \<longleftrightarrow> counted s \<and> (sys_closed s \<and> sys_closer s \<in> {Releasing, Released} \<longrightarrow>
     (\<forall>i l m. sys_loops s i = Some l \<longrightarrow> ls_pc l \<noteq> Dispatching m))"

lemma quiet_step:
  assumes "sys_step s t" and "quiet s"
  shows "quiet t"
proof -
  from assms have "counted t" by (auto simp: quiet_def intro: counted_step)
  moreover have "\<forall>i l m. sys_loops t i = Some l \<longrightarrow> ls_pc l \<noteq> Dispatching m"
    if "sys_closed t" "sys_closer t \<in> {Releasing, Released}"
    using assms that
  proof cases
    case (wait)
    with assms(2) have "dom (sys_loops s) = {}" by (simp add: quiet_def counted_def)
    with wait show ?thesis by simp
  qed (auto simp: quiet_def sys_defs)
  ultimately show ?thesis by (simp add: quiet_def)
qed

interpretation quiet: invariant sys_step quiet
  by unfold_locales (rule quiet_step)

text \<open>Claim C8: however subscribers, receive loops and a clean-up interleave, once the clean-up
  has passed its wait and releases the consumers (or has released them) no receive loop is
  dispatching: no handler runs and no message is acknowledged or refused on a consumer that
  the clean-up closes.\<close>

theorem no_dispatch_after_wait:
  "sys_reachable cs s \<Longrightarrow> sys_closed s \<Longrightarrow> sys_closer s \<in> {Releasing, Released} \<Longrightarrow>
     sys_loops s i = Some l \<Longrightarrow> ls_pc l \<noteq> Dispatching m"
  using quiet.steps_inv [of "sys_init cs" s] counted_init [of cs]
  by (auto simp: sys_reachable_def quiet_def sys_init_def)


section \<open>One loop per consumer\<close>

text \<open>The identity and the name of a registered loop that is not launched yet.\<close>

fun reg_id :: "caller option \<Rightarrow> nat option" where
  "reg_id (Some (RegisteredLoop i n h r)) = Some i"
| "reg_id _ = None"

fun reg_entry :: "caller option \<Rightarrow> (nat \<times> string) option" where
  "reg_entry (Some (RegisteredLoop i n h r)) = Some (i, n)"
| "reg_entry _ = None"

lemma reg_id_entry: "reg_id c = None \<Longrightarrow> reg_entry c \<noteq> Some (i, n)"
  "reg_entry c = Some (i, n) \<Longrightarrow> reg_id c = Some i"
  by (cases c rule: reg_id.cases; simp)+

text \<open>The two facts on plain functions: \<open>D\<close> the running loops, \<open>I\<close> and \<open>C\<close> the registered ones
  by caller, \<open>A\<close> the names of the active loops, \<open>S\<close> the entries.\<close>

definition fresh_fun :: "nat \<Rightarrow> nat set \<Rightarrow> ('t \<Rightarrow> nat option) \<Rightarrow> bool" where
  "fresh_fun k D I \<longleftrightarrow> (\<forall>i\<in>D. i < k) \<and> (\<forall>t i. I t = Some i \<longrightarrow> i < k \<and> i \<notin> D) \<and>
     (\<forall>t t' i. I t = Some i \<longrightarrow> I t' = Some i \<longrightarrow> t = t')"

definition own_fun :: "('n \<Rightarrow> nat option) \<Rightarrow> (nat \<Rightarrow> 'n option) \<Rightarrow> ('t \<Rightarrow> (nat \<times> 'n) option) \<Rightarrow> bool" where
  "own_fun S A C \<longleftrightarrow> (\<forall>i n. A i = Some n \<longrightarrow> S n = Some i) \<and>
     (\<forall>t i n. C t = Some (i, n) \<longrightarrow> S n = Some i)"

lemma fresh_fun_clear: "fresh_fun k D I \<Longrightarrow> fresh_fun k D (I(t := None))"
  unfolding fresh_fun_def by (auto split: if_splits)

lemma fresh_fun_register:
  assumes "fresh_fun k D I"
  shows "fresh_fun (Suc k) D (I(t \<mapsto> k))"
proof -
  from assms have "I t' \<noteq> Some k" "k \<notin> D" for t' by (auto simp: fresh_fun_def)
  with assms show ?thesis by (auto simp: fresh_fun_def less_Suc_eq split: if_splits)
qed

lemma fresh_fun_launch:
  assumes "fresh_fun k D I" and "I t = Some i"
  shows "fresh_fun k (insert i D) (I(t := None))"
proof -
  from assms have "t' = t" if "I t' = Some i" for t' using that by (auto simp: fresh_fun_def)
  with assms show ?thesis by (auto simp: fresh_fun_def split: if_splits)
qed

lemma fresh_fun_finish: "fresh_fun k D I \<Longrightarrow> fresh_fun k (D - {i}) I"
  by (auto simp: fresh_fun_def)

lemma fresh_fun_skip:
  assumes "fresh_fun k D I"
  shows "fresh_fun (Suc k) D (I(t := None))"
proof -
  from assms have "i < Suc k" if "i \<in> D \<or> I u = Some i" for i u
    using that by (auto simp: fresh_fun_def less_Suc_eq)
  with assms show ?thesis by (auto simp: fresh_fun_def split: if_splits)
qed

lemmas fresh_fun_intros = fresh_fun_clear fresh_fun_register fresh_fun_launch fresh_fun_finish
  fresh_fun_skip

lemma own_fun_clear: "own_fun S A C \<Longrightarrow> own_fun S A (C(t := None))"
  by (simp add: own_fun_def)

lemma own_fun_finish: "own_fun S A C \<Longrightarrow> own_fun S (A(i := None)) C"
  by (simp add: own_fun_def)

lemma own_fun_register:
  assumes "own_fun S A C" and "S n = None"
  shows "own_fun (S(n \<mapsto> i)) A (C(t \<mapsto> (i, n)))"
proof -
  from assms have "A j \<noteq> Some n" "C u \<noteq> Some (j, n)" for j u by (auto simp: own_fun_def)
  with assms(1) show ?thesis by (auto simp: own_fun_def)
qed

lemma own_fun_launch:
  assumes "own_fun S A C" and "C t = Some (i, n)"
  shows "own_fun S (A(i \<mapsto> n)) (C(t := None))"
  using assms by (auto simp: own_fun_def)

lemma own_fun_leave:
  assumes "own_fun S A C" and "A i = Some n" and "\<And>t m. C t \<noteq> Some (i, m)"
  shows "own_fun (S(n := None)) (A(i := None)) C"
  unfolding own_fun_def
proof (intro conjI allI impI)
  from assms(1,2) have n: "S n = Some i" by (simp add: own_fun_def)
  fix j m assume "(A(i := None)) j = Some m"
  then have "j \<noteq> i" "A j = Some m" by (auto split: if_splits)
  with assms(1) n show "(S(n := None)) m = Some j" by (auto simp: own_fun_def)
next
  from assms(1,2) have n: "S n = Some i" by (simp add: own_fun_def)
  fix t j m assume c: "C t = Some (j, m)"
  with assms(3) have "j \<noteq> i" by auto
  with assms(1) n c show "(S(n := None)) m = Some j" by (auto simp: own_fun_def)
qed

lemmas own_fun_intros = own_fun_clear own_fun_finish own_fun_register own_fun_launch

fun active_name :: "loop_state option \<Rightarrow> string option" where
  "active_name None = None"
| "active_name (Some l) = (if ls_pc l = Left then None else Some (ls_name l))"

definition fresh_ids :: "system \<Rightarrow> bool" where
  "fresh_ids s \<longleftrightarrow> fresh_fun (sys_next s) (dom (sys_loops s)) (reg_id \<circ> sys_callers s)"

text \<open>Until the entries are collected, every active loop and every registered one owns the entry
  of its name.\<close>

definition early :: "system \<Rightarrow> bool" where
  "early s \<longleftrightarrow> sys_closer s \<in> {NotClosing, ChanClosedPc, Collecting}"

lemma early_step: "sys_step s t \<Longrightarrow> early t \<Longrightarrow> early s"
  by (induction rule: sys_step.induct) (simp_all add: early_def sys_defs)

definition owns_entry :: "system \<Rightarrow> bool" where
  "owns_entry s \<longleftrightarrow> fresh_ids s \<and>
     (early s \<longrightarrow>
        own_fun (sys_subs s) (active_name \<circ> sys_loops s) (reg_entry \<circ> sys_callers s))"

lemma fresh_ids_step: "sys_step s t \<Longrightarrow> fresh_ids s \<Longrightarrow> fresh_ids t"
  by (induction rule: sys_step.induct)
    (simp_all add: fresh_ids_def sys_defs fun_upd_comp insert_absorb domI fresh_fun_intros)

lemma own_fun_keep: "own_fun S A C \<Longrightarrow> A i = Some n \<Longrightarrow> own_fun S (A(i \<mapsto> n)) C"
  by (simp add: fun_upd_idem)

lemma not_registered_running:
  assumes "fresh_ids s" and "sys_loops s i = Some l"
  shows "reg_entry (sys_callers s t) \<noteq> Some (i, n)"
proof
  assume "reg_entry (sys_callers s t) = Some (i, n)"
  then have "reg_id (sys_callers s t) = Some i" by (rule reg_id_entry)
  with assms show False by (auto simp: fresh_ids_def fresh_fun_def)
qed

lemma owns_entry_step:
  assumes "sys_step s t" and "owns_entry s"
  shows "owns_entry t"
proof -
  from assms have f: "fresh_ids s" "fresh_ids t"
    by (auto simp: owns_entry_def intro: fresh_ids_step)
  have "own_fun (sys_subs t) (active_name \<circ> sys_loops t) (reg_entry \<circ> sys_callers t)"
    if "early t"
  proof -
    from early_step [OF assms(1) that] assms(2)
    have own: "own_fun (sys_subs s) (active_name \<circ> sys_loops s) (reg_entry \<circ> sys_callers s)"
      by (simp add: owns_entry_def)
    from assms(1) that own show ?thesis
    proof cases
      case (unregister i l)
      have "own_fun ((sys_subs s)(ls_name l := None)) ((active_name \<circ> sys_loops s)(i := None))
          (reg_entry \<circ> sys_callers s)"
        using unregister not_registered_running [OF f(1)] by (intro own_fun_leave [OF own]) auto
      with unregister show ?thesis by (simp add: sys_defs fun_upd_comp)
    qed (simp_all add: early_def sys_defs fun_upd_comp own_fun_intros own_fun_keep)
  qed
  with f(2) show ?thesis by (simp add: owns_entry_def)
qed

interpretation entries: invariant sys_step owns_entry
  by unfold_locales (rule owns_entry_step)

lemma owns_entry_init: "owns_entry (sys_init cs)"
  by (simp add: owns_entry_def fresh_ids_def fresh_fun_def own_fun_def sys_init_def)

text \<open>Claim C13: however subscribers and receive loops interleave, as long as no shutdown has
  collected the subscriptions, two receive loops that can still take or answer a message never
  have the same name: the messages of a consumer are never split between two loops.\<close>

theorem one_loop_per_name:
  assumes "sys_reachable cs s" and "sys_closer s \<in> {NotClosing, ChanClosedPc, Collecting}"
    and "active s i l" and "active s j l'" and "ls_name l = ls_name l'"
  shows "i = j"
proof -
  have "owns_entry s"
    using assms(1) entries.steps_inv owns_entry_init by (auto simp: sys_reachable_def)
  with assms(2) have own: "own_fun (sys_subs s) (active_name \<circ> sys_loops s) (reg_entry \<circ> sys_callers s)"
    by (simp add: owns_entry_def early_def)
  from assms(3,4) have "active_name (sys_loops s i) = Some (ls_name l)"
    "active_name (sys_loops s j) = Some (ls_name l')" by (auto simp: active_def)
  with own have "sys_subs s (ls_name l) = Some i" "sys_subs s (ls_name l') = Some j"
    by (simp_all add: own_fun_def)
  with assms(5) show ?thesis by simp
qed

section \<open>A shutdown can finish\<close>

lemma drain_step:
  assumes "sys_step\<^sup>*\<^sup>* s t" and "sys_step t u"
  shows "sys_step\<^sup>*\<^sup>* s u"
  using assms by (rule rtranclp.rtrancl_into_rtrancl)

text \<open>A single loop, wherever it is, can return and be counted down, without the other loops and
  without the goroutine that shuts down.\<close>

definition drained :: "nat \<Rightarrow> system \<Rightarrow> system \<Rightarrow> bool" where
  "drained i s t \<longleftrightarrow> sys_step\<^sup>*\<^sup>* s t \<and> sys_closer t = sys_closer s \<and> sys_wg t = sys_wg s - {i}"

lemma drained_first: "sys_step s u \<Longrightarrow> sys_closer u = sys_closer s \<Longrightarrow> sys_wg u = sys_wg s \<Longrightarrow>
    drained i u t \<Longrightarrow> drained i s t"
  by (simp add: drained_def converse_rtranclp_into_rtranclp)

lemma drain_Left:
  assumes "sys_loops s i = Some l" and "ls_pc l = Left"
  shows "\<exists>t. drained i s t"
proof -
  let ?t = "s\<lparr>sys_loops := (sys_loops s)(i := None), sys_wg := sys_wg s - {i},
      sys_cancelled := insert i (sys_cancelled s)\<rparr>"
  from finish [OF assms] have "sys_step s ?t" .
  then show ?thesis by (intro exI [of _ ?t]) (simp add: drained_def r_into_rtranclp)
qed

lemma drain_Leaving:
  assumes "sys_loops s i = Some l" and "ls_pc l = Leaving"
  shows "\<exists>t. drained i s t"
proof -
  note st = unregister [OF assms]
  obtain t where "drained i (set_pc i l Left (s\<lparr>sys_subs := (sys_subs s)(ls_name l := None),
      sys_consumers := (if ls_regex l then (sys_consumers s)(ls_name l := None)
                        else sys_consumers s)\<rparr>)) t"
    using drain_Left by (fastforce simp: set_pc_def)
  from drained_first [OF st _ _ this] show ?thesis by (auto simp: set_pc_def)
qed

lemma drain_Selecting:
  assumes "sys_loops s i = Some l" and "ls_pc l = Selecting"
  shows "\<exists>t. drained i s t"
proof -
  obtain t where "drained i (set_pc i l Leaving s) t"
    using drain_Leaving by (fastforce simp: set_pc_def)
  from drained_first [OF stop [OF assms] _ _ this] show ?thesis by (auto simp: set_pc_def)
qed

lemma drain_Dispatching:
  assumes "sys_loops s i = Some l" and "ls_pc l = Dispatching m"
  shows "\<exists>t. drained i s t"
proof -
  obtain t where "drained i (set_pc i l Selecting s) t"
    using drain_Selecting by (fastforce simp: set_pc_def)
  from drained_first [OF answer [OF assms] _ _ this] show ?thesis by (auto simp: set_pc_def)
qed

lemma drain_Holding:
  assumes "sys_loops s i = Some l" and "ls_pc l = Holding m"
  shows "\<exists>t. drained i s t"
proof (cases "sys_closed s")
  case True
  obtain t where "drained i (set_pc i l Leaving s) t"
    using drain_Leaving by (fastforce simp: set_pc_def)
  from drained_first [OF drop [OF assms True] _ _ this] show ?thesis by (auto simp: set_pc_def)
next
  case False
  obtain t where "drained i (set_pc i l (Dispatching m) s) t"
    using drain_Dispatching by (fastforce simp: set_pc_def)
  from drained_first [OF dispatch [OF assms False] _ _ this] show ?thesis by (auto simp: set_pc_def)
qed

lemma drain_one: "sys_loops s i = Some l \<Longrightarrow> \<exists>t. drained i s t"
  by (cases "ls_pc l")
    (auto intro: drain_Selecting drain_Holding drain_Dispatching drain_Leaving drain_Left)

lemma drain_all:
  assumes "counted s"
  shows "\<exists>t. sys_step\<^sup>*\<^sup>* s t \<and> sys_closer t = sys_closer s \<and> sys_wg t = {}"
  using assms
proof (induction "card (sys_wg s)" arbitrary: s)
  case 0
  then have "sys_wg s = {}" by (simp add: counted_def)
  then show ?case by blast
next
  case (Suc k)
  then obtain i l where i: "i \<in> sys_wg s" "sys_loops s i = Some l"
    by (metis card.empty counted_def domD equals0I nat.distinct(1))
  from drain_one [OF i(2)] obtain u where u: "sys_step\<^sup>*\<^sup>* s u" "sys_closer u = sys_closer s"
    "sys_wg u = sys_wg s - {i}" by (auto simp: drained_def)
  have "counted u" using count.steps_inv [OF u(1) Suc.prems] .
  moreover have "k = card (sys_wg u)"
    using Suc.hyps(2) Suc.prems i(1) by (simp add: u(3) counted_def)
  ultimately obtain t where "sys_step\<^sup>*\<^sup>* u t" "sys_closer t = sys_closer u" "sys_wg t = {}"
    using Suc.hyps(1) by blast
  with u show ?case by (metis rtranclp_trans)
qed

text \<open>A shutdown never deadlocks: from every reachable state in which it waits for the
  receive loops there is a continuation in which each of them returns, the wait ends and the
  consumers are released, whatever each loop was doing.\<close>

theorem shutdown_can_finish:
  assumes "sys_reachable cs s" and "sys_closer s = Waiting"
  shows "\<exists>t. sys_step\<^sup>*\<^sup>* s t \<and> sys_closer t = Released"
proof -
  have "counted s"
    using assms(1) count.steps_inv counted_init by (auto simp: sys_reachable_def)
  from drain_all [OF this] assms(2) obtain t where t: "sys_step\<^sup>*\<^sup>* s t" "sys_closer t = Waiting"
    "sys_wg t = {}" by auto
  let ?u = "t\<lparr>sys_closer := Releasing\<rparr>"
  from drain_step [OF t(1) wait [OF t(2,3)]] have "sys_step\<^sup>*\<^sup>* s ?u" .
  from drain_step [OF this release [of ?u]] show ?thesis by auto
qed

section \<open>What a shutdown does not exclude\<close>

text \<open>A path is a list of states, each a step after the one before.\<close>

fun sys_path :: "system \<Rightarrow> system list \<Rightarrow> bool" where
  "sys_path s [] = True"
| "sys_path s (t # ts) = (sys_step s t \<and> sys_path t ts)"

lemma sys_path_steps: "sys_path s ts \<Longrightarrow> sys_step\<^sup>*\<^sup>* s (last (s # ts))"
proof (induction ts arbitrary: s)
  case (Cons t ts)
  then have "sys_step\<^sup>*\<^sup>* t (last (t # ts))" "sys_step s t" by auto
  then show ?case by (simp add: converse_rtranclp_into_rtranclp)
qed simp

definition one_consumer :: "string \<Rightarrow> handle option" where
  "one_consumer = [''in'' \<mapsto> 4]"

definition in_loop :: "loop_pc \<Rightarrow> loop_state" where
  "in_loop pc = \<lparr>ls_name = ''in'', ls_consumer = 4, ls_regex = False, ls_pc = pc\<rparr>"

text \<open>A state of the runs below, by the fields that change in them.\<close>

definition run_state :: "bool \<Rightarrow> (string \<Rightarrow> nat option) \<Rightarrow> nat set \<Rightarrow> (nat \<Rightarrow> caller option) \<Rightarrow>
    (nat \<Rightarrow> loop_state option) \<Rightarrow> nat \<Rightarrow> closer_pc \<Rightarrow> system" where
  "run_state flag subs wg callers running n pc =
     \<lparr>sys_closed = flag, sys_chan_closed = (flag \<or> pc = ChanClosedPc),
      sys_consumers = (if pc = Released then (\<lambda>_. None) else one_consumer), sys_subs = subs,
      sys_cancelled = (if pc \<in> {Waiting, Releasing, Released} then {0} else {}),
      sys_wg = wg, sys_callers = callers, sys_loops = running, sys_next = n, sys_closer = pc\<rparr>"

lemma step_to: "sys_step s t' \<Longrightarrow> t' = t \<Longrightarrow> sys_step s t"
  by simp

lemmas run_defs = run_state_def sys_init_def sys_defs in_loop_def one_consumer_def fun_eq_iff

abbreviation (input) first_loop :: caller where
  "first_loop \<equiv> RegisteredLoop 0 ''in'' 4 False"

abbreviation (input) second_loop :: caller where
  "second_loop \<equiv> RegisteredLoop 1 ''in'' 4 False"

text \<open>Two callers pass their first check; the loop of one of them is in its handler when a
  clean-up collects the entries; the other caller then finds no entry and starts a second loop
  on the same consumer.\<close>

definition double_drain_run :: "system list" where
  "double_drain_run =
     [run_state False Map.empty {} [1 \<mapsto> Checked ''in''] Map.empty 0 NotClosing,
      run_state False Map.empty {} [0 \<mapsto> Checked ''in'', 1 \<mapsto> Checked ''in''] Map.empty 0 NotClosing,
      run_state False [''in'' \<mapsto> 0] {} [0 \<mapsto> first_loop, 1 \<mapsto> Checked ''in''] Map.empty 1 NotClosing,
      run_state False [''in'' \<mapsto> 0] {0} [1 \<mapsto> Checked ''in''] [0 \<mapsto> in_loop Selecting] 1 NotClosing,
      run_state False [''in'' \<mapsto> 0] {0} [1 \<mapsto> Checked ''in''] [0 \<mapsto> in_loop (Holding 5)] 1 NotClosing,
      run_state False [''in'' \<mapsto> 0] {0} [1 \<mapsto> Checked ''in''] [0 \<mapsto> in_loop (Dispatching 5)] 1 NotClosing,
      run_state False [''in'' \<mapsto> 0] {0} [1 \<mapsto> Checked ''in''] [0 \<mapsto> in_loop (Dispatching 5)] 1 ChanClosedPc,
      run_state True [''in'' \<mapsto> 0] {0} [1 \<mapsto> Checked ''in''] [0 \<mapsto> in_loop (Dispatching 5)] 1 Collecting,
      run_state True Map.empty {0} [1 \<mapsto> Checked ''in''] [0 \<mapsto> in_loop (Dispatching 5)] 1 (Cancelling {0}),
      run_state True [''in'' \<mapsto> 1] {0} [1 \<mapsto> second_loop] [0 \<mapsto> in_loop (Dispatching 5)] 2 (Cancelling {0}),
      run_state True [''in'' \<mapsto> 1] {1, 0} Map.empty
        [0 \<mapsto> in_loop (Dispatching 5), 1 \<mapsto> in_loop Selecting] 2 (Cancelling {0})]"

lemma double_drain_path: "sys_path (sys_init one_consumer) double_drain_run"
  unfolding double_drain_run_def sys_path.simps
  apply (intro conjI TrueI)
            apply (rule step_to [OF check [where t = 1]]; simp add: run_defs)
           apply (rule step_to [OF check [where t = 0]]; simp add: run_defs)
          apply (rule step_to [OF register [where t = 0 and name = "''in''" and h = 4]]; simp add: run_defs)
         apply (rule step_to [OF launch [where t = 0 and i = 0 and name = "''in''" and h = 4 and regex = False]];
            simp add: run_defs)
        apply (rule step_to [OF receive [where i = 0 and l = "in_loop Selecting" and m = 5]]; simp add: run_defs)
       apply (rule step_to [OF dispatch [where i = 0 and l = "in_loop (Holding 5)" and m = 5]]; simp add: run_defs)
      apply (rule step_to [OF close_chan]; simp add: run_defs)
     apply (rule step_to [OF set_closed]; simp add: run_defs)
    apply (rule step_to [OF collect]; simp add: run_defs)
   apply (rule step_to [OF register [where t = 1 and name = "''in''" and h = 4]]; simp add: run_defs)
  apply (rule step_to [OF launch [where t = 1 and i = 1 and name = "''in''" and h = 4 and regex = False]];
      simp add: run_defs)
  done

lemma sys_path_reachable: "sys_reachable cs s \<Longrightarrow> sys_path s ts \<Longrightarrow> sys_reachable cs (last (s # ts))"
  unfolding sys_reachable_def by (rule rtranclp_trans [OF _ sys_path_steps])

lemma reach_one: "sys_reachable cs s \<Longrightarrow> sys_step s t \<Longrightarrow> sys_reachable cs t"
  unfolding sys_reachable_def by (rule rtranclp.rtrancl_into_rtrancl)

lemma sys_reachable_init: "sys_reachable cs (sys_init cs)"
  by (simp add: sys_reachable_def)

lemma double_drain:
  "\<exists>s. sys_reachable one_consumer s \<and> sys_closed s \<and>
     active s 0 (in_loop (Dispatching 5)) \<and> active s 1 (in_loop Selecting)"
  using sys_path_reachable [OF sys_reachable_init double_drain_path]
  by (intro exI) (auto simp: double_drain_run_def run_state_def active_def in_loop_def)

text \<open>A caller that registered its loop and is then overtaken by the whole shutdown, which finds
  nothing to wait for.\<close>

abbreviation (input) overtaken :: "bool \<Rightarrow> closer_pc \<Rightarrow> system" where
  "overtaken flag pc \<equiv> run_state flag Map.empty {} [0 \<mapsto> first_loop] Map.empty 1 pc"

lemma registered_path:
  "sys_path (sys_init one_consumer)
     [run_state False Map.empty {} [0 \<mapsto> Checked ''in''] Map.empty 0 NotClosing,
      run_state False [''in'' \<mapsto> 0] {} [0 \<mapsto> first_loop] Map.empty 1 NotClosing]"
  unfolding sys_path.simps
  apply (intro conjI TrueI)
   apply (rule step_to [OF check [where t = 0]]; simp add: run_defs)
  apply (rule step_to [OF register [where t = 0 and name = "''in''" and h = 4]]; simp add: run_defs)
  done

lemma registered_reachable:
  "sys_reachable one_consumer (run_state False [''in'' \<mapsto> 0] {} [0 \<mapsto> first_loop] Map.empty 1 NotClosing)"
  using sys_path_reachable [OF sys_reachable_init registered_path] by simp

lemma shutdown_path:
  "sys_path (run_state flag [''in'' \<mapsto> 0] {} [0 \<mapsto> first_loop] Map.empty 1 Collecting)
     [overtaken flag (Cancelling {0}), overtaken flag Waiting, overtaken flag Releasing,
      overtaken flag Released]"
  unfolding sys_path.simps
  apply (intro conjI TrueI)
     apply (rule step_to [OF collect]; simp add: run_defs)
    apply (rule step_to [OF cancel]; simp add: run_defs)
   apply (rule step_to [OF wait]; simp add: run_defs)
  apply (rule step_to [OF release]; simp add: run_defs)
  done

lemma launch_overtaken:
  "sys_step (overtaken flag Released)
     (run_state flag Map.empty {0} Map.empty [0 \<mapsto> in_loop Selecting] 1 Released)"
  by (rule step_to [OF launch [where t = 0 and i = 0 and name = "''in''" and h = 4 and regex = False]];
      simp add: run_defs)

lemma late_loop:
  "\<exists>s. sys_reachable one_consumer s \<and> sys_closed s \<and> sys_closer s = Released \<and>
     active s 0 (in_loop Selecting)"
proof -
  let ?r = "\<lambda>flag pc. run_state flag [''in'' \<mapsto> 0] {} [0 \<mapsto> first_loop] Map.empty 1 pc"
  have "sys_step (?r False NotClosing) (?r False ChanClosedPc)"
    by (rule step_to [OF close_chan]; simp add: run_defs)
  moreover have "sys_step (?r False ChanClosedPc) (?r True Collecting)"
    by (rule step_to [OF set_closed]; simp add: run_defs)
  ultimately have "sys_path (?r False NotClosing) [?r False ChanClosedPc, ?r True Collecting]"
    by simp
  from sys_path_reachable [OF registered_reachable this]
  have "sys_reachable one_consumer (?r True Collecting)" by simp
  from sys_path_reachable [OF this shutdown_path] launch_overtaken [of True]
  have "sys_reachable one_consumer (run_state True Map.empty {0} Map.empty [0 \<mapsto> in_loop Selecting] 1 Released)"
    by (auto simp: sys_reachable_def)
  then show ?thesis by (intro exI) (auto simp: run_state_def active_def in_loop_def)
qed

lemma aborted_dispatch:
  "\<exists>s. sys_reachable one_consumer s \<and> sys_closer s = Released \<and>
     active s 0 (in_loop (Dispatching 5))"
proof -
  let ?r = "\<lambda>pc. run_state False [''in'' \<mapsto> 0] {} [0 \<mapsto> first_loop] Map.empty 1 pc"
  let ?l = "\<lambda>pc. run_state False Map.empty {0} Map.empty [0 \<mapsto> in_loop pc] 1 Released"
  have "sys_step (?r NotClosing) (?r Collecting)"
    by (rule step_to [OF abort]; simp add: run_defs)
  with registered_reachable
  have "sys_reachable one_consumer (?r Collecting)" by (auto simp: sys_reachable_def)
  from sys_path_reachable [OF this shutdown_path] launch_overtaken [of False]
  have l: "sys_reachable one_consumer (?l Selecting)" by (auto simp: sys_reachable_def)
  have "sys_step (?l Selecting) (?l (Holding 5))"
    by (rule step_to [OF receive [where i = 0 and l = "in_loop Selecting" and m = 5]]; simp add: run_defs)
  moreover have "sys_step (?l (Holding 5)) (?l (Dispatching 5))"
    by (rule step_to [OF dispatch [where i = 0 and l = "in_loop (Holding 5)" and m = 5]]; simp add: run_defs)
  ultimately have "sys_path (?l Selecting) [?l (Holding 5), ?l (Dispatching 5)]" by simp
  from sys_path_reachable [OF l this]
  have "sys_reachable one_consumer (?l (Dispatching 5))" by simp
  then show ?thesis by (intro exI) (auto simp: run_state_def active_def in_loop_def)
qed

text \<open>Claim C30: three interleavings that the locks allow, each reachable with one consumer and one
  or two subscribers: during a clean-up two receive loops drain the same consumer, because the
  check of the closed flag and the registration are separate critical sections; after a
  clean-up has released the consumers a receive loop still starts, because the wait group is
  incremented after the registration; and after the shutdown of a failed start-up, which does
  not set the closed flag, a loop dispatches a message of a released consumer.\<close>

theorem shutdown_races:
  "(\<exists>s i j l l'. sys_reachable one_consumer s \<and> sys_closed s \<and> i \<noteq> j \<and> active s i l \<and>
      active s j l' \<and> ls_consumer l = ls_consumer l') \<and>
   (\<exists>s i l. sys_reachable one_consumer s \<and> sys_closed s \<and> sys_closer s = Released \<and> active s i l) \<and>
   (\<exists>s i l m. sys_reachable one_consumer s \<and> sys_closer s = Released \<and> active s i l \<and>
      ls_pc l = Dispatching m)"
proof (intro conjI)
  have c: "ls_consumer (in_loop pc) = 4" "ls_pc (in_loop pc) = pc" for pc by (simp_all add: in_loop_def)
  show "\<exists>s i j l l'. sys_reachable one_consumer s \<and> sys_closed s \<and> i \<noteq> j \<and> active s i l \<and>
      active s j l' \<and> ls_consumer l = ls_consumer l'"
    using double_drain c by (metis zero_neq_one)
  show "\<exists>s i l. sys_reachable one_consumer s \<and> sys_closed s \<and> sys_closer s = Released \<and> active s i l"
    using late_loop by blast
  show "\<exists>s i l m. sys_reachable one_consumer s \<and> sys_closer s = Released \<and> active s i l \<and>
      ls_pc l = Dispatching m"
    using aborted_dispatch c by metis
qed

section \<open>The guarantees on these runs\<close>

theorem no_dispatch_after_wait_witness:
  "\<exists>s. sys_reachable one_consumer s \<and> sys_closer s = Released \<and>
     sys_loops s 0 = Some (in_loop Selecting) \<and> ls_pc (in_loop Selecting) \<noteq> Dispatching 5"
proof -
  from late_loop obtain s where s: "sys_reachable one_consumer s" "sys_closed s"
    "sys_closer s = Released" "sys_loops s 0 = Some (in_loop Selecting)" by (auto simp: active_def)
  have "sys_closer s \<in> {Releasing, Released}" using s(3) by simp
  from no_dispatch_after_wait [OF s(1,2) this s(4)] s show ?thesis by blast
qed

lemma one_loop_reachable:
  "sys_reachable one_consumer
     (run_state False [''in'' \<mapsto> 0] {0} Map.empty [0 \<mapsto> in_loop Selecting] 1 NotClosing)"
proof (rule reach_one)
  show "sys_step (run_state False [''in'' \<mapsto> 0] {} [0 \<mapsto> first_loop] Map.empty 1 NotClosing)
      (run_state False [''in'' \<mapsto> 0] {0} Map.empty [0 \<mapsto> in_loop Selecting] 1 NotClosing)"
    by (rule step_to [OF launch [where t = 0 and i = 0 and name = "''in''" and h = 4 and regex = False]];
        simp add: run_defs)
qed (rule registered_reachable)

theorem one_loop_per_name_witness:
  "\<exists>s. sys_reachable one_consumer s \<and> active s 0 (in_loop Selecting) \<and>
     \<not> active s 1 (in_loop (Holding 5))"
proof -
  let ?s = "run_state False [''in'' \<mapsto> 0] {0} Map.empty [0 \<mapsto> in_loop Selecting] 1 NotClosing"
  have early: "sys_closer ?s \<in> {NotClosing, ChanClosedPc, Collecting}" by (simp add: run_state_def)
  have act: "active ?s 0 (in_loop Selecting)" by (simp add: active_def run_state_def in_loop_def)
  have "\<not> active ?s 1 (in_loop (Holding 5))"
  proof
    assume "active ?s 1 (in_loop (Holding 5))"
    from one_loop_per_name [OF one_loop_reachable early act this] show False
      by (simp add: in_loop_def)
  qed
  with one_loop_reachable act show ?thesis by blast
qed

theorem shutdown_can_finish_witness:
  "\<exists>s t. sys_reachable one_consumer s \<and> sys_loops s 0 = Some (in_loop (Dispatching 5)) \<and>
     sys_closer s = Waiting \<and> sys_step\<^sup>*\<^sup>* s t \<and> sys_closer t = Released"
proof -
  let ?s = "\<lambda>pc. run_state True [''in'' \<mapsto> 1] {1, 0} Map.empty
      [0 \<mapsto> in_loop (Dispatching 5), 1 \<mapsto> in_loop Selecting] 2 pc"
  have "sys_reachable one_consumer (?s (Cancelling {0}))"
    using sys_path_reachable [OF sys_reachable_init double_drain_path]
    by (simp add: double_drain_run_def)
  moreover have "sys_step (?s (Cancelling {0})) (?s Waiting)"
    by (rule step_to [OF cancel]; simp add: run_defs)
  ultimately have r: "sys_reachable one_consumer (?s Waiting)" by (rule reach_one)
  have w: "sys_closer (?s Waiting) = Waiting" by (simp add: run_state_def)
  have "sys_loops (?s Waiting) 0 = Some (in_loop (Dispatching 5))" by (simp add: run_state_def)
  with shutdown_can_finish [OF r w] r w show ?thesis by blast
qed

end
