(* ===== verification/LoopRefinement.thy ===== *)
theory LoopRefinement
  imports Ledger ReceiveLoops
begin

text \<open>
  The two models of receiving agree: every operation of theories \<open>Consuming\<close> and \<open>Lifecycle\<close>, which
  run without interruption, is a path of the interleaved system of theory \<open>ReceiveLoops\<close>. The
  relation \<open>shows_as\<close> relates a plugin between two operations to a state of the system in which
  every loop waits in its \<open>select\<close> and no caller is under way; the simulation then says that
  whatever a run of operations does is one of the behaviours that the system allows, so its
  invariants hold of the plugin too.
\<close>

section \<open>The relation\<close>

definition loop_entry :: "recv_loop \<Rightarrow> loop_state" where
  "loop_entry l = \<lparr>ls_name = loop_name l, ls_consumer = the (loop_consumer l),
     ls_regex = loop_regex l, ls_pc = Selecting\<rparr>"

definition loop_table :: "recv_loop list \<Rightarrow> nat \<Rightarrow> loop_state option" where
  "loop_table ls = map_of (map (\<lambda>l. (loop_id l, loop_entry l)) ls)"

definition shows_as :: "PulsarClient \<Rightarrow> system \<Rightarrow> bool" where
  "shows_as p s \<longleftrightarrow>
     sys_closed s = closed p \<and> sys_chan_closed s = closeChan_closed p \<and>
     sys_consumers s = (\<lambda>n. GetConsumer n p) \<and> sys_subs s = go_get (subscriptions p) \<and>
     sys_wg s = loop_id ` set (loops p) \<and> sys_callers s = Map.empty \<and>
     sys_loops s = loop_table (loops p) \<and> sys_next s = next_loop p \<and>
     sys_closer s = (if closed p then Released else NotClosing)"

text \<open>Between operations every loop has a consumer, and a closed plugin has nothing left.\<close>

definition settled :: "PulsarClient \<Rightarrow> bool" where
  "settled p \<longleftrightarrow> (\<forall>l\<in>set (loops p). loop_consumer l \<noteq> None) \<and>
     (closed p \<longrightarrow> closeChan_closed p \<and> consumers p = [] \<and> subscriptions p = [] \<and> loops p = [])"

lemma loop_table_simps [simp]:
  "loop_table [] = Map.empty"
  "loop_table (l # ls) = (loop_table ls)(loop_id l \<mapsto> loop_entry l)"
  by (simp_all add: loop_table_def)

lemma loop_table_append:
  "loop_id l \<notin> loop_id ` set ls \<Longrightarrow> loop_table (ls @ [l]) = (loop_table ls)(loop_id l \<mapsto> loop_entry l)"
  by (induction ls) (auto simp: fun_upd_twist)

lemma loop_table_none: "i \<notin> loop_id ` set ls \<Longrightarrow> loop_table ls i = None"
  by (induction ls) auto

lemma loop_table_remove:
  "distinct (map loop_id ls) \<Longrightarrow> l \<in> set ls \<Longrightarrow>
     loop_table (remove1 l ls) = (loop_table ls)(loop_id l := None)"
proof (induction ls)
  case (Cons k ls)
  show ?case
  proof (cases "k = l")
    case True
    with Cons.prems(1) have "loop_table ls (loop_id l) = None" by (intro loop_table_none) simp
    with True show ?thesis by (auto simp: fun_eq_iff)
  next
    case False
    with Cons show ?thesis by (force simp: fun_upd_twist)
  qed
qed simp

lemma loop_table_at:
  "distinct (map loop_id ls) \<Longrightarrow> l \<in> set ls \<Longrightarrow> loop_table ls (loop_id l) = Some (loop_entry l)"
  unfolding loop_table_def by (rule map_of_is_SomeI) (simp_all add: o_def)

section \<open>Paths\<close>

lemma steps_first: "sys_step s t \<Longrightarrow> sys_step\<^sup>*\<^sup>* t u \<Longrightarrow> sys_step\<^sup>*\<^sup>* s u"
  by (rule converse_rtranclp_into_rtranclp)

text \<open>A loop in its \<open>select\<close> that returns, and its deferred calls.\<close>

definition without_loop :: "nat \<Rightarrow> loop_state \<Rightarrow> system \<Rightarrow> system" where
  "without_loop i l s = s\<lparr>sys_subs := (sys_subs s)(ls_name l := None),
     sys_consumers := (if ls_regex l then (sys_consumers s)(ls_name l := None) else sys_consumers s),
     sys_loops := (sys_loops s)(i := None), sys_wg := sys_wg s - {i},
     sys_cancelled := insert i (sys_cancelled s)\<rparr>"

lemma leave_path:
  assumes "sys_loops s i = Some l" and "ls_pc l = Selecting"
  shows "sys_step\<^sup>*\<^sup>* s (without_loop i l s)"
proof -
  let ?s1 = "set_pc i l Leaving s"
  let ?l1 = "l\<lparr>ls_pc := Leaving\<rparr>"
  let ?s2 = "set_pc i ?l1 Left (?s1\<lparr>sys_subs := (sys_subs ?s1)(ls_name ?l1 := None),
      sys_consumers := (if ls_regex ?l1 then (sys_consumers ?s1)(ls_name ?l1 := None)
                        else sys_consumers ?s1)\<rparr>)"
  let ?l2 = "?l1\<lparr>ls_pc := Left\<rparr>"
  have "sys_step s ?s1" by (rule stop [OF assms])
  moreover have "sys_step ?s1 ?s2" by (rule unregister) (simp_all add: set_pc_def)
  moreover have "sys_step ?s2 (without_loop i l s)"
    by (rule step_to [OF finish [where i = i and l = ?l2]])
      (simp_all add: set_pc_def without_loop_def)
  ultimately show ?thesis by (meson r_into_rtranclp rtranclp_trans)
qed

lemma dispatch_path:
  assumes "sys_loops s i = Some l" and "ls_pc l = Selecting" and "\<not> sys_closed s"
  shows "\<exists>s1 s2. sys_step s s1 \<and> sys_step s1 s2 \<and> sys_step s2 s \<and>
      sys_loops s2 i = Some (l\<lparr>ls_pc := Dispatching m\<rparr>)"
proof -
  let ?s1 = "set_pc i l (Holding m) s"
  let ?l1 = "l\<lparr>ls_pc := Holding m\<rparr>"
  let ?s2 = "set_pc i ?l1 (Dispatching m) ?s1"
  let ?l2 = "?l1\<lparr>ls_pc := Dispatching m\<rparr>"
  have "sys_step s ?s1" by (rule receive [OF assms(1,2)])
  moreover have "sys_step ?s1 ?s2" by (rule dispatch) (simp_all add: set_pc_def assms(3))
  moreover have "sys_step ?s2 s"
    by (rule step_to [OF answer [where i = i and l = ?l2 and m = m]])
      (use assms(1,2) in \<open>simp_all add: set_pc_def fun_upd_idem\<close>)
  moreover have "sys_loops ?s2 i = Some (l\<lparr>ls_pc := Dispatching m\<rparr>)" by (simp add: set_pc_def)
  ultimately show "\<exists>s1 s2. sys_step s s1 \<and> sys_step s1 s2 \<and> sys_step s2 s \<and>
      sys_loops s2 i = Some (l\<lparr>ls_pc := Dispatching m\<rparr>)" by blast
qed

text \<open>An accepted subscription, from the check to the launch of its loop.\<close>

definition with_loop :: "string \<Rightarrow> handle \<Rightarrow> bool \<Rightarrow> system \<Rightarrow> system" where
  "with_loop name h regex s = s\<lparr>sys_subs := (sys_subs s)(name \<mapsto> sys_next s),
     sys_consumers := (if regex then (sys_consumers s)(name \<mapsto> h) else sys_consumers s),
     sys_wg := insert (sys_next s) (sys_wg s),
     sys_loops := (sys_loops s)(sys_next s \<mapsto>
       \<lparr>ls_name = name, ls_consumer = h, ls_regex = regex, ls_pc = Selecting\<rparr>),
     sys_next := Suc (sys_next s)\<rparr>"

lemma subscribe_path:
  assumes "sys_callers s = Map.empty" and "\<not> sys_closed s" and "sys_consumers s name = Some h"
    and "sys_subs s name = None"
  shows "sys_step\<^sup>*\<^sup>* s (with_loop name h False s)"
proof -
  let ?s1 = "s\<lparr>sys_callers := (sys_callers s)(0 \<mapsto> Checked name)\<rparr>"
  let ?s2 = "register_loop 0 name h False ?s1"
  have "sys_step s ?s1" by (rule check) (use assms(1,2) in simp_all)
  moreover have "sys_step ?s1 ?s2" by (rule register) (use assms(3,4) in simp_all)
  moreover have "sys_step ?s2 (with_loop name h False s)"
    by (rule step_to [OF launch [where t = 0 and i = "sys_next s" and name = name and h = h and
          regex = False]])
      (simp_all add: register_loop_def with_loop_def assms(1))
  ultimately show ?thesis by (meson r_into_rtranclp rtranclp_trans)
qed

lemma subscribe_regex_path:
  assumes "sys_callers s = Map.empty" and "\<not> sys_closed s" and "sys_subs s name = None"
  shows "sys_step\<^sup>*\<^sup>* s (with_loop name h True s)"
proof -
  let ?s1 = "s\<lparr>sys_callers := (sys_callers s)(0 \<mapsto> CheckedRegex name h)\<rparr>"
  let ?s2 = "register_loop 0 name h True (?s1\<lparr>sys_consumers := (sys_consumers ?s1)(name \<mapsto> h)\<rparr>)"
  have "sys_step s ?s1" by (rule check_regex) (use assms(1,2) in simp_all)
  moreover have "sys_step ?s1 ?s2" by (rule register_regex) (use assms(3) in simp_all)
  moreover have "sys_step ?s2 (with_loop name h True s)"
    by (rule step_to [OF launch [where t = 0 and i = "sys_next s" and name = name and h = h and
          regex = True]])
      (simp_all add: register_loop_def with_loop_def assms(1))
  ultimately show ?thesis by (meson r_into_rtranclp rtranclp_trans)
qed

lemma duplicate_regex_path:
  assumes "sys_callers s = Map.empty" and "\<not> sys_closed s" and "sys_subs s name \<noteq> None"
  shows "sys_step\<^sup>*\<^sup>* s (s\<lparr>sys_cancelled := insert (sys_next s) (sys_cancelled s),
    sys_next := Suc (sys_next s)\<rparr>)"
proof -
  let ?s1 = "s\<lparr>sys_callers := (sys_callers s)(0 \<mapsto> CheckedRegex name 0)\<rparr>"
  have "sys_step s ?s1" by (rule check_regex) (use assms(1,2) in simp_all)
  moreover have "sys_step ?s1 (s\<lparr>sys_cancelled := insert (sys_next s) (sys_cancelled s),
      sys_next := Suc (sys_next s)\<rparr>)"
    by (rule step_to [OF reject_regex [where t = 0 and name = name and h = 0]])
      (use assms in \<open>simp_all add: fun_upd_idem\<close>)
  ultimately show ?thesis by (meson r_into_rtranclp rtranclp_trans)
qed

text \<open>Waiting loops return one after the other.\<close>

definition same_frame :: "system \<Rightarrow> system \<Rightarrow> bool" where
  "same_frame s t \<longleftrightarrow> sys_closed t = sys_closed s \<and> sys_chan_closed t = sys_chan_closed s \<and>
     sys_callers t = sys_callers s \<and> sys_next t = sys_next s \<and> sys_closer t = sys_closer s \<and>
     (sys_subs s = Map.empty \<longrightarrow> sys_subs t = Map.empty)"

lemma drain_table:
  assumes "distinct (map loop_id ls)" and "sys_loops s = loop_table ls"
  shows "\<exists>t. sys_step\<^sup>*\<^sup>* s t \<and> same_frame s t \<and> sys_loops t = Map.empty \<and>
    sys_wg t = sys_wg s - loop_id ` set ls"
  using assms
proof (induction ls arbitrary: s)
  case Nil
  then show ?case by (intro exI [of _ s]) (simp add: same_frame_def)
next
  case (Cons l ls)
  let ?s1 = "without_loop (loop_id l) (loop_entry l) s"
  have path: "sys_step\<^sup>*\<^sup>* s ?s1"
    by (rule leave_path) (use Cons.prems in \<open>simp_all add: loop_entry_def\<close>)
  have "loop_table ls (loop_id l) = None" using Cons.prems(1) by (intro loop_table_none) simp
  with Cons.prems(2) have "sys_loops ?s1 = loop_table ls"
    by (auto simp: without_loop_def fun_eq_iff)
  with Cons.IH [of ?s1] Cons.prems(1) obtain t where t: "sys_step\<^sup>*\<^sup>* ?s1 t" "same_frame ?s1 t"
    "sys_loops t = Map.empty" "sys_wg t = sys_wg ?s1 - loop_id ` set ls" by auto
  have "same_frame s t" using t(2) by (auto simp: same_frame_def without_loop_def)
  with t path show ?case
    by (intro exI [of _ t]) (auto simp: without_loop_def intro: rtranclp_trans)
qed

lemma cleanup_path:
  assumes "sys_closer s = NotClosing" and "distinct (map loop_id ls)"
    and "sys_loops s = loop_table ls" and "sys_wg s = loop_id ` set ls"
  shows "\<exists>t. sys_step\<^sup>*\<^sup>* s t \<and> sys_closed t \<and> sys_chan_closed t \<and> sys_consumers t = Map.empty \<and>
    sys_subs t = Map.empty \<and> sys_wg t = {} \<and> sys_callers t = sys_callers s \<and>
    sys_loops t = Map.empty \<and> sys_next t = sys_next s \<and> sys_closer t = Released"
proof -
  let ?s1 = "s\<lparr>sys_chan_closed := True, sys_closer := ChanClosedPc\<rparr>"
  let ?s2 = "?s1\<lparr>sys_closed := True, sys_closer := Collecting\<rparr>"
  let ?s3 = "?s2\<lparr>sys_subs := Map.empty, sys_closer := Cancelling (ran (sys_subs ?s2))\<rparr>"
  let ?s4 = "?s3\<lparr>sys_cancelled := sys_cancelled ?s3 \<union> ran (sys_subs ?s2), sys_closer := Waiting\<rparr>"
  have "sys_step s ?s1" by (rule close_chan [OF assms(1)])
  moreover have "sys_step ?s1 ?s2" by (rule set_closed) simp
  moreover have "sys_step ?s2 ?s3" by (rule collect) simp
  moreover have "sys_step ?s3 ?s4" by (rule cancel) simp
  ultimately have path: "sys_step\<^sup>*\<^sup>* s ?s4" by (meson r_into_rtranclp rtranclp_trans)
  from drain_table [of ls ?s4] assms obtain t where t: "sys_step\<^sup>*\<^sup>* ?s4 t" "same_frame ?s4 t"
    "sys_loops t = Map.empty" "sys_wg t = {}" by auto
  let ?t1 = "t\<lparr>sys_closer := Releasing\<rparr>"
  let ?t2 = "?t1\<lparr>sys_consumers := Map.empty, sys_closer := Released\<rparr>"
  have "sys_step t ?t1" by (rule wait) (use t in \<open>simp_all add: same_frame_def\<close>)
  moreover have "sys_step ?t1 ?t2" by (rule release) simp
  ultimately have "sys_step\<^sup>*\<^sup>* s ?t2" using path t(1) by (meson r_into_rtranclp rtranclp_trans)
  with t show ?thesis by (intro exI [of _ ?t2]) (simp add: same_frame_def)
qed

section \<open>The simulation\<close>

definition simulated :: "PulsarClient \<Rightarrow> PulsarClient \<Rightarrow> bool" where
  "simulated p q \<longleftrightarrow> settled q \<and>
     (\<forall>s. shows_as p s \<longrightarrow> (\<exists>t. sys_step\<^sup>*\<^sup>* s t \<and> shows_as q t))"

lemma simulatedI:
  assumes "settled q" and "\<And>s. shows_as p s \<Longrightarrow> sys_step\<^sup>*\<^sup>* s (f s) \<and> shows_as q (f s)"
  shows "simulated p q"
  using assms unfolding simulated_def by blast

text \<open>An operation that leaves the receiving side alone.\<close>

lemma simulated_same:
  assumes "settled p" and "closed q = closed p" and "closeChan_closed q = closeChan_closed p"
    and "consumers q = consumers p" and "subscriptions q = subscriptions p"
    and "loops q = loops p" and "next_loop q = next_loop p"
  shows "simulated p q"
  by (rule simulatedI [where f = id])
    (use assms in \<open>simp_all add: settled_def shows_as_def GetConsumer_def\<close>)

lemma fresh_loop_id: "client_wf p \<Longrightarrow> next_loop p \<notin> loop_id ` set (loops p)"
  by (auto simp: client_wf_def)

lemma simulated_subscribe:
  assumes "client_wf p" and "settled p" and "SubscribeWith name topics handler p = (r, q)"
  shows "simulated p q"
proof (cases r)
  case (Some err)
  with assms(2,3) have "q = p" by (auto simp: SubscribeWith_def split: if_splits option.splits)
  with assms(2) show ?thesis by (simp add: simulated_same)
next
  case None
  with assms(3) obtain h where h: "\<not> closed p" "go_get (consumers p) name = Some (Some h)"
    "go_get (subscriptions p) name = None" "q = start_loop name (Some h) False p"
    by (auto simp: SubscribeWith_def isClosed_def split: if_splits option.splits)
  show ?thesis
  proof (rule simulatedI [where f = "with_loop name h False"], goal_cases)
    case 1
    with assms(2) h(1,4) show ?case by (simp add: settled_def)
  next
    case (2 s)
    then have "sys_step\<^sup>*\<^sup>* s (with_loop name h False s)"
      using h by (intro subscribe_path) (simp_all add: shows_as_def GetConsumer_def)
    moreover have "shows_as q (with_loop name h False s)"
      using 2 h loop_table_append [where ls = "loops p"] fresh_loop_id [OF assms(1)]
      by (auto simp: shows_as_def with_loop_def loop_entry_def GetConsumer_def fun_eq_iff)
    ultimately show ?case by blast
  qed
qed

lemma simulated_regex:
  assumes "client_wf p" and "settled p" and "no_nil_consumer E"
    and "SubscribeWithRegex E pat handler p = Inr (r, q)"
  shows "simulated p q"
proof (cases "handler = None \<or> closed p \<or> getClient p = None")
  case True
  with assms(4) have "q = p"
    by (cases "handler = None"; cases "isClosed p") (auto simp: SubscribeWithRegex_def isClosed_def)
  with assms(2) show ?thesis by (simp add: simulated_same)
next
  case False
  then obtain c where c: "getClient p = Some c" and opn: "\<not> closed p" by blast
  let ?name = "''regex:'' @ pat"
  note unf = SubscribeWithRegex_def isClosed_def Let_def c
  show ?thesis
  proof (cases "e_Subscribe E (events p) c (regex_options pat)")
    case (Inl err)
    with False assms(4) have "q = emit (EvSubscribe c (regex_options pat) (Inl err)) p" by (auto simp: unf)
    with assms(2) show ?thesis by (simp add: simulated_same)
  next
    case (Inr co)
    with assms(3) obtain h where co: "co = Some h" by (cases co) (auto simp: no_nil_consumer_def)
    show ?thesis
    proof (cases "go_get (subscriptions p) ?name")
      case None
      let ?q = "start_loop ?name (Some h) True ((emit (EvSubscribe c (regex_options pat) (Inr co)) p)
        \<lparr>consumers := go_put ?name (Some h) (consumers p)\<rparr>)"
      have q: "q = ?q" using False assms(4) Inr co None by (auto simp: unf)
      show ?thesis
      proof (rule simulatedI [where f = "with_loop ?name h True"], goal_cases)
        case 1
        with assms(2) opn show ?case by (simp add: settled_def q)
      next
        case (2 s)
        then have "sys_step\<^sup>*\<^sup>* s (with_loop ?name h True s)"
          using opn None by (intro subscribe_regex_path) (simp_all add: shows_as_def)
        moreover have "shows_as q (with_loop ?name h True s)"
          using 2 opn loop_table_append [where ls = "loops p"] fresh_loop_id [OF assms(1)]
          by (auto simp: q shows_as_def with_loop_def loop_entry_def GetConsumer_def fun_eq_iff)
        ultimately show ?case by blast
      qed
    next
      case (Some i)
      with False assms(4) Inr co have q: "closed q = closed p" "consumers q = consumers p"
        "closeChan_closed q = closeChan_closed p" "subscriptions q = subscriptions p"
        "loops q = loops p" "next_loop q = Suc (next_loop p)"
        by (auto simp: unf)
      show ?thesis
      proof (rule simulatedI [where f = "\<lambda>s. s\<lparr>sys_cancelled := insert (sys_next s) (sys_cancelled s),
            sys_next := Suc (sys_next s)\<rparr>"], goal_cases)
        case 1
        with assms(2) show ?case by (simp add: settled_def q)
      next
        case (2 s)
        then have "sys_callers s = Map.empty" "\<not> sys_closed s" "sys_subs s ?name \<noteq> None"
          using opn Some by (simp_all add: shows_as_def)
        from duplicate_regex_path [OF this] 2 show ?case
          by (simp add: shows_as_def q GetConsumer_def)
      qed
    qed
  qed
qed

lemma simulated_exit:
  assumes "client_wf p" and "settled p" and "l \<in> set (loops p)"
  shows "simulated p (exit_loop l p)"
proof -
  let ?q = "exit_loop l p"
  have ids: "distinct (map loop_id (loops p))" using assms(1) by (simp add: client_wf_def)
  have opn: "\<not> closed p" using assms(2,3) by (auto simp: settled_def)
  have entry: "loop_table (loops p) (loop_id l) = Some (loop_entry l)"
    by (rule loop_table_at [OF ids assms(3)])
  have subs: "subscriptions ?q = go_del (loop_name l) (subscriptions p)"
    using assms(1,3) by (auto simp: exit_loop_def Let_def client_wf_def)
  note fields = exit_loop_fields exit_loop_control [of p l, unfolded same_control_def]
  have gone: "loop_id ` set (remove1 l (loops p)) = loop_id ` set (loops p) - {loop_id l}"
    using ids assms(3) by (auto simp: distinct_map inj_on_def set_remove1_eq)
  show ?thesis
  proof (rule simulatedI [where f = "without_loop (loop_id l) (loop_entry l)"], goal_cases)
    case 1
    from assms(2) opn set_remove1_subset [of l "loops p"] show ?case
      by (auto simp: settled_def fields)
  next
    case (2 s)
    then have "sys_step\<^sup>*\<^sup>* s (without_loop (loop_id l) (loop_entry l) s)"
      by (intro leave_path) (simp_all add: shows_as_def entry loop_entry_def)
    moreover have "shows_as ?q (without_loop (loop_id l) (loop_entry l) s)"
      using 2 opn
      by (simp add: shows_as_def without_loop_def fields subs gone
          loop_table_remove [OF ids assms(3)] loop_entry_def)
        (auto simp: fun_eq_iff GetConsumer_def fields)
    ultimately show ?case by blast
  qed
qed

lemma simulated_receive:
  assumes "client_wf p" and "settled p" and "l \<in> set (loops p)"
  shows "simulated p (snd (recv_step handler l sel p))"
proof -
  have "simulated p (dispatchMessage handler h m p)" for h m
    by (rule simulated_same [OF assms(2)]) (simp_all add: dispatch_outcome)
  with simulated_exit [OF assms] show ?thesis
    by (simp add: recv_step_def split: option.split select_case.split)
qed

lemma simulated_unsubscribe:
  assumes "settled p" and "Unsubscribe E name p = (r, q)"
  shows "simulated p q"
proof (cases "GetConsumer name p")
  case None
  then have "GetConsumer n (p\<lparr>consumers := go_del name (consumers p)\<rparr>) = GetConsumer n p" for n
    by (simp add: GetConsumer_def split: option.splits)
  with None assms show ?thesis
    by (intro simulatedI [where f = id])
      (auto simp: Unsubscribe_def settled_def shows_as_def GetConsumer_def go_del_def
        split: option.splits)
next
  case (Some h)
  with assms(2) obtain evs where q: "q = emits evs (p\<lparr>consumers := go_del name (consumers p)\<rparr>)"
    by (auto simp: Unsubscribe_def GetConsumer_def Let_def emit_emits split: option.splits)
  show ?thesis
  proof (rule simulatedI [where f = "\<lambda>s. s\<lparr>sys_consumers := (sys_consumers s)(name := None)\<rparr>"],
      goal_cases)
    case 1
    with assms(1) show ?case by (auto simp: settled_def q go_del_def)
  next
    case (2 s)
    then have "sys_consumers s name = Some h" using Some by (simp add: shows_as_def)
    from forget [OF this] 2 show ?case
      by (auto simp: shows_as_def q GetConsumer_def fun_eq_iff)
  qed
qed

lemma simulated_stop:
  assumes "client_wf p" and "settled p" and "StopContext E ctx p = Inr (r, q)"
  shows "simulated p q"
proof (cases "ctx 0 = None \<and> ctx (Suc 0) = None")
  case False
  with assms(3) have "q = p"
    by (auto simp: StopContext_def cleanupWithContext_def split: option.splits)
  with assms(2) show ?thesis by (simp add: simulated_same)
next
  case True
  let ?ctx = "\<lambda>n. ctx (Suc n)"
  from assms(3) True have run: "cleanupWithContext E ?ctx p = Inr (r, q)"
    by (simp add: StopContext_def)
  have ids: "distinct (map loop_id (loops p))" using assms(1) by (simp add: client_wf_def)
  have q: "closed q" "closeChan_closed q" "consumers q = []" "subscriptions q = []" "loops q = []"
    by (rule cleanup_state [where E = E and p = p and ctx = ?ctx, OF assms(1)]; use True run in auto)+
  have next_id: "next_loop q = next_loop p"
  proof -
    obtain q0 hc cm where "cleanupWithContext E ?ctx p = Inr (None, closeAllResources E q0)"
      and q0: "q0 = (publishRuntimeContract E False False p)
        \<lparr>closeOnce_done := True, closeChan_closed := True, closed := True,
         healthChecker := hc, connectionManager := cm\<rparr>"
      by (rule cleanup_result [where p = p and ctx = ?ctx and E = E, OF assms(1)])
        (use True in simp_all)
    with run closeAllResources_state(1) [of q0 E] show ?thesis by (simp add: same_control_def)
  qed
  have settled: "settled q" by (simp add: settled_def q)
  show ?thesis
  proof (cases "closed p")
    case True
    with assms(2) q next_id settled show ?thesis
      by (intro simulatedI [where f = id]) (simp_all add: settled_def shows_as_def GetConsumer_def)
  next
    case False
    show ?thesis
      unfolding simulated_def
    proof (intro conjI settled allI impI)
      fix s assume s: "shows_as p s"
      from cleanup_path [of s "loops p"] s False ids obtain t where
        "sys_step\<^sup>*\<^sup>* s t" "sys_closed t" "sys_chan_closed t" "sys_consumers t = Map.empty"
        "sys_subs t = Map.empty" "sys_wg t = {}" "sys_callers t = Map.empty"
        "sys_loops t = Map.empty" "sys_next t = next_loop p" "sys_closer t = Released"
        by (auto simp: shows_as_def)
      then show "\<exists>t. sys_step\<^sup>*\<^sup>* s t \<and> shows_as q t"
        by (intro exI [of _ t]) (auto simp: shows_as_def q next_id GetConsumer_def go_get_def fun_eq_iff)
    qed
  qed
qed

text \<open>The operations after the start-up, which alone adds consumers of its own.\<close>

fun receiving_op :: "plugin_op \<Rightarrow> bool" where
  "receiving_op (OpStartContext ctx) = False"
| "receiving_op _ = True"

lemma simulated_step:
  assumes "client_wf p" and "settled p" and "no_nil_consumer E" and "receiving_op op"
    and "plugin_step E X p op = Inr q"
  shows "simulated p q"
proof (cases op)
  case (OpConfigure c)
  with assms(5) show ?thesis
    by (intro simulated_same [OF assms(2)])
      (auto simp: Configure_def split: config_arg.splits option.splits sum.splits)
next
  case (OpInitializeResources r)
  with assms(5) show ?thesis
    by (intro simulated_same [OF assms(2)])
      (auto simp: InitializeResources_def Let_def split: option.splits sum.splits)
next
  case (OpStopContext ctx)
  with assms simulated_stop show ?thesis by (cases "StopContext E ctx p") auto
next
  case (OpProducing pop)
  obtain evs where "producing_frame p evs (produce_step E pop p)"
    using produce_step_account by blast
  with OpProducing assms(5) show ?thesis
    by (intro simulated_same [OF assms(2)]) (auto simp: producing_frame_def)
next
  case (OpSubscribeWith name topics handler)
  with assms simulated_subscribe show ?thesis
    by (cases "SubscribeWith name topics handler p") auto
next
  case (OpSubscribeWithRegex pat handler)
  with assms simulated_regex show ?thesis by (cases "SubscribeWithRegex E pat handler p") auto
next
  case (OpReceive i handler sel)
  with assms show ?thesis
    by (cases "i < length (loops p)") (auto intro: simulated_receive simulated_same)
next
  case (OpUnsubscribe name)
  with assms simulated_unsubscribe show ?thesis by (cases "Unsubscribe E name p") auto
qed (use assms in simp)

lemma simulated_run:
  assumes lib: "durationpb (lib_durationpb X)" "no_nil_consumer E"
    and "plugin_inv (lib_durationpb X) p" and "settled p" and "shows_as p s"
    and "\<forall>op\<in>set ops. receiving_op op" and "plugin_run E X p ops = Inr q"
  shows "\<exists>t. sys_step\<^sup>*\<^sup>* s t \<and> shows_as q t"
  using assms(3-7)
proof (induction ops arbitrary: p s)
  case Nil
  then show ?case by (auto simp: plugin_run_def)
next
  case (Cons op ops)
  from plugin_step_ok [OF Cons.prems(1) lib, of op] obtain p1 where
    p1: "plugin_step E X p op = Inr p1" "plugin_inv (lib_durationpb X) p1" by blast
  have "simulated p p1"
    using Cons.prems(1,2,4) p1(1) lib(2) by (intro simulated_step) (simp_all add: plugin_inv_def)
  with Cons.prems(3) obtain t where t: "settled p1" "sys_step\<^sup>*\<^sup>* s t" "shows_as p1 t"
    by (auto simp: simulated_def)
  have "plugin_run E X p1 ops = Inr q" using Cons.prems(5) p1(1) by (simp add: plugin_run_def)
  with Cons.IH [OF p1(2) t(1,3)] Cons.prems(4) obtain u where "sys_step\<^sup>*\<^sup>* t u" "shows_as q u"
    by auto
  with t(2) show ?case by (blast intro: rtranclp_trans)
qed

text \<open>Claim C7: the interleaved system of callers, receive loops and shutdown is an abstraction of
  the plugin: whatever run of subscriptions, passes of receive loops, sends, removals,
  reconfigurations and stops a started plugin makes, the consumers, subscriptions, loops and
  flags it ends with are those of a reachable state of the system.\<close>

theorem operations_refine_interleaving:
  assumes "durationpb (lib_durationpb X)" and "no_nil_consumer E"
    and "plugin_inv (lib_durationpb X) p" and "\<not> closed p" and "\<not> closeChan_closed p"
    and "loops p = []" and "subscriptions p = []" and "next_loop p = 0"
    and "\<forall>op\<in>set ops. receiving_op op" and "plugin_run E X p ops = Inr q"
  shows "\<exists>s. sys_reachable (\<lambda>n. GetConsumer n p) s \<and> shows_as q s"
proof -
  have "settled p" using assms(4,6) by (simp add: settled_def)
  moreover have "shows_as p (sys_init (\<lambda>n. GetConsumer n p))"
    using assms(4-8) by (auto simp: shows_as_def sys_init_def go_get_def fun_eq_iff)
  ultimately show ?thesis
    using simulated_run [OF assms(1-3) _ _ assms(9,10)] by (simp add: sys_reachable_def)
qed

definition ready_plugin :: PulsarClient where
  "ready_plugin = fresh_plugin\<lparr>client := Some 7, consumers := [(''in'', Some 4)]\<rparr>"

theorem operations_refine_interleaving_witness:
  "\<exists>q s. plugin_run ok_env sample_libs ready_plugin
      [OpSubscribeWith ''in'' [] (Some even_handler), OpSubscribeWithRegex ''t.*'' (Some even_handler),
       OpReceive 0 even_handler (Received 5), OpUnsubscribe ''in'', OpStopContext Background] = Inr q \<and>
     sys_reachable (\<lambda>n. GetConsumer n ready_plugin) s \<and> shows_as q s"
proof -
  let ?ops = "[OpSubscribeWith ''in'' [] (Some even_handler), OpSubscribeWithRegex ''t.*'' (Some even_handler),
       OpReceive 0 even_handler (Received 5), OpUnsubscribe ''in'', OpStopContext Background]"
  have lib: "lib_durationpb sample_libs = durationpb_doc" by (simp add: sample_libs_def)
  have "plugin_inv durationpb_doc ready_plugin"
    using fresh_plugin_inv
    by (simp add: ready_plugin_def plugin_inv_def client_wf_def go_wf_def go_keys_def)
  note inv = this [folded lib]
  obtain q where run: "plugin_run ok_env sample_libs ready_plugin ?ops = Inr q"
    using plug.run_ok [of sample_libs ready_plugin ok_env ?ops] inv
      sample_libs_durationpb ok_env_no_nil unfolding plugin_run_def by blast
  have fields: "\<not> closed ready_plugin" "\<not> closeChan_closed ready_plugin" "loops ready_plugin = []"
    "subscriptions ready_plugin = []" "next_loop ready_plugin = 0"
    by (simp_all add: ready_plugin_def fresh_plugin_def NewPulsarClient_def)
  have ops: "\<forall>op\<in>set ?ops. receiving_op op" by simp
  from operations_refine_interleaving [OF sample_libs_durationpb ok_env_no_nil inv fields ops run] run
  show ?thesis by blast
qed

end
