(* ===== verification/ShutdownSpec.thy ===== *)
theory ShutdownSpec
  imports ReceiveLoops
begin

text \<open>
  Termination of a clean-up. Theory \<open>ReceiveLoops\<close> shows that a shutdown can finish; here every
  run that has set the closed flag is shown to end: each step that is left to a caller, a
  receive loop or the goroutine that shuts down lowers a weight, whatever the scheduler
  chooses, and a state without a next step is one in which everything has been released. The
  weight of a finite map of callers or loops is the sum of the weights of its values.
\<close>

section \<open>Weights\<close>

definition weight :: "('v \<Rightarrow> nat) \<Rightarrow> ('k \<Rightarrow> 'v option) \<Rightarrow> nat" where
  "weight f m = (\<Sum>k\<in>dom m. f (the (m k)))"

lemma weight_empty [simp]: "weight f Map.empty = 0"
  by (simp add: weight_def)

lemma weight_insert:
  assumes "finite (dom m)"
  shows "weight f (m(k \<mapsto> v)) = f v + weight f (m(k := None))"
proof -
  have "weight f (m(k \<mapsto> v)) = (\<Sum>j\<in>insert k (dom m - {k}). f (the ((m(k \<mapsto> v)) j)))"
    by (simp add: weight_def insert_absorb)
  also have "\<dots> = f v + (\<Sum>j\<in>dom m - {k}. f (the ((m(k \<mapsto> v)) j)))"
    using assms by (subst sum.insert) auto
  also have "(\<Sum>j\<in>dom m - {k}. f (the ((m(k \<mapsto> v)) j))) = weight f (m(k := None))"
    unfolding weight_def by (rule sum.cong) auto
  finally show ?thesis .
qed

lemma weight_remove:
  assumes "finite (dom m)" and "m k = Some v"
  shows "weight f m = f v + weight f (m(k := None))"
  using weight_insert [OF assms(1), of f k v] assms(2) by (simp add: fun_upd_idem)

lemma weight_le:
  assumes "finite (dom m)" and "\<And>v. f v \<le> b"
  shows "weight f m \<le> b * card (dom m)"
proof -
  have "weight f m \<le> (\<Sum>k\<in>dom m. b)" unfolding weight_def by (intro sum_mono assms(2))
  then show ?thesis by (simp add: mult.commute)
qed

fun caller_weight :: "caller \<Rightarrow> nat" where
  "caller_weight (Checked n) = 7"
| "caller_weight (CheckedRegex n h) = 8"
| "caller_weight (RegisteredLoop i n h r) = 6"

fun pc_weight :: "loop_pc \<Rightarrow> nat" where
  "pc_weight (Dispatching m) = 5"
| "pc_weight Selecting = 4"
| "pc_weight (Holding m) = 3"
| "pc_weight Leaving = 2"
| "pc_weight Left = 1"

fun closer_weight :: "closer_pc \<Rightarrow> nat" where
  "closer_weight NotClosing = 6"
| "closer_weight ChanClosedPc = 5"
| "closer_weight Collecting = 4"
| "closer_weight (Cancelling ids) = 3"
| "closer_weight Waiting = 2"
| "closer_weight Releasing = 1"
| "closer_weight Released = 0"

text \<open>The size of a system is the work that is left in it.\<close>

instantiation system_ext :: (type) size
begin

definition size_system_ext :: "'a system_scheme \<Rightarrow> nat" where
  "size s = weight caller_weight (sys_callers s) +
     weight (pc_weight \<circ> ls_pc) (sys_loops s) + card (dom (sys_consumers s)) +
     closer_weight (sys_closer s)"

instance ..

end

section \<open>Every step of a closed system lowers the weight\<close>

definition finite_system :: "system \<Rightarrow> bool" where
  "finite_system s \<longleftrightarrow> finite (dom (sys_callers s)) \<and> finite (dom (sys_consumers s)) \<and> counted s"

lemma finite_system_step: "sys_step s t \<Longrightarrow> finite_system s \<Longrightarrow> finite_system t"
  by (frule counted_step)
    (auto simp: finite_system_def sys_defs elim!: sys_step.cases)

interpretation finsys: invariant sys_step finite_system
  by unfold_locales (rule finite_system_step)

lemma finite_system_init: "finite (dom cs) \<Longrightarrow> finite_system (sys_init cs)"
  by (simp add: finite_system_def counted_init) (simp add: sys_init_def)

lemma card_dom_put:
  "finite (dom m) \<Longrightarrow> card (dom (m(k \<mapsto> v))) \<le> Suc (card (dom m))"
  by (simp add: card_insert_if)

lemma card_dom_remove:
  "finite (dom m) \<Longrightarrow> card (dom (m(k := None))) \<le> card (dom m)"
  by (simp add: card_Diff1_le)

lemma card_dom_forget:
  assumes "finite (dom m)" and "m k = Some v"
  shows "card (dom (m(k := None))) < card (dom m)"
proof -
  have "dom (m(k := None)) \<subset> dom m" using assms(2) by auto
  with assms(1) show ?thesis by (rule psubset_card_mono)
qed

lemma closed_step: "sys_step s t \<Longrightarrow> sys_closed s \<Longrightarrow> sys_closed t"
  by (induction rule: sys_step.induct) (simp_all add: sys_defs)

lemma weight_step:
  assumes "sys_step s t" and "sys_closed s" and "finite_system s"
  shows "size t < size s"
proof -
  from assms(3) have fin: "finite (dom (sys_callers s))" "finite (dom (sys_loops s))"
    "finite (dom (sys_consumers s))"
    by (simp_all add: finite_system_def counted_def)
  note w = weight_remove [OF fin(1)] weight_remove [OF fin(2)]
    weight_insert [OF fin(1)] weight_insert [OF fin(2)]
  from assms(1) show ?thesis
  proof cases
    case (register_regex t name h)
    with card_dom_put [OF fin(3), of name h] show ?thesis
      by (simp add: size_system_ext_def sys_defs w(1,3) del: dom_fun_upd)
  next
    case (launch t i name h regex)
    have "weight (pc_weight \<circ> ls_pc) ((sys_loops s)(i := None)) \<le>
        weight (pc_weight \<circ> ls_pc) (sys_loops s)"
      by (cases "sys_loops s i") (simp_all add: w(2) fun_upd_idem)
    with launch show ?thesis by (simp add: size_system_ext_def w(1,4))
  next
    case (unregister i l)
    with card_dom_remove [OF fin(3), of "ls_name l"] show ?thesis
      by (simp add: size_system_ext_def sys_defs w(2,4) del: dom_fun_upd)
  next
    case (forget name h)
    with card_dom_forget [OF fin(3) forget(2)] show ?thesis
      by (simp add: size_system_ext_def del: dom_fun_upd)
  qed (use assms(2) in \<open>simp_all add: size_system_ext_def sys_defs w(1,2) w(3,4)\<close>)
qed

lemma closed_wf: "wf {(t, s). sys_step s t \<and> sys_closed s \<and> finite_system s}"
  by (rule wf_subset [OF wf_measure [of size]]) (auto intro: weight_step)

section \<open>Where a closed system comes to rest\<close>

lemma resting_callers:
  assumes "\<nexists>t. sys_step s t"
  shows "sys_callers s = Map.empty"
proof (rule ext)
  fix k
  show "sys_callers s k = None"
  proof (cases "sys_callers s k")
    case (Some c)
    then show ?thesis
      using assms
      by (cases c) (metis option.exhaust register reject register_regex reject_regex launch)+
  qed
qed

lemma resting_loops:
  assumes "\<nexists>t. sys_step s t" and "sys_closed s"
  shows "sys_loops s = Map.empty"
proof (rule ext)
  fix i
  show "sys_loops s i = None"
  proof (cases "sys_loops s i")
    case (Some l)
    then show ?thesis
      using assms by (cases "ls_pc l") (metis stop drop answer unregister finish)+
  qed
qed

lemma resting_consumers:
  assumes "\<nexists>t. sys_step s t"
  shows "sys_consumers s = Map.empty"
proof (rule ext)
  fix n
  show "sys_consumers s n = None" using assms by (metis forget option.exhaust)
qed

lemma resting_closer:
  assumes "\<nexists>t. sys_step s t" and "sys_wg s = {}"
  shows "sys_closer s = Released"
  using assms
  by (cases "sys_closer s") (metis close_chan set_closed collect cancel wait release)+

lemma closed_steps: "sys_step\<^sup>*\<^sup>* s t \<Longrightarrow> sys_closed s \<Longrightarrow> sys_closed t"
  by (induction rule: rtranclp_induct) (auto intro: closed_step)

lemma path_length:
  "sys_path s ts \<Longrightarrow> sys_closed s \<Longrightarrow> finite_system s \<Longrightarrow> length ts \<le> size s"
proof (induction ts arbitrary: s)
  case (Cons t ts)
  then have st: "sys_step s t" by simp
  from Cons.IH [of t] Cons.prems closed_step [OF st] finite_system_step [OF st]
  have "length ts \<le> size t" by simp
  with weight_step [OF st] Cons.prems show ?case by simp
qed simp

lemma reachable_finite: "sys_reachable cs s \<Longrightarrow> finite (dom cs) \<Longrightarrow> finite_system s"
  using finsys.steps_inv finite_system_init by (auto simp: sys_reachable_def)

text \<open>Claim C5: a clean-up terminates. From every reachable state in which the closed flag is set,
  however callers, receive loops and the shutting-down goroutine are scheduled, at most eight
  steps per caller, five per receive loop, one per registered consumer and six of the goroutine
  remain, provided that every handler call returns; and a state without a next step is at
  rest: the consumers are released, the wait group is empty and no caller, loop or consumer is
  left.\<close>

theorem shutdown_terminates:
  assumes "sys_reachable cs s" and "finite (dom cs)" and "sys_closed s"
  shows "(\<forall>ts. sys_path s ts \<longrightarrow> length ts \<le> 8 * card (dom (sys_callers s)) +
      5 * card (dom (sys_loops s)) + card (dom (sys_consumers s)) + 6) \<and>
    (\<forall>t. sys_step\<^sup>*\<^sup>* s t \<longrightarrow> (\<nexists>u. sys_step t u) \<longrightarrow>
      sys_closer t = Released \<and> sys_wg t = {} \<and> sys_callers t = Map.empty \<and>
      sys_loops t = Map.empty \<and> sys_consumers t = Map.empty)"
proof (rule conjI; intro allI impI)
  note fin = reachable_finite [OF assms(1,2)]
  have "caller_weight c \<le> 8" for c by (cases c) simp_all
  with fin have "weight caller_weight (sys_callers s) \<le> 8 * card (dom (sys_callers s))"
    by (intro weight_le) (simp_all add: finite_system_def)
  moreover have "weight (pc_weight \<circ> ls_pc) (sys_loops s) \<le> 5 * card (dom (sys_loops s))"
  proof (rule weight_le)
    have "pc_weight pc \<le> 5" for pc by (cases pc) simp_all
    then show "(pc_weight \<circ> ls_pc) l \<le> 5" for l :: loop_state by simp
  qed (use fin in \<open>simp add: finite_system_def counted_def\<close>)
  moreover have "closer_weight (sys_closer s) \<le> 6" by (cases "sys_closer s") simp_all
  moreover fix ts assume "sys_path s ts"
  from path_length [OF this assms(3) fin] have "length ts \<le> size s" .
  ultimately show "length ts \<le> 8 * card (dom (sys_callers s)) +
      5 * card (dom (sys_loops s)) + card (dom (sys_consumers s)) + 6"
    by (simp add: size_system_ext_def)
next
  fix t assume t: "sys_step\<^sup>*\<^sup>* s t" "\<nexists>u. sys_step t u"
  have loops: "sys_loops t = Map.empty" by (rule resting_loops [OF t(2) closed_steps [OF t(1) assms(3)]])
  with finsys.steps_inv [OF t(1) reachable_finite [OF assms(1,2)]]
  have wg: "sys_wg t = {}" by (simp add: finite_system_def counted_def)
  show "sys_closer t = Released \<and> sys_wg t = {} \<and> sys_callers t = Map.empty \<and>
      sys_loops t = Map.empty \<and> sys_consumers t = Map.empty"
    using resting_closer [OF t(2) wg] resting_callers [OF t(2)] resting_consumers [OF t(2)] wg loops
    by simp
qed

text \<open>Two loops on one consumer, one of them in its handler, while the clean-up cancels.\<close>

lemma draining_reachable:
  "sys_reachable one_consumer (run_state True [''in'' \<mapsto> 1] {1, 0} Map.empty
     [0 \<mapsto> in_loop (Dispatching 5), 1 \<mapsto> in_loop Selecting] 2 (Cancelling {0}))"
  using sys_path_reachable [OF sys_reachable_init double_drain_path]
  by (simp add: double_drain_run_def)

theorem shutdown_terminates_witness:
  "\<exists>s. sys_reachable one_consumer s \<and> sys_loops s 0 = Some (in_loop (Dispatching 5)) \<and>
     (\<forall>ts. sys_path s ts \<longrightarrow> length ts \<le> 17)"
proof -
  let ?s = "run_state True [''in'' \<mapsto> 1] {1, 0} Map.empty
     [0 \<mapsto> in_loop (Dispatching 5), 1 \<mapsto> in_loop Selecting] 2 (Cancelling {0})"
  have s: "sys_closed ?s" "sys_loops ?s 0 = Some (in_loop (Dispatching 5))"
    "card (dom (sys_loops ?s)) = 2" "card (dom (sys_callers ?s)) = 0"
    "card (dom (sys_consumers ?s)) = 1" and fin: "finite (dom one_consumer)"
    by (simp_all add: run_state_def one_consumer_def)
  from shutdown_terminates [OF draining_reachable fin s(1)]
  have "\<forall>ts. sys_path ?s ts \<longrightarrow> length ts \<le> 17" unfolding s(3-5) by simp
  with draining_reachable s(2) show ?thesis by blast
qed

end
