(* ===== verification/SendRaces.thy ===== *)
theory SendRaces
  imports Client
begin

text \<open>
  The concurrent side of \<open>producer.go\<close>: goroutines that send, goroutines that call \<open>Close\<close> for a
  name, the creation of producers and the part of \<open>closeAllResources\<close> that holds
  \<open>producerMutex\<close>, interleaved at the granularity of that mutex. A sender looks its producer up
  under the lock and sends after it has released it; \<open>Close\<close> removes the entry under the lock
  and closes after it; \<open>closeAllResources\<close> closes every entry while it holds the lock and then
  empties the map. Shown: no producer is closed twice and no lookup finds a closed one; not
  excluded: a send that reaches a producer closed in the meantime.
\<close>

section \<open>The system\<close>

datatype producer_call = Sent handle | Closed handle

record psystem =
  ps_producers :: "string \<Rightarrow> handle option"
  ps_clearing :: "string set option"   \<comment> \<open>\<open>closeAllResources\<close> holds the lock: the names left to close\<close>
  ps_senders :: "nat \<Rightarrow> handle option" \<comment> \<open>the producer a sender has looked up\<close>
  ps_closers :: "nat \<Rightarrow> handle option" \<comment> \<open>the producer a \<open>Close\<close> has removed\<close>
  ps_made :: "handle set"              \<comment> \<open>ghost: the producers that exist\<close>
  ps_calls :: "producer_call list"     \<comment> \<open>ghost: the calls so far\<close>

definition ps_init :: "(string \<Rightarrow> handle option) \<Rightarrow> psystem" where
  "ps_init ps = \<lparr>ps_producers = ps, ps_clearing = None, ps_senders = Map.empty,
     ps_closers = Map.empty, ps_made = ran ps, ps_calls = []\<rparr>"

text \<open>The part of \<open>closeAllResources\<close> that holds the lock: it takes it, closes the entries one by one,
  and releases it with an empty map. \<open>createProducer\<close> enters the producer it was given.\<close>

definition begin_clear :: "psystem \<Rightarrow> psystem" where
  "begin_clear s = s\<lparr>ps_clearing := Some (dom (ps_producers s))\<rparr>"

definition clear_entry :: "string set \<Rightarrow> string \<Rightarrow> handle \<Rightarrow> psystem \<Rightarrow> psystem" where
  "clear_entry N n h s = s\<lparr>ps_clearing := Some (N - {n}), ps_calls := ps_calls s @ [Closed h]\<rparr>"

definition end_clear :: "psystem \<Rightarrow> psystem" where
  "end_clear s = s\<lparr>ps_producers := Map.empty, ps_clearing := None\<rparr>"

definition enter_producer :: "string \<Rightarrow> handle \<Rightarrow> psystem \<Rightarrow> psystem" where
  "enter_producer n h s =
     s\<lparr>ps_producers := (ps_producers s)(n \<mapsto> h), ps_made := insert h (ps_made s)\<rparr>"

lemmas ps_defs = begin_clear_def clear_entry_def end_clear_def enter_producer_def

inductive ps_step :: "psystem \<Rightarrow> psystem \<Rightarrow> bool" where
  look: "ps_clearing s = None \<Longrightarrow> ps_senders s t = None \<Longrightarrow> ps_producers s n = Some h \<Longrightarrow>
    ps_step s (s\<lparr>ps_senders := (ps_senders s)(t \<mapsto> h)\<rparr>)"
| send: "ps_senders s t = Some h \<Longrightarrow> \<comment> \<open>a batch sends again\<close>
    ps_step s (s\<lparr>ps_calls := ps_calls s @ [Sent h]\<rparr>)"
| return: "ps_senders s t = Some h \<Longrightarrow>
    ps_step s (s\<lparr>ps_senders := (ps_senders s)(t := None)\<rparr>)"
| remove: "ps_clearing s = None \<Longrightarrow> ps_closers s t = None \<Longrightarrow> ps_producers s n = Some h \<Longrightarrow>
    ps_step s (s\<lparr>ps_producers := (ps_producers s)(n := None),
      ps_closers := (ps_closers s)(t \<mapsto> h)\<rparr>)"
| close: "ps_closers s t = Some h \<Longrightarrow>
    ps_step s (s\<lparr>ps_closers := (ps_closers s)(t := None), ps_calls := ps_calls s @ [Closed h]\<rparr>)"
| create: "ps_clearing s = None \<Longrightarrow> h \<notin> ps_made s \<Longrightarrow>
    ps_step s (enter_producer n h s)"
| clear: "ps_clearing s = None \<Longrightarrow>
    ps_step s (begin_clear s)"
| clear_one: "ps_clearing s = Some N \<Longrightarrow> n \<in> N \<Longrightarrow> ps_producers s n = Some h \<Longrightarrow>
    ps_step s (clear_entry N n h s)"
| cleared: "ps_clearing s = Some {} \<Longrightarrow>
    ps_step s (end_clear s)"

definition ps_reachable :: "(string \<Rightarrow> handle option) \<Rightarrow> psystem \<Rightarrow> bool" where
  "ps_reachable ps s \<longleftrightarrow> ps_step\<^sup>*\<^sup>* (ps_init ps) s"

section \<open>Ownership\<close>

text \<open>The entry of a name still has to be closed by somebody.\<close>

definition pending :: "psystem \<Rightarrow> string \<Rightarrow> bool" where
  "pending s n \<longleftrightarrow> (case ps_clearing s of None \<Rightarrow> True | Some N \<Rightarrow> n \<in> N)"

text \<open>A producer that can still be closed has one owner, an entry or a \<open>Close\<close> under way, and has
  not been closed; whoever is closed was closed once.\<close>

definition owned_once :: "psystem \<Rightarrow> bool" where
  "owned_once s \<longleftrightarrow>
     (\<forall>n n' h. ps_producers s n = Some h \<longrightarrow> ps_producers s n' = Some h \<longrightarrow> n = n') \<and>
     (\<forall>t t' h. ps_closers s t = Some h \<longrightarrow> ps_closers s t' = Some h \<longrightarrow> t = t') \<and>
     (\<forall>n t h. ps_producers s n = Some h \<longrightarrow> ps_closers s t \<noteq> Some h) \<and>
     (\<forall>n h. ps_producers s n = Some h \<longrightarrow> pending s n \<longrightarrow> Closed h \<notin> set (ps_calls s)) \<and>
     (\<forall>t h. ps_closers s t = Some h \<longrightarrow> Closed h \<notin> set (ps_calls s)) \<and>
     (\<forall>n h. ps_producers s n = Some h \<longrightarrow> h \<in> ps_made s) \<and>
     (\<forall>t h. ps_closers s t = Some h \<longrightarrow> h \<in> ps_made s) \<and>
     (\<forall>h. Closed h \<in> set (ps_calls s) \<longrightarrow> h \<in> ps_made s) \<and>
     (\<forall>h. count_list (ps_calls s) (Closed h) \<le> 1)"

lemma owned_once_step: "ps_step s t \<Longrightarrow> owned_once s \<Longrightarrow> owned_once t"
proof (induction rule: ps_step.induct)
  case (clear_one s N n h)
  then have "Closed h \<notin> set (ps_calls s)" by (auto simp: owned_once_def pending_def)
  with clear_one show ?case
    by (auto simp: owned_once_def pending_def ps_defs count_notin split: if_splits)
qed (auto simp: owned_once_def pending_def ps_defs count_notin split: if_splits)

interpretation owned: invariant ps_step owned_once
  by unfold_locales (rule owned_once_step)

lemma owned_once_init:
  "inj_on ps (dom ps) \<Longrightarrow> owned_once (ps_init ps)"
  by (auto simp: owned_once_def ps_init_def ran_def inj_on_def dom_def)

lemma reachable_owned:
  "ps_reachable ps s \<Longrightarrow> inj_on ps (dom ps) \<Longrightarrow> owned_once s"
  using owned.steps_inv owned_once_init by (auto simp: ps_reachable_def)

text \<open>Claim C10: however sends, calls of \<open>Close\<close>, creations and clean-ups interleave, no producer is
  ever closed twice, and a sender that looks up a producer never finds one that has been
  closed, as long as the names of the map stand for different producers at the start and the
  client library returns a new producer each time.\<close>

theorem producers_closed_once:
  assumes "ps_reachable ps s" and "inj_on ps (dom ps)"
  shows "count_list (ps_calls s) (Closed h) \<le> 1 \<and>
    (ps_clearing s = None \<longrightarrow> ps_producers s n = Some h \<longrightarrow> Closed h \<notin> set (ps_calls s))"
  using reachable_owned [OF assms] by (auto simp: owned_once_def pending_def)

section \<open>A send to a closed producer\<close>

lemma ps_reach_step: "ps_reachable ps s \<Longrightarrow> ps_step s t \<Longrightarrow> ps_reachable ps t"
  unfolding ps_reachable_def by (rule rtranclp.rtrancl_into_rtrancl)

definition one_producer :: "string \<Rightarrow> handle option" where
  "one_producer = [''out'' \<mapsto> 3]"

text \<open>A sender has looked its producer up when a clean-up takes the lock and closes it.\<close>

definition overtaken_send :: "string set option \<Rightarrow> (string \<Rightarrow> handle option) \<Rightarrow> producer_call list \<Rightarrow> psystem" where
  "overtaken_send N ps calls = \<lparr>ps_producers = ps, ps_clearing = N, ps_senders = [0 \<mapsto> 3],
     ps_closers = Map.empty, ps_made = {3}, ps_calls = calls\<rparr>"

lemma overtaken_reachable:
  "ps_reachable one_producer (overtaken_send None Map.empty [Closed 3])"
proof -
  note defs = overtaken_send_def ps_init_def one_producer_def ps_defs
  have "ps_reachable one_producer (ps_init one_producer)" by (simp add: ps_reachable_def)
  moreover have "ps_step (ps_init one_producer) (overtaken_send None one_producer [])"
    using look [of "ps_init one_producer" 0 "''out''" 3] by (simp add: defs)
  moreover have "ps_step (overtaken_send None one_producer [])
      (overtaken_send (Some {''out''}) one_producer [])"
    using clear [of "overtaken_send None one_producer []"] by (simp add: defs)
  moreover have "ps_step (overtaken_send (Some {''out''}) one_producer [])
      (overtaken_send (Some {}) one_producer [Closed 3])"
    using clear_one [of "overtaken_send (Some {''out''}) one_producer []" "{''out''}" "''out''" 3]
    by (simp add: defs)
  moreover have "ps_step (overtaken_send (Some {}) one_producer [Closed 3])
      (overtaken_send None Map.empty [Closed 3])"
    using cleared [of "overtaken_send (Some {}) one_producer [Closed 3]"] by (simp add: defs)
  ultimately show ?thesis by (blast intro: ps_reach_step)
qed

text \<open>Claim C37: a clean-up does not wait for sends: a sender that has looked its producer up before
  the clean-up took the lock can call it after the clean-up has closed it, emptied the map and
  released the lock.\<close>

theorem send_after_close:
  "\<exists>s. ps_reachable one_producer s \<and> ps_clearing s = None \<and> ps_producers s = Map.empty \<and>
     ps_calls s = [Closed 3, Sent 3]"
proof -
  have "ps_step (overtaken_send None Map.empty [Closed 3])
      (overtaken_send None Map.empty [Closed 3, Sent 3])"
    using send [of "overtaken_send None Map.empty [Closed 3]" 0 3] by (simp add: overtaken_send_def)
  from ps_reach_step [OF overtaken_reachable this] show ?thesis
    by (intro exI [of _ "overtaken_send None Map.empty [Closed 3, Sent 3]"])
      (simp add: overtaken_send_def)
qed

theorem producers_closed_once_witness:
  "\<exists>s. ps_reachable one_producer s \<and> Closed 3 \<in> set (ps_calls s) \<and>
     count_list (ps_calls s) (Closed 3) \<le> 1"
proof -
  have "inj_on one_producer (dom one_producer)" by (simp add: one_producer_def inj_on_def)
  from producers_closed_once [OF overtaken_reachable this, of 3] overtaken_reachable
  show ?thesis by (auto simp: overtaken_send_def)
qed

end
