(* ===== verification/Deployment.thy ===== *)
theory Deployment
  imports Plugin
begin

text \<open>
  From the operator's configuration to a running plugin: what \<open>InitializeResources\<close> and
  \<open>Configure\<close> leave on every branch, and that a new plugin with a valid configuration, a broker
  that accepts and a runtime that accepts comes up with everything the operator enabled.
\<close>

section \<open>Initialization\<close>

text \<open>The state after a successful initialization with the normalized configuration \<open>c\<close>, whose
  sections are \<open>m\<close>, \<open>cn\<close> and \<open>rc\<close>.\<close>

definition initialized ::
  "durationpb_lib \<Rightarrow> bool \<Rightarrow> Pulsar \<Rightarrow> Monitoring \<Rightarrow> Connection \<Rightarrow> Retry \<Rightarrow> PulsarClient \<Rightarrow> PulsarClient" where
  "initialized L b c m cn rc p = p\<lparr>rt := b, config := c,
     healthChecker := Some (NewHealthChecker (AsDuration L (M_HealthCheckInterval m))),
     connectionManager := Some (NewConnectionManager cn),
     retryManager := Some (NewRetryManager rc)\<rparr>"

lemma normal_sections:
  assumes "normal_config L c"
  obtains m cn rc where "MonitoringConf c = Some m" "ConnectionConf c = Some cn" "RetryConf c = Some rc"
  using assms by (auto simp: normal_config_def normal_defs)

lemma initialize_accepted:
  assumes "base_init r = None" and "scan_config r (defaultPulsarConfig L) = Inr c"
    and "normalizePulsarConfig L (Some c) = Inr c'" and "normal_config L c'"
  shows "\<exists>m cn rc. MonitoringConf c' = Some m \<and> ConnectionConf c' = Some cn \<and>
    RetryConf c' = Some rc \<and>
    InitializeResources L base_init r p = (None, initialized L (r \<noteq> None) c' m cn rc p)"
proof -
  from assms(4) obtain m cn rc where
    "MonitoringConf c' = Some m" "ConnectionConf c' = Some cn" "RetryConf c' = Some rc"
    by (rule normal_sections)
  with assms(1-3) show ?thesis
    by (intro exI conjI) (simp_all add: InitializeResources_def initialized_def Let_def)
qed

definition acceptable :: "durationpb_lib \<Rightarrow> (runtime option \<Rightarrow> string option) \<Rightarrow> runtime option \<Rightarrow> bool" where
  "acceptable L base_init r \<longleftrightarrow> base_init r = None \<and>
     (case scan_config r (defaultPulsarConfig L) of Inl _ \<Rightarrow> False | Inr c \<Rightarrow> valid_config L c)"

lemma initialize_refused:
  assumes "\<not> acceptable L base_init r"
  shows "\<exists>e q. InitializeResources L base_init r p = (Some e, q) \<and> (q = p \<or> q = p\<lparr>rt := r \<noteq> None\<rparr>)"
proof (cases "base_init r")
  case None
  show ?thesis
  proof (cases "scan_config r (defaultPulsarConfig L)")
    case (Inr c)
    with assms None obtain e where "normalizePulsarConfig L (Some c) = Inl e"
      using normalize_accepts [of L c]
      by (cases "normalizePulsarConfig L (Some c)") (auto simp: is_ok_iff acceptable_def)
    with None Inr show ?thesis by (simp add: InitializeResources_def)
  qed (use None in \<open>simp add: InitializeResources_def\<close>)
qed (simp add: InitializeResources_def)

lemma initialize_cases:
  assumes "durationpb L"
  obtains (refused) e q where "\<not> acceptable L base_init r"
      and "InitializeResources L base_init r p = (Some e, q)" and "q = p \<or> q = p\<lparr>rt := r \<noteq> None\<rparr>"
  | (accepted) c c' m cn rc where "acceptable L base_init r"
      and "scan_config r (defaultPulsarConfig L) = Inr c"
      and "normalizePulsarConfig L (Some c) = Inr c'" and "normal_config L c'"
      and "MonitoringConf c' = Some m" "ConnectionConf c' = Some cn" "RetryConf c' = Some rc"
      and "InitializeResources L base_init r p = (None, initialized L (r \<noteq> None) c' m cn rc p)"
proof (cases "acceptable L base_init r")
  case True
  then obtain c where c: "base_init r = None" "scan_config r (defaultPulsarConfig L) = Inr c"
    "valid_config L c" by (auto simp: acceptable_def split: sum.splits)
  then obtain c' where c': "normalizePulsarConfig L (Some c) = Inr c'"
    using normalize_accepts [of L c] by (auto simp: is_ok_iff)
  note normal = durationpb.normalize_establishes [OF assms c']
  from initialize_accepted [where p = p and base_init = base_init, OF c(1,2) c' normal] show ?thesis
    using accepted [OF True c(2) c' normal] by blast
next
  case False
  then show ?thesis
    using initialize_refused [of L base_init r p] refused by blast
qed

text \<open>Claim C18: \<open>InitializeResources\<close> succeeds exactly when the base plugin does and the scanned
  configuration is valid. Then the configuration is the normalized scanned one, whatever
  was configured before, and all three managers are new ones made from its sections, the
  probe interval and the retry cap being positive; nothing else changes. When it fails, at most
  the reference to the runtime changes.\<close>

theorem initialize_outcome:
  assumes "durationpb L" and "InitializeResources L base_init r p = (res, q)"
  shows "(res = None \<longleftrightarrow> acceptable L base_init r) \<and>
    (res \<noteq> None \<longrightarrow> q = p \<or> q = p\<lparr>rt := r \<noteq> None\<rparr>) \<and>
    (res = None \<longrightarrow> (\<exists>c m cn rc. scan_config r (defaultPulsarConfig L) = Inr c \<and>
       normalizePulsarConfig L (Some c) = Inr (config q) \<and> normal_config L (config q) \<and>
       MonitoringConf (config q) = Some m \<and> 0 < sint (AsDuration L (M_HealthCheckInterval m)) \<and>
       ConnectionConf (config q) = Some cn \<and> RetryConf (config q) = Some rc \<and>
       0 < sint (AsDuration L (R_MaxDelay rc)) \<and>
       q = initialized L (r \<noteq> None) (config q) m cn rc p))"
  using assms(1)
proof (cases rule: initialize_cases [where base_init = base_init and r = r and p = p])
  case (refused e q')
  with assms(2) show ?thesis by auto
next
  case (accepted c c' m cn rc)
  with assms(2) have q: "res = None" "q = initialized L (r \<noteq> None) c' m cn rc p" by simp_all
  then have "config q = c'" by (simp add: initialized_def)
  moreover have "0 < sint (AsDuration L (M_HealthCheckInterval m))"
    using durationpb.normal_interval [OF assms(1) accepted(4,5)] .
  moreover have "0 < sint (AsDuration L (R_MaxDelay rc))"
    using accepted(4,7) durationpb.set_dur_pos [OF assms(1)]
    by (auto simp: normal_config_def normal_Retry_def)
  ultimately show ?thesis using accepted q by blast
qed


text \<open>A runtime whose configuration source has no entry for the plugin.\<close>

definition bare_runtime :: "runtime option" where
  "bare_runtime = Some \<lparr>rt_GetConfig = Some (\<lambda>c. (Some ScanNotFound, c))\<rparr>"

lemma bare_scan: "scan_config bare_runtime c = Inr c"
  by (simp add: bare_runtime_def scan_config_def)

lemma valid_default: "valid_config durationpb_doc (defaultPulsarConfig durationpb_doc)"
  using normalize_accepts [of durationpb_doc "defaultPulsarConfig durationpb_doc"]
  by (simp add: doc.normalize_default is_ok_iff)

lemma bare_acceptable: "acceptable durationpb_doc (\<lambda>r. None) bare_runtime"
  by (simp add: acceptable_def bare_scan valid_default)

theorem initialize_outcome_witness:
  "\<exists>q. InitializeResources durationpb_doc (\<lambda>r. None) bare_runtime fresh_plugin = (None, q) \<and>
     normal_config durationpb_doc (config q)"
proof -
  obtain res q where run:
    "InitializeResources durationpb_doc (\<lambda>r. None) bare_runtime fresh_plugin = (res, q)"
    by fastforce
  from initialize_outcome [OF doc.durationpb_axioms run] bare_acceptable have "res = None" by simp
  with initialize_outcome [OF doc.durationpb_axioms run] run show ?thesis by auto
qed

section \<open>Configuration at run time\<close>

text \<open>Claim C27: \<open>Configure\<close> accepts exactly a non-nil \<open>*conf.Pulsar\<close> whose copy is valid, and then
  replaces the configuration by the normalized copy and nothing else: the client options in
  use, the health checker, the connection manager and the retry manager stay those of the old
  configuration. On an error the state is untouched.\<close>

theorem configure_outcome:
  assumes "Configure L proto_clone arg p = (res, q)"
  shows "(res = None \<longleftrightarrow> (\<exists>c c'. arg = ConfPulsar (Some c) \<and> proto_clone c = Some c' \<and> valid_config L c')) \<and>
    (res \<noteq> None \<longrightarrow> q = p) \<and>
    (res = None \<longrightarrow> (\<exists>c c'. arg = ConfPulsar (Some c) \<and> proto_clone c = Some c' \<and>
       normalizePulsarConfig L (Some c') = Inr (config q) \<and> q = p\<lparr>config := config q\<rparr>))"
proof (cases "\<exists>c c'. arg = ConfPulsar (Some c) \<and> proto_clone c = Some c'")
  case False
  with assms show ?thesis
    by (auto simp: Configure_def clonePulsarConfig_def split: config_arg.splits option.splits)
next
  case True
  then obtain c c' where c: "arg = ConfPulsar (Some c)" "proto_clone c = Some c'" by blast
  show ?thesis
  proof (cases "normalizePulsarConfig L (Some c')")
    case (Inl e)
    then have "\<not> valid_config L c'" using normalize_accepts [of L c'] by simp
    with assms c Inl show ?thesis by (auto simp: Configure_def clonePulsarConfig_def)
  next
    case (Inr n)
    then have "valid_config L c'" using normalize_accepts [of L c'] by simp
    with assms c Inr show ?thesis by (auto simp: Configure_def clonePulsarConfig_def)
  qed
qed

theorem configure_outcome_witness:
  "\<exists>q. Configure durationpb_doc Some (ConfPulsar (Some sparse_config)) fresh_plugin = (None, q) \<and>
     retryManager q = retryManager fresh_plugin"
proof -
  obtain res q where run:
    "Configure durationpb_doc Some (ConfPulsar (Some sparse_config)) fresh_plugin = (res, q)"
    by fastforce
  have "valid_config durationpb_doc sparse_config"
    using normalize_accepts [of durationpb_doc sparse_config] sparse_accepted
    by (auto simp: is_ok_iff)
  with configure_outcome [OF run] have r: "res = None" by simp
  with configure_outcome [OF run] have "q = fresh_plugin\<lparr>config := config q\<rparr>" by blast
  then have "retryManager q = retryManager fresh_plugin" by (metis PulsarClient.select_convs PulsarClient.update_convs PulsarClient.surjective)
  with run r show ?thesis by blast
qed

section \<open>A deployment\<close>

lemma enabled_registered:
  assumes "all_registered p" and "no_nil_entries (config p)"
  shows "Some q \<in> set (Producers (config p)) \<Longrightarrow> P_Enabled q \<Longrightarrow> go_get (producers p) (P_Name q) \<noteq> None"
    and "Some r \<in> set (Consumers (config p)) \<Longrightarrow> C_Enabled r \<Longrightarrow> go_get (consumers p) (C_Name r) \<noteq> None"
  using assms by (force simp: all_registered_def no_nil_entries_def enabled_of_total)+

text \<open>What the operator enabled is what the normalized configuration has enabled.\<close>

lemma normalized_entries:
  assumes "normalizePulsarConfig L (Some c) = Inr c'"
  shows "Some q \<in> set (Producers c) \<Longrightarrow>
      \<exists>q'. Some q' \<in> set (Producers c') \<and> P_Name q' = P_Name q \<and> P_Enabled q' = P_Enabled q"
    and "Some r \<in> set (Consumers c) \<Longrightarrow>
      \<exists>r'. Some r' \<in> set (Consumers c') \<and> C_Name r' = C_Name r \<and> C_Enabled r' = C_Enabled r"
proof -
  from assms have eqs: "map producer_identity (Producers c') = map producer_identity (Producers c)"
    "map consumer_identity (Consumers c') = map consumer_identity (Consumers c)"
    by (auto elim!: normalize_InrE simp: normalize_Producers_identity normalize_Consumers_identity)
  show "\<exists>q'. Some q' \<in> set (Producers c') \<and> P_Name q' = P_Name q \<and> P_Enabled q' = P_Enabled q"
    if "Some q \<in> set (Producers c)"
  proof -
    from that have "producer_identity (Some q) \<in> set (map producer_identity (Producers c'))"
      unfolding eqs by force
    then show ?thesis by (auto simp: producer_identity_def eq_commute [of "Some _"])
  qed
  show "\<exists>r'. Some r' \<in> set (Consumers c') \<and> C_Name r' = C_Name r \<and> C_Enabled r' = C_Enabled r"
    if "Some r \<in> set (Consumers c)"
  proof -
    from that have "consumer_identity (Some r) \<in> set (map consumer_identity (Consumers c'))"
      unfolding eqs by force
    then show ?thesis by (auto simp: consumer_identity_def eq_commute [of "Some _"])
  qed
qed

text \<open>The plugin serves the configuration \<open>c\<close>: it is connected and healthy, it says so to the
  runtime, and every producer and consumer enabled in \<open>c\<close> has an entry.\<close>

definition serves :: "Pulsar \<Rightarrow> PulsarClient \<Rightarrow> bool" where
  "serves c p \<longleftrightarrow> IsConnected p \<and> CheckHealth p = None \<and> contract_is True p \<and>
     (\<forall>q. Some q \<in> set (Producers c) \<longrightarrow> P_Enabled q \<longrightarrow> go_get (producers p) (P_Name q) \<noteq> None) \<and>
     (\<forall>r. Some r \<in> set (Consumers c) \<longrightarrow> C_Enabled r \<longrightarrow> go_get (consumers p) (C_Name r) \<noteq> None)"

definition deployment :: "runtime \<Rightarrow> ctx \<Rightarrow> plugin_op list" where
  "deployment r ctx = [OpInitializeResources (Some r), OpStartContext ctx]"

text \<open>Claim C3: initializing a new plugin and starting it, with a base plugin that initializes, a valid
  scanned configuration, a broker that accepts every creation, a runtime that accepts the plugin
  and a context that is not cancelled, gives a plugin that serves the operator's configuration.\<close>

theorem deployed_plugin_serves:
  assumes "durationpb (lib_durationpb X)" and "acceptable (lib_durationpb X) (lib_BaseInit X) (Some r)"
    and "accepting E" and "\<forall>n. ctx n = None"
  shows "\<exists>p c. scan_config (Some r) (defaultPulsarConfig (lib_durationpb X)) = Inr c \<and>
    plugin_run E X (NewPulsarClient (lib_durationpb X)) (deployment r ctx) = Inr p \<and> serves c p"
  using assms(1)
proof (cases rule: initialize_cases [where base_init = "lib_BaseInit X" and r = "Some r"
      and p = "NewPulsarClient (lib_durationpb X)"])
  case (refused e q)
  with assms(2) show ?thesis by simp
next
  case (accepted c c' m cn rc)
  let ?L = "lib_durationpb X"
  let ?p = "initialized ?L True c' m cn rc (NewPulsarClient ?L)"
  have p: "config ?p = c'" "rt ?p" "\<not> isClosed ?p"
    by (simp_all add: initialized_def NewPulsarClient_def isClosed_def)
  have nn: "no_nil_entries c'" using accepted(4) by (rule normal_no_nil)
  with p startup_accepted [OF assms(3) _ assms(4)] obtain q where
    run: "startupWithContext E ?L ctx ?p = Inr (None, q)" by metis
  from startup_ready [OF run] p have q: "all_registered q" "CheckHealth q = None"
    "IsConnected q" "config q = c'" by simp_all
  moreover have "contract_is True q" using startup_publishes [OF run] assms(4) p(2) by simp
  moreover note enabled_registered [OF q(1)] normalized_entries [OF accepted(3)]
  ultimately have "serves c q" using nn unfolding serves_def by metis
  moreover have "plugin_run E X (NewPulsarClient ?L) (deployment r ctx) = Inr q"
    using accepted(8) run by (simp add: plugin_run_def deployment_def StartContext_def)
  ultimately show ?thesis using accepted(2) by blast
qed

theorem deployed_plugin_serves_witness:
  "\<exists>p. plugin_run ok_env sample_libs (NewPulsarClient durationpb_doc)
      (deployment \<lparr>rt_GetConfig = Some (\<lambda>c. (Some ScanNotFound, c))\<rparr> Background) = Inr p \<and>
     go_get (producers p) ''default-producer'' \<noteq> None"
proof -
  let ?r = "\<lparr>rt_GetConfig = Some (\<lambda>c. (Some ScanNotFound, c))\<rparr>"
  have lib: "lib_durationpb sample_libs = durationpb_doc" "lib_BaseInit sample_libs = (\<lambda>r. None)"
    by (simp_all add: sample_libs_def)
  have "acceptable durationpb_doc (\<lambda>r. None) (Some ?r)"
    using bare_acceptable by (simp add: bare_runtime_def)
  then obtain p c where p: "scan_config (Some ?r) (defaultPulsarConfig durationpb_doc) = Inr c"
    "plugin_run ok_env sample_libs (NewPulsarClient durationpb_doc) (deployment ?r Background) = Inr p"
    "serves c p"
    using deployed_plugin_serves [of sample_libs ?r ok_env Background] doc.durationpb_axioms
      ok_env_accepting by (auto simp: lib Background_def)
  have "c = defaultPulsarConfig durationpb_doc" using p(1) by (simp add: scan_config_def)
  moreover have "P_Name (default_Producer durationpb_doc) = ''default-producer''"
    "P_Enabled (default_Producer durationpb_doc)"
    "Some (default_Producer durationpb_doc) \<in> set (Producers (defaultPulsarConfig durationpb_doc))"
    by (simp_all add: default_defs)
  ultimately show ?thesis using p(2,3) unfolding serves_def by metis
qed

end
