(* ===== verification/Access.thy ===== *)
theory Access
  imports Lifecycle
begin

text \<open>
  Registering the plugin and finding it from outside (\<open>plug.go\<close>). The plugin factory and the
  plugin manager are third-party code: \<open>RegisterPlugin\<close> is a parameter on an abstract state of
  the factory, and \<open>get_plugin\<close> returns nil, a \<open>*PulsarClient\<close> that may be nil, or a plugin of
  another type.
\<close>

text \<open>\<open>init\<close>: the factory gets the plugin's name, its configuration prefix and a constructor.\<close>

definition plugin_init ::
  "(string \<Rightarrow> string \<Rightarrow> (unit \<Rightarrow> PulsarClient) \<Rightarrow> 'f \<Rightarrow> 'f) \<Rightarrow> durationpb_lib \<Rightarrow> 'f \<Rightarrow> 'f" where
  "plugin_init RegisterPlugin L factory =
     RegisterPlugin pluginName confPrefix (\<lambda>_. NewPulsarClient L) factory"

datatype registered_plugin = NilPlugin | PulsarPlugin "PulsarClient option" | OtherPlugin

definition GetPulsarClient :: "(string \<Rightarrow> registered_plugin) \<Rightarrow> go_error + PulsarClient" where
  "GetPulsarClient get_plugin =
     (case get_plugin pluginName of
        PulsarPlugin (Some c) \<Rightarrow> Inr c
      | _ \<Rightarrow> Inl PluginNotFound)"

definition GetPulsarClientByName ::
  "(string \<Rightarrow> registered_plugin) \<Rightarrow> string \<Rightarrow> go_error + PulsarClient" where
  "GetPulsarClientByName get_plugin name =
     (let name' = (if name = '''' then pluginName else name)
      in case get_plugin name' of
           PulsarPlugin (Some c) \<Rightarrow> Inr c
         | _ \<Rightarrow> Inl (NamedPluginNotFound name'))"

text \<open>The empty name and the plugin's own name find what \<open>GetPulsarClient\<close> finds.\<close>

lemma default_by_name:
  "GetPulsarClientByName get_plugin '''' = GetPulsarClientByName get_plugin pluginName"
  "is_ok (GetPulsarClientByName get_plugin '''') \<longleftrightarrow> is_ok (GetPulsarClient get_plugin)"
  "GetPulsarClientByName get_plugin '''' = Inr c \<longleftrightarrow> GetPulsarClient get_plugin = Inr c"
  by (auto simp: GetPulsarClientByName_def GetPulsarClient_def pluginName_def Let_def
      split: registered_plugin.split option.split)

end
