(* ===== verification/PromMetrics.thy ===== *)
theory PromMetrics
  imports Client
begin

text \<open>
  The Prometheus instruments (\<open>prom_metrics.go\<close>). A collector is an object with an identity and
  a description; the registry is third-party code, the parameter \<open>register\<close> on a state of its
  own, and the locale \<open>registerer\<close> states what its documentation promises. \<open>newPromMetrics\<close>
  creates nine instruments and registers each, reusing one that is registered already.
\<close>

section \<open>Collectors and registries\<close>

datatype instrument_kind = CounterKind | HistogramKind

record collector =
  col_id :: nat               \<comment> \<open>the identity of the object\<close>
  col_kind :: instrument_kind
  col_namespace :: string
  col_subsystem :: string
  col_name :: string
  col_help :: string

definition fq_name :: "collector \<Rightarrow> string" where
  "fq_name c = col_namespace c @ ''_'' @ col_subsystem c @ ''_'' @ col_name c"

text \<open>The description of a collector: everything but its identity.\<close>

definition same_desc :: "collector \<Rightarrow> collector \<Rightarrow> bool" where
  "same_desc c d \<longleftrightarrow> fq_name c = fq_name d \<and> col_kind c = col_kind d \<and> col_help c = col_help d"

datatype register_error = AlreadyRegistered collector | RegisterOther string

locale registerer =
  fixes register :: "'s \<Rightarrow> collector \<Rightarrow> register_error option \<times> 's"
    and lookup :: "'s \<Rightarrow> string \<Rightarrow> collector option"
  assumes register_new: "lookup s (fq_name c) = None \<Longrightarrow>
      \<exists>s'. register s c = (None, s') \<and> lookup s' = (lookup s)(fq_name c \<mapsto> c)"
    and register_again: "lookup s (fq_name c) = Some d \<Longrightarrow> same_desc c d \<Longrightarrow>
      register s c = (Some (AlreadyRegistered d), s)"

section \<open>The instruments\<close>

definition NewCounter :: "nat \<Rightarrow> string \<Rightarrow> string \<Rightarrow> string \<Rightarrow> collector" where
  "NewCounter i subsystem name help =
     \<lparr>col_id = i, col_kind = CounterKind, col_namespace = ''lynx_pulsar'',
      col_subsystem = subsystem, col_name = name, col_help = help\<rparr>"

definition NewHistogram :: "nat \<Rightarrow> string \<Rightarrow> string \<Rightarrow> string \<Rightarrow> collector" where
  "NewHistogram i subsystem name help =
     \<lparr>col_id = i, col_kind = HistogramKind, col_namespace = ''lynx_pulsar'',
      col_subsystem = subsystem, col_name = name, col_help = help\<rparr>"

text \<open>\<open>orReg\<close>, and the type assertion on its result.\<close>

definition orReg ::
  "('s \<Rightarrow> collector \<Rightarrow> register_error option \<times> 's) \<Rightarrow> 's \<Rightarrow> collector \<Rightarrow>
   go_panic + collector \<times> 's" where
  "orReg register s c =
     (case register s c of
        (None, s') \<Rightarrow> Inr (c, s')
      | (Some (AlreadyRegistered existing), s') \<Rightarrow> Inr (existing, s')
      | (Some (RegisterOther err), s') \<Rightarrow> Inl (RegistrationFailed err))"

definition orReg_as ::
  "instrument_kind \<Rightarrow> ('s \<Rightarrow> collector \<Rightarrow> register_error option \<times> 's) \<Rightarrow> 's \<Rightarrow> collector \<Rightarrow>
   go_panic + collector \<times> 's" where
  "orReg_as kind register s c =
     bindE (orReg register s c) (\<lambda>(d, s').
     if col_kind d = kind then Inr (d, s') else Inl BadTypeAssertion)"

record promMetrics =
  producerSent :: collector
  producerFailed :: collector
  producerLatency :: collector
  consumerReceived :: collector
  consumerFailed :: collector
  consumerLatency :: collector
  connErrors :: collector
  reconnections :: collector
  healthErrors :: collector

text \<open>The objects that a call creates have the identities from \<open>i\<close> on.\<close>

definition prom_instruments :: "nat \<Rightarrow> collector list" where
  "prom_instruments i =
     [NewCounter i ''producer'' ''messages_sent_total''
        ''Total number of messages successfully sent by the producer.'',
      NewCounter (i + 1) ''producer'' ''messages_failed_total''
        ''Total number of messages that failed to be sent by the producer.'',
      NewHistogram (i + 2) ''producer'' ''send_duration_seconds''
        ''Histogram of producer send latency in seconds.'',
      NewCounter (i + 3) ''consumer'' ''messages_received_total''
        ''Total number of messages successfully processed by the consumer.'',
      NewCounter (i + 4) ''consumer'' ''messages_failed_total''
        ''Total number of messages that failed processing.'',
      NewHistogram (i + 5) ''consumer'' ''process_duration_seconds''
        ''Histogram of consumer message-processing latency in seconds.'',
      NewCounter (i + 6) ''connection'' ''errors_total''
        ''Total number of connection errors encountered.'',
      NewCounter (i + 7) ''connection'' ''reconnections_total''
        ''Total number of reconnection attempts.'',
      NewCounter (i + 8) ''health'' ''check_errors_total''
        ''Total number of failed health checks.'']"

fun register_all ::
  "('s \<Rightarrow> collector \<Rightarrow> register_error option \<times> 's) \<Rightarrow> 's \<Rightarrow> collector list \<Rightarrow>
   go_panic + collector list \<times> 's" where
  "register_all register s [] = Inr ([], s)"
| "register_all register s (c # cs) =
     bindE (orReg_as (col_kind c) register s c) (\<lambda>(d, s').
     bindE (register_all register s' cs) (\<lambda>(ds, s''). Inr (d # ds, s'')))"

definition newPromMetrics ::
  "('s \<Rightarrow> collector \<Rightarrow> register_error option \<times> 's) \<Rightarrow> nat \<Rightarrow> 's \<Rightarrow>
   go_panic + promMetrics \<times> 's" where
  "newPromMetrics register i s =
     bindE (register_all register s (prom_instruments i)) (\<lambda>(ds, s').
     Inr (\<lparr>producerSent = ds ! 0, producerFailed = ds ! 1, producerLatency = ds ! 2,
           consumerReceived = ds ! 3, consumerFailed = ds ! 4, consumerLatency = ds ! 5,
           connErrors = ds ! 6, reconnections = ds ! 7, healthErrors = ds ! 8\<rparr>, s'))"

text \<open>\<open>NewPulsarClient\<close> with its registration: the client and the instruments of its field \<open>prom\<close>,
  or the panic of the registration.\<close>

definition new_registered ::
  "('s \<Rightarrow> collector \<Rightarrow> register_error option \<times> 's) \<Rightarrow> durationpb_lib \<Rightarrow> nat \<Rightarrow> 's \<Rightarrow>
   go_panic + (PulsarClient \<times> promMetrics) \<times> 's" where
  "new_registered register L i s =
     bindE (newPromMetrics register i s) (\<lambda>(pm, s'). Inr ((NewPulsarClient L, pm), s'))"

section \<open>Registering under the contract\<close>

lemma prom_names_distinct: "distinct (map fq_name (prom_instruments i))"
  by (simp add: prom_instruments_def NewCounter_def NewHistogram_def fq_name_def)

lemma prom_instruments_desc: "list_all2 same_desc (prom_instruments i) (prom_instruments j)"
  by (simp add: prom_instruments_def NewCounter_def NewHistogram_def same_desc_def fq_name_def)

lemma length_prom: "length (prom_instruments i) = 9"
  by (simp add: prom_instruments_def)

context registerer
begin

text \<open>A registry is compatible with a collector if it has none of the name, or one with the same
  description.\<close>

definition compatible :: "'s \<Rightarrow> collector \<Rightarrow> bool" where
  "compatible s c \<longleftrightarrow> (\<forall>d. lookup s (fq_name c) = Some d \<longrightarrow> same_desc c d)"

lemma orReg_compatible:
  assumes "compatible s c"
  shows "\<exists>d s'. orReg_as (col_kind c) register s c = Inr (d, s') \<and> same_desc c d \<and>
    lookup s' = (lookup s)(fq_name c \<mapsto> d)"
proof (cases "lookup s (fq_name c)")
  case None
  from register_new [OF None] show ?thesis
    by (auto simp: orReg_as_def orReg_def same_desc_def)
next
  case (Some d)
  with assms have sd: "same_desc c d" by (simp add: compatible_def)
  from register_again [OF Some sd] sd Some show ?thesis
    by (auto simp: orReg_as_def orReg_def same_desc_def fun_upd_idem)
qed

lemma register_all_compatible:
  assumes "\<forall>c\<in>set cs. compatible s c" and "distinct (map fq_name cs)"
  shows "\<exists>ds s'. register_all register s cs = Inr (ds, s') \<and> list_all2 same_desc cs ds \<and>
    (\<forall>n. n \<notin> fq_name ` set cs \<longrightarrow> lookup s' n = lookup s n) \<and>
    list_all2 (\<lambda>c d. lookup s' (fq_name c) = Some d) cs ds"
  using assms
proof (induction cs arbitrary: s)
  case (Cons c cs)
  from Cons.prems(1) have "compatible s c" by simp
  then obtain d s1 where d: "orReg_as (col_kind c) register s c = Inr (d, s1)" "same_desc c d"
    "lookup s1 = (lookup s)(fq_name c \<mapsto> d)" using orReg_compatible by blast
  have "\<forall>c'\<in>set cs. compatible s1 c'"
  proof
    fix c' assume c': "c' \<in> set cs"
    with Cons.prems(2) have "fq_name c' \<noteq> fq_name c" by (auto simp: image_iff)
    with Cons.prems(1) c' d(3) show "compatible s1 c'" by (simp add: compatible_def)
  qed
  with Cons.IH [of s1] Cons.prems(2) obtain ds s2 where ds: "register_all register s1 cs = Inr (ds, s2)"
    "list_all2 same_desc cs ds" "\<forall>n. n \<notin> fq_name ` set cs \<longrightarrow> lookup s2 n = lookup s1 n"
    "list_all2 (\<lambda>c d. lookup s2 (fq_name c) = Some d) cs ds" by auto
  with d Cons.prems(2) show ?case by auto
qed simp

lemma register_all_again:
  assumes "list_all2 (\<lambda>c d. lookup s (fq_name c) = Some d \<and> same_desc c d) cs ds"
  shows "register_all register s cs = Inr (ds, s)"
  using assms
proof (induction cs ds rule: list_all2_induct)
  case (Cons c cs d ds)
  with register_again [of s c d] show ?case
    by (auto simp: orReg_as_def orReg_def same_desc_def)
qed simp

lemma newPromMetrics_twice:
  assumes "\<forall>c\<in>set (prom_instruments i). compatible s c"
  shows "\<exists>pm s'. newPromMetrics register i s = Inr (pm, s') \<and>
    newPromMetrics register j s' = Inr (pm, s')"
proof -
  from register_all_compatible [OF assms prom_names_distinct] obtain ds s' where
    ds: "register_all register s (prom_instruments i) = Inr (ds, s')"
    "list_all2 same_desc (prom_instruments i) ds"
    "list_all2 (\<lambda>c d. lookup s' (fq_name c) = Some d) (prom_instruments i) ds" by blast
  have "list_all2 (\<lambda>c d. lookup s' (fq_name c) = Some d \<and> same_desc c d) (prom_instruments j) ds"
  proof (rule list_all2_all_nthI)
    show len: "length (prom_instruments j) = length ds"
      using list_all2_lengthD [OF ds(2)] by (simp add: length_prom)
    fix k assume k: "k < length (prom_instruments j)"
    then have ki: "k < length (prom_instruments i)" by (simp add: length_prom)
    from prom_instruments_desc [of j i] k have "same_desc (prom_instruments j ! k) (prom_instruments i ! k)"
      by (simp add: list_all2_conv_all_nth)
    moreover have "same_desc (prom_instruments i ! k) (ds ! k)"
      "lookup s' (fq_name (prom_instruments i ! k)) = Some (ds ! k)"
      using ds(2,3) ki by (simp_all add: list_all2_conv_all_nth)
    ultimately show "lookup s' (fq_name (prom_instruments j ! k)) = Some (ds ! k) \<and>
      same_desc (prom_instruments j ! k) (ds ! k)" by (simp add: same_desc_def)
  qed
  from register_all_again [OF this] ds(1) show ?thesis
    by (simp add: newPromMetrics_def)
qed

end

section \<open>A registry\<close>

text \<open>The documented behaviour of a Prometheus registry, as a map from names to collectors: a
  name with another description is refused.\<close>

definition register_doc :: "collector go_map \<Rightarrow> collector \<Rightarrow> register_error option \<times> collector go_map" where
  "register_doc m c =
     (case go_get m (fq_name c) of
        None \<Rightarrow> (None, go_put (fq_name c) c m)
      | Some d \<Rightarrow>
          if same_desc c d then (Some (AlreadyRegistered d), m)
          else (Some (RegisterOther ''descriptor mismatch''), m))"

interpretation prom: registerer register_doc go_get
  by unfold_locales (auto simp: register_doc_def fun_eq_iff)

text \<open>Claim C29: on a registry that honours its contract and holds no conflicting collector,
  \<open>newPromMetrics\<close> does not panic, and a second call returns the very same nine instruments
  and leaves the registry as it is, so that several clients of a process share them.\<close>

theorem prom_metrics_shared:
  assumes "registerer register lookup"
    and "\<forall>c\<in>set (prom_instruments i). \<forall>d. lookup s (fq_name c) = Some d \<longrightarrow> same_desc c d"
  shows "\<exists>pm s'. newPromMetrics register i s = Inr (pm, s') \<and>
    newPromMetrics register j s' = Inr (pm, s')"
  using registerer.newPromMetrics_twice [OF assms(1)] assms
  by (simp add: registerer.compatible_def [OF assms(1)])

theorem prom_metrics_shared_witness:
  "\<exists>pm s'. newPromMetrics register_doc 0 [] = Inr (pm, s') \<and>
     newPromMetrics register_doc 9 s' = Inr (pm, s')"
  by (rule prom_metrics_shared [OF prom.registerer_axioms]) simp

end
