(* ===== verification/Spec2Isabelle.thy ===== *)
theory Spec2Isabelle
  imports OptionsSpec RetrySpec LoopRefinement ShutdownSpec SendRaces Deployment Access PromMetrics
begin

text \<open>
  A model of the Apache Pulsar plugin for the go-lynx framework (Go package \<open>pulsar\<close>, the files
  under \<open>src/\<close>) and the theorems that make it correct. The plugin reads and normalizes a
  configuration, creates a broker client with named producers and consumers, sends messages,
  drives receive loops with a user handler, publishes its readiness to the framework's runtime
  and releases everything on shutdown.

  \<^bold>\<open>How the code is represented.\<close> A Go struct is a record with the fields of the source, a
  pointer that may be nil an option, a fixed-width integer a word, a Go map an association list
  whose iteration order the world chooses (\<open>Prelude\<close>). An operation of the plugin is a function
  from the state \<open>PulsarClient\<close> to its result and the new state; a panic is the left side of a
  sum. Code that is not under \<open>src/\<close> is a parameter: \<open>env\<close> answers the calls of the broker's
  client library and of the runtime, and may answer differently every time, since each answer
  may depend on all calls so far; its field \<open>e_auth\<close> is the library's constructors of
  authentication values, which may return nil; \<open>durationpb_lib\<close> is the protobuf duration; \<open>libs\<close> holds
  \<open>proto.Clone\<close> and the framework's base plugin. Every call that leaves the plugin is appended to
  the field \<open>events\<close>, so that statements about the order of calls are statements about a list.

  \<^bold>\<open>The theories and the code.\<close>
  \<^item> \<open>Prelude\<close>: integer conversions, fallible loops, Go maps, and the contracts (locales)
    \<open>panic_free\<close>, \<open>latched\<close>, \<open>defaulting\<close> and \<open>registry\<close>.
  \<^item> \<open>Durations\<close>, \<open>GoFloat\<close>: \<open>durationpb\<close> with a documented instance, and the double-precision
    arithmetic that \<open>GetRetryDelay\<close> uses, with rounding to nearest even.
  \<^item> \<open>Conf\<close>: \<open>conf/pulsar.pb.go\<close>'s messages, \<open>defaultPulsarConfig\<close>, \<open>clonePulsarConfig\<close>.
  \<^item> \<open>Normalize\<close>, \<open>NormalizeSpec\<close>: \<open>normalizePulsarConfig\<close>; it accepts exactly the valid
    configurations, its results are normal, it is idempotent, it reports the first bad entry.
  \<^item> \<open>Options\<close>, \<open>OptionsSpec\<close>: \<open>buildClientOptions\<close>, the options of \<open>createProducer\<close> and
    \<open>createConsumer\<close>, the keyword parsers; bounds of the options, authentication, round trips.
  \<^item> \<open>Managers\<close>, \<open>RetrySpec\<close>: \<open>managers.go\<close>; no double close, the back-off and its bounds.
  \<^item> \<open>Client\<close>, \<open>Resources\<close>, \<open>ResourcesSpec\<close>: the state of \<open>pulsar.go\<close>, the calls that leave it,
    creation and release of broker resources; their frame conditions and the resources they make.
  \<^item> \<open>Lifecycle\<close>, \<open>StartupSpec\<close>, \<open>CleanupSpec\<close>: \<open>Configure\<close>, \<open>InitializeResources\<close>,
    \<open>startupWithContext\<close>, \<open>cleanupWithContext\<close>, the queries, \<open>runtime_contract.go\<close> and
    \<open>lifecycle_context.go\<close>; what a start-up publishes, makes and releases on every branch, and
    the order in which a clean-up releases.
  \<^item> \<open>Producing\<close>, \<open>ProducingSpec\<close>: \<open>producer.go\<close>; outcomes and exact metrics.
  \<^item> \<open>Consuming\<close>, \<open>ConsumingSpec\<close>: \<open>consumer.go\<close>; guards, one verdict per message.
  \<^item> \<open>ReceiveLoops\<close>: callers, receive loops and shutdown interleaved, one step per critical
    section, as a step relation with invariants by rule induction.
  \<^item> \<open>ShutdownSpec\<close>: every clean-up terminates, whatever the schedule, by a weight that each step
    lowers, and where it comes to rest.
  \<^item> \<open>SendRaces\<close>: senders, \<open>Close\<close>, creation and clean-up of producers interleaved at the
    granularity of \<open>producerMutex\<close>; no producer is closed twice, and the send that comes too late.
  \<^item> \<open>Plugin\<close>: all operations as one object; no run panics, a closed plugin stays closed.
  \<^item> \<open>Deployment\<close>: initialization and reconfiguration on every branch, and a new plugin brought up
    from the operator's configuration to serving it.
  \<^item> \<open>Ledger\<close>: the account of broker handles over whole sessions, and what breaks it.
  \<^item> \<open>LoopRefinement\<close>: the uninterrupted operations are paths of the interleaved system.
  \<^item> \<open>Access\<close>, \<open>PromMetrics\<close>: \<open>plug.go\<close> and \<open>prom_metrics.go\<close>.

  \<^bold>\<open>Bounds and fuel.\<close> No definition has fuel. Loops over the configuration, over a batch and over
  retry attempts are structural; a receive loop and the probe loop, which need not end, are runs
  over a finite list of the cases their \<open>select\<close> takes, and every statement about them holds for
  all such lists.

  \<^bold>\<open>Not modelled.\<close> Log calls; latencies as values (an observation is recorded, its number is
  not); the interface declarations of \<open>interfaces.go\<close>, which have no code; the generated
  protobuf plumbing; the identity, description and weight that \<open>NewPulsarClient\<close> hands to the
  framework's base plugin, which no code of the plugin reads; the state after a panic, which no
  caller observes. The concurrent system of \<open>ReceiveLoops\<close> covers subscribers, receive loops,
  removals and one shutdown, that of \<open>SendRaces\<close> the goroutines that share \<open>producerMutex\<close>; the
  two share no lock and are not interleaved with each other or with concurrent start-ups.
\<close>

end
